(* ===== verification/Prelude.thy ===== *)
theory Prelude
  imports Main "HOL-Library.Word" "HOL-Library.Monad_Syntax"
begin

text \<open>
  Shared ground of the development: the machine integers of the x86-64 target the
  programs are compiled for (8-bit bytes, 32-bit \<open>int\<close>/\<open>uint32_t\<close>, 64-bit
  \<open>size_t\<close>/\<open>uint64_t\<close>, little endian), their byte images, the byte order conversions
  \<open>htonl\<close>/\<open>ntohl\<close>/\<open>bswap_64\<close>, C strings as byte lists, and a few facts on
  lists and options. A computation that may be undefined in C, or that may spin for ever,
  has type \<open>'a option\<close>: \<open>None\<close> is "does not return normally".
\<close>

type_synonym byte = "8 word"
type_synonym u32 = "32 word"
type_synonym u64 = "64 word"
type_synonym size_t = "64 word"

named_theorems mem_simps \<open>rewriting of loads, stores and allocations\<close>
named_theorems codec_simps \<open>byte images of integers and C strings\<close>

section \<open>Options\<close>

lemma bind_SomeI: "m = Some x \<Longrightarrow> f x = Some y \<Longrightarrow> Option.bind m f = Some y"
  by simp

lemma bind_SomeE:
  assumes "Option.bind m f = Some y"
  obtains x where "m = Some x" and "f x = Some y"
  using assms by (cases m) auto

section \<open>Little-endian byte images\<close>

fun le_bytes :: "nat \<Rightarrow> nat \<Rightarrow> byte list" where
  "le_bytes 0 x = []"
| "le_bytes (Suc n) x = of_nat (x mod 256) # le_bytes n (x div 256)"

fun le_nat :: "byte list \<Rightarrow> nat" where
  "le_nat [] = 0"
| "le_nat (b # bs) = unat b + 256 * le_nat bs"

lemma length_le_bytes [simp, codec_simps]: "length (le_bytes n x) = n"
  by (induction n arbitrary: x) auto

lemma unat_byte_of_mod: "unat (of_nat (x mod 256) :: byte) = x mod 256"
  by (simp add: unat_of_nat)

lemma le_nat_le_bytes: "le_nat (le_bytes n x) = x mod 256 ^ n"
proof (induction n arbitrary: x)
  case 0
  show ?case by simp
next
  case (Suc n)
  have "le_nat (le_bytes (Suc n) x) = x mod 256 + 256 * (x div 256 mod 256 ^ n)"
    by (simp add: Suc.IH unat_byte_of_mod)
  also have "\<dots> = x mod (256 * 256 ^ n)"
    by (simp add: mod_mult2_eq)
  finally show ?case by simp
qed

lemma le_nat_bound: "le_nat bs < 256 ^ length bs"
proof (induction bs)
  case Nil
  show ?case by simp
next
  case (Cons b bs)
  have "unat b < 256" using unsigned_less [of b] by simp
  with Cons show ?case by simp
qed

lemma le_bytes_le_nat: "length bs = n \<Longrightarrow> le_bytes n (le_nat bs) = bs"
proof (induction bs arbitrary: n)
  case Nil
  then show ?case by simp
next
  case (Cons b bs)
  have b: "unat b < 256" using unsigned_less [of b] by simp
  from Cons.prems obtain k where k: "n = Suc k" and "length bs = k" by (cases n) auto
  then have "le_bytes k (le_nat bs) = bs" by (simp add: Cons.IH)
  with b k show ?case by simp
qed

text \<open>The byte images of a \<open>uint32_t\<close> and of a \<open>size_t\<close>/\<open>uint64_t\<close>.\<close>

definition bytes32 :: "u32 \<Rightarrow> byte list" where
  "bytes32 w = le_bytes 4 (unat w)"

definition word32 :: "byte list \<Rightarrow> u32" where
  "word32 bs = of_nat (le_nat bs)"

definition bytes64 :: "u64 \<Rightarrow> byte list" where
  "bytes64 w = le_bytes 8 (unat w)"

definition word64 :: "byte list \<Rightarrow> u64" where
  "word64 bs = of_nat (le_nat bs)"

lemma length_bytes32 [simp, codec_simps]: "length (bytes32 w) = 4"
  by (simp add: bytes32_def)

lemma length_bytes64 [simp, codec_simps]: "length (bytes64 w) = 8"
  by (simp add: bytes64_def)

lemma word32_bytes32 [simp, codec_simps]: "word32 (bytes32 w) = w"
proof -
  have "unat w < 2 ^ 32" using unsigned_less [of w] by simp
  then have "le_nat (bytes32 w) = unat w" by (simp add: bytes32_def le_nat_le_bytes)
  then show ?thesis by (simp add: word32_def)
qed

lemma word64_bytes64 [simp, codec_simps]: "word64 (bytes64 w) = w"
proof -
  have "unat w < 2 ^ 64" using unsigned_less [of w] by simp
  then have "le_nat (bytes64 w) = unat w" by (simp add: bytes64_def le_nat_le_bytes)
  then show ?thesis by (simp add: word64_def)
qed

lemma bytes32_word32: "length bs = 4 \<Longrightarrow> bytes32 (word32 bs) = bs"
  using le_nat_bound [of bs] by (simp add: bytes32_def word32_def unat_of_nat le_bytes_le_nat)

lemma bytes64_word64: "length bs = 8 \<Longrightarrow> bytes64 (word64 bs) = bs"
  using le_nat_bound [of bs] by (simp add: bytes64_def word64_def unat_of_nat le_bytes_le_nat)

lemma bytes32_inject: "bytes32 v = bytes32 w \<longleftrightarrow> v = w"
  by (metis word32_bytes32)

text \<open>
  Byte order conversion on a little-endian machine: \<open>htonl\<close> and \<open>ntohl\<close> are the same
  byte reversal of 32 bits, \<open>bswap_64\<close> reverses 64 bits.
\<close>

definition htonl :: "u32 \<Rightarrow> u32" where
  "htonl w = word32 (rev (bytes32 w))"

definition ntohl :: "u32 \<Rightarrow> u32" where
  "ntohl w = word32 (rev (bytes32 w))"

definition bswap_64 :: "u64 \<Rightarrow> u64" where
  "bswap_64 w = word64 (rev (bytes64 w))"

lemma ntohl_htonl [simp]: "ntohl (htonl w) = w"
  by (simp add: htonl_def ntohl_def bytes32_word32)

lemma htonl_ntohl [simp]: "htonl (ntohl w) = w"
  by (simp add: htonl_def ntohl_def bytes32_word32)

lemma bswap_64_bswap_64 [simp]: "bswap_64 (bswap_64 w) = w"
  by (simp add: bswap_64_def bytes64_word64)

section \<open>C strings\<close>

text \<open>
  \<open>cstr bs\<close> is the string that starts at the first byte of \<open>bs\<close>: the bytes before
  the first NUL, \<open>None\<close> when there is no NUL (a read past the end of the object).
\<close>

fun cstr :: "byte list \<Rightarrow> byte list option" where
  "cstr [] = None"
| "cstr (b # bs) = (if b = 0 then Some [] else map_option (Cons b) (cstr bs))"

lemma cstr_append_nul [simp, codec_simps]: "0 \<notin> set s \<Longrightarrow> cstr (s @ 0 # bs) = Some s"
  by (induction s) auto

lemma cstr_append_nul' [simp, codec_simps]: "0 \<notin> set s \<Longrightarrow> cstr ((s @ [0]) @ bs) = Some s"
  by simp

lemma cstr_Some_iff: "cstr bs = Some s \<longleftrightarrow> 0 \<notin> set s \<and> (\<exists>r. bs = s @ 0 # r)"
proof (induction bs arbitrary: s)
  case Nil
  show ?case by simp
next
  case (Cons b bs)
  show ?case by (cases s) (auto simp: Cons.IH)
qed

lemma cstr_None_iff: "cstr bs = None \<longleftrightarrow> 0 \<notin> set bs"
  by (induction bs) auto

lemma cstr_noNul: "cstr bs = Some s \<Longrightarrow> 0 \<notin> set s"
  by (simp add: cstr_Some_iff)

lemma cstr_length: "cstr bs = Some s \<Longrightarrow> length s < length bs"
  by (auto simp: cstr_Some_iff)

lemma cstr_append: "cstr bs = Some s \<Longrightarrow> cstr (bs @ cs) = Some s"
  by (auto simp: cstr_Some_iff)

lemma cstr_take: "cstr bs = Some s \<Longrightarrow> length s < n \<Longrightarrow> cstr (take n bs) = Some s"
proof -
  assume "cstr bs = Some s" and n: "length s < n"
  then obtain r where nz: "0 \<notin> set s" and bs: "bs = s @ 0 # r"
    by (auto simp: cstr_Some_iff)
  from n obtain k where "n - length s = Suc k" by (cases "n - length s") auto
  with bs n have "take n bs = s @ 0 # take k r" by simp
  with nz show "cstr (take n bs) = Some s" by simp
qed

lemma cstr_take_Suc: "cstr bs = Some s \<Longrightarrow> take (Suc (length s)) bs = s @ [0]"
  by (auto simp: cstr_Some_iff)

text \<open>\<open>strcmp\<close>: bytes are compared as unsigned values up to the first difference or NUL.\<close>

fun strcmp_bytes :: "byte list \<Rightarrow> byte list \<Rightarrow> int option" where
  "strcmp_bytes (x # xs) (y # ys) =
     (if x \<noteq> y then Some (uint x - uint y) else if x = 0 then Some 0 else strcmp_bytes xs ys)"
| "strcmp_bytes xs ys = None"

lemma strcmp_bytes_cstr:
  "cstr xs = Some s \<Longrightarrow> cstr ys = Some t \<Longrightarrow> \<exists>c. strcmp_bytes xs ys = Some c \<and> (c = 0 \<longleftrightarrow> s = t)"
proof (induction xs ys arbitrary: s t rule: strcmp_bytes.induct)
  case (1 x xs y ys)
  consider (differ) "x \<noteq> y" | (finished) "x = y" "x = 0" | (more) "x = y" "x \<noteq> 0" by blast
  then show ?case
  proof cases
    case differ
    then have "uint x - uint y \<noteq> 0" by (simp add: word_uint_eq_iff)
    moreover from differ "1.prems" have "s \<noteq> t" by (auto split: if_splits)
    ultimately show ?thesis using differ by simp
  next
    case finished
    with 1 show ?thesis by auto
  next
    case more
    with "1.prems" obtain s' t' where "cstr xs = Some s'" "cstr ys = Some t'"
      and st: "s = x # s'" "t = x # t'" by auto
    with "1.IH" more obtain c where "strcmp_bytes xs ys = Some c" "(c = 0) = (s' = t')" by blast
    with more st show ?thesis by simp
  qed
qed auto

section \<open>Lists\<close>

text \<open>\<open>splice_at off ds xs\<close> overwrites \<open>xs\<close> with \<open>ds\<close> from offset \<open>off\<close> on.\<close>

definition splice_at :: "nat \<Rightarrow> 'a list \<Rightarrow> 'a list \<Rightarrow> 'a list" where
  "splice_at off ds xs = take off xs @ ds @ drop (off + length ds) xs"

lemma length_splice_at [simp]: "off + length ds \<le> length xs \<Longrightarrow> length (splice_at off ds xs) = length xs"
  by (simp add: splice_at_def)

lemma drop_splice_at: "off \<le> length xs \<Longrightarrow> drop off (splice_at off ds xs) = ds @ drop (off + length ds) xs"
  by (simp add: splice_at_def)

lemma take_splice_at: "n \<le> off \<Longrightarrow> off \<le> length xs \<Longrightarrow> take n (splice_at off ds xs) = take n xs"
  by (simp add: splice_at_def)

lemma splice_at_splice_at:
  "off + length ds \<le> length xs \<Longrightarrow>
   splice_at (off + length ds) es (splice_at off ds xs) = splice_at off (ds @ es) xs"
  by (cases ds) (auto simp: splice_at_def min_def add.commute add.left_commute)

lemma drop_after_splice_at:
  "off + length ds \<le> n \<Longrightarrow> n \<le> length xs \<Longrightarrow> drop n (splice_at off ds xs) = drop n xs"
  by (simp add: splice_at_def)

lemma nth_list_update_option: "i < length xs \<Longrightarrow> take n (xs[i := x]) = (take n xs)[i := x]"
  by (simp add: take_update_swap)

text \<open>The index of the first element with a property.\<close>

fun find_index :: "('a \<Rightarrow> bool) \<Rightarrow> 'a list \<Rightarrow> nat option" where
  "find_index P [] = None"
| "find_index P (x # xs) = (if P x then Some 0 else map_option Suc (find_index P xs))"

lemma find_index_None_iff: "find_index P xs = None \<longleftrightarrow> (\<forall>x \<in> set xs. \<not> P x)"
  by (induction xs) auto

lemma find_index_Some: "find_index P xs = Some i \<Longrightarrow> i < length xs \<and> P (xs ! i)"
  by (induction xs arbitrary: i) (auto split: if_splits)

lemma distinct_map_nth_eq:
  "distinct (map f xs) \<Longrightarrow> i < length xs \<Longrightarrow> j < length xs \<Longrightarrow> f (xs ! i) = f (xs ! j) \<Longrightarrow> i = j"
  by (metis distinct_conv_nth length_map nth_map)

lemma map_update_same: "i < length xs \<Longrightarrow> f y = f (xs ! i) \<Longrightarrow> map f (xs[i := y]) = map f xs"
  by (metis list_update_id map_update)

lemma map_of_map_update:
  assumes "distinct (map f xs)" and "i < length xs" and "f y = f (xs ! i)"
  shows "map_of (map (\<lambda>x. (f x, x)) (xs[i := y])) = (map_of (map (\<lambda>x. (f x, x)) xs))(f y \<mapsto> y)"
  using assms
proof (induction xs arbitrary: i)
  case Nil
  then show ?case by simp
next
  case (Cons x xs)
  show ?case
  proof (cases i)
    case 0
    with Cons.prems show ?thesis by (simp add: fun_upd_def fun_eq_iff)
  next
    case (Suc j)
    with Cons.prems have "f y \<noteq> f x" by (auto simp: image_iff) (metis nth_mem)
    with Suc Cons.IH [of j] Cons.prems show ?thesis by (auto simp: fun_eq_iff)
  qed
qed

lemma map_of_map_append1:
  "f y \<notin> f ` set xs \<Longrightarrow>
   map_of (map (\<lambda>x. (f x, x)) (xs @ [y])) = (map_of (map (\<lambda>x. (f x, x)) xs))(f y \<mapsto> y)"
  by (induction xs) (auto simp: fun_upd_twist)

lemma map_of_map_Some:
  "map_of (map (\<lambda>x. (f x, x)) xs) k = Some x \<Longrightarrow> x \<in> set xs \<and> f x = k"
  by (auto dest: map_of_SomeD)

lemma map_of_map_None: "map_of (map (\<lambda>x. (f x, x)) xs) k = None \<longleftrightarrow> k \<notin> f ` set xs"
  by (auto simp: map_of_eq_None_iff image_iff)

section \<open>Sizes\<close>

lemma unat_size_add:
  "unat (a :: size_t) + unat b < 2 ^ 64 \<Longrightarrow> unat (a + b) = unat a + unat b"
  by (simp add: unat_word_ariths)

lemma unat_size_Suc: "unat (a :: size_t) + 1 < 2 ^ 64 \<Longrightarrow> unat (a + 1) = Suc (unat a)"
  by (simp add: unat_word_ariths)

lemma unat_size_double: "2 * unat (a :: size_t) < 2 ^ 64 \<Longrightarrow> unat (a * 2) = 2 * unat a"
  by (simp add: unat_word_ariths mult.commute)

lemma unat_size_of_nat: "n < 2 ^ 64 \<Longrightarrow> unat (of_nat n :: size_t) = n"
  by (simp add: unat_of_nat)

end
