(* ===== verification/C_Memory.thy ===== *)
theory C_Memory
  imports Prelude
begin

text \<open>
  The memory the programs run in. A block is an object obtained from \<open>malloc\<close> (or a
  buffer of the program), a pointer is a block and an offset into it, and a load or store
  is defined only inside a live block. Everything undefined in C (a dangling or null
  pointer, a read or write past the end of the object, \<open>free\<close> of a pointer that
  \<open>malloc\<close> did not return, an unterminated string) is \<open>None\<close>.

  Two things C leaves open are fields of the memory and so universally quantified in
  every theorem: \<open>junk\<close>, the contents of fresh memory, and \<open>oom\<close>, the allocations
  that return NULL. \<open>vaddr\<close> is the numerical address a block was placed at, which the
  programs send to the peer as the target of RDMA.
\<close>

datatype ptr = NULL | Ptr (pblk: nat) (poff: nat)

record mem =
  blocks :: "nat \<Rightarrow> byte list option"
  next_blk :: nat
  junk :: "nat \<Rightarrow> nat \<Rightarrow> byte"
  vaddr :: "nat \<Rightarrow> u64"
  oom :: "nat \<Rightarrow> bool"

section \<open>Operations\<close>

fun padd :: "ptr \<Rightarrow> nat \<Rightarrow> ptr" where
  "padd NULL n = NULL"
| "padd (Ptr b k) n = Ptr b (k + n)"

text \<open>The cast of a pointer to \<open>uintptr_t\<close>.\<close>

fun uintptr :: "mem \<Rightarrow> ptr \<Rightarrow> u64" where
  "uintptr m NULL = 0"
| "uintptr m (Ptr b k) = vaddr m b + of_nat k"

definition c_malloc :: "nat \<Rightarrow> mem \<Rightarrow> ptr \<times> mem" where
  "c_malloc n m =
     (if oom m (next_blk m) then (NULL, m\<lparr>next_blk := Suc (next_blk m)\<rparr>)
      else (Ptr (next_blk m) 0,
            m\<lparr>blocks := (blocks m)(next_blk m := Some (map (junk m (next_blk m)) [0..<n])),
              next_blk := Suc (next_blk m)\<rparr>))"

definition c_free :: "ptr \<Rightarrow> mem \<Rightarrow> mem option" where
  "c_free p m =
     (case p of
        NULL \<Rightarrow> Some m
      | Ptr b k \<Rightarrow>
          if k = 0 \<and> blocks m b \<noteq> None then Some (m\<lparr>blocks := (blocks m)(b := None)\<rparr>)
          else None)"

text \<open>The bytes from a pointer to the end of its object.\<close>

definition bytes_from :: "ptr \<Rightarrow> mem \<Rightarrow> byte list option" where
  "bytes_from p m =
     (case p of
        NULL \<Rightarrow> None
      | Ptr b k \<Rightarrow>
          (case blocks m b of
             None \<Rightarrow> None
           | Some bs \<Rightarrow> if k \<le> length bs then Some (drop k bs) else None))"

definition load_bytes :: "ptr \<Rightarrow> nat \<Rightarrow> mem \<Rightarrow> byte list option" where
  "load_bytes p n m =
     do { bs \<leftarrow> bytes_from p m;
          if n \<le> length bs then Some (take n bs) else None }"

definition store_bytes :: "ptr \<Rightarrow> byte list \<Rightarrow> mem \<Rightarrow> mem option" where
  "store_bytes p ds m =
     (case p of
        NULL \<Rightarrow> None
      | Ptr b k \<Rightarrow>
          (case blocks m b of
             None \<Rightarrow> None
           | Some bs \<Rightarrow>
               if k + length ds \<le> length bs
               then Some (m\<lparr>blocks := (blocks m)(b := Some (splice_at k ds bs))\<rparr>)
               else None))"

text \<open>\<open>strlen\<close>, \<open>strcmp\<close>, \<open>strcpy\<close>, \<open>memcpy\<close> and \<open>memset\<close> of the C library.\<close>

definition c_string :: "ptr \<Rightarrow> mem \<Rightarrow> byte list option" where
  "c_string p m = do { bs \<leftarrow> bytes_from p m; cstr bs }"

definition c_strlen :: "ptr \<Rightarrow> mem \<Rightarrow> nat option" where
  "c_strlen p m = map_option length (c_string p m)"

definition c_strcmp :: "ptr \<Rightarrow> ptr \<Rightarrow> mem \<Rightarrow> int option" where
  "c_strcmp p q m = do { xs \<leftarrow> bytes_from p m; ys \<leftarrow> bytes_from q m; strcmp_bytes xs ys }"

definition c_strcpy :: "ptr \<Rightarrow> ptr \<Rightarrow> mem \<Rightarrow> mem option" where
  "c_strcpy dst src m = do { s \<leftarrow> c_string src m; store_bytes dst (s @ [0]) m }"

definition c_memcpy :: "ptr \<Rightarrow> ptr \<Rightarrow> nat \<Rightarrow> mem \<Rightarrow> mem option" where
  "c_memcpy dst src n m = do { bs \<leftarrow> load_bytes src n m; store_bytes dst bs m }"

definition c_memset :: "ptr \<Rightarrow> byte \<Rightarrow> nat \<Rightarrow> mem \<Rightarrow> mem option" where
  "c_memset dst c n m = store_bytes dst (replicate n c) m"

definition load_u32 :: "ptr \<Rightarrow> mem \<Rightarrow> u32 option" where
  "load_u32 p m = map_option word32 (load_bytes p 4 m)"

definition load_u64 :: "ptr \<Rightarrow> mem \<Rightarrow> u64 option" where
  "load_u64 p m = map_option word64 (load_bytes p 8 m)"

section \<open>Well-formed memories\<close>

text \<open>Blocks not yet handed out are not live, so an allocation is fresh.\<close>

definition mem_ok :: "mem \<Rightarrow> bool" where
  "mem_ok m \<longleftrightarrow> (\<forall>b. next_blk m \<le> b \<longrightarrow> blocks m b = None)"

text \<open>Every later allocation succeeds.\<close>

definition mem_avail :: "mem \<Rightarrow> bool" where
  "mem_avail m \<longleftrightarrow> (\<forall>b. next_blk m \<le> b \<longrightarrow> \<not> oom m b)"

text \<open>
  Two memories agree outside a set of blocks: what a library call that lets the adapter
  write into those blocks may do.
\<close>

definition mem_frame :: "nat set \<Rightarrow> mem \<Rightarrow> mem \<Rightarrow> bool" where
  "mem_frame B m m' \<longleftrightarrow>
     next_blk m' = next_blk m \<and> junk m' = junk m \<and> vaddr m' = vaddr m \<and> oom m' = oom m \<and>
     (\<forall>b. b \<notin> B \<longrightarrow> blocks m' b = blocks m b) \<and>
     (\<forall>b. map_option length (blocks m' b) = map_option length (blocks m b))"

lemma mem_frame_refl [simp, intro]: "mem_frame B m m"
  by (simp add: mem_frame_def)

lemma mem_frame_trans: "mem_frame B m1 m2 \<Longrightarrow> mem_frame B m2 m3 \<Longrightarrow> mem_frame B m1 m3"
  by (simp add: mem_frame_def)

lemma mem_frame_mono: "mem_frame A m m' \<Longrightarrow> A \<subseteq> B \<Longrightarrow> mem_frame B m m'"
  by (auto simp: mem_frame_def)

lemma mem_frame_blocks: "mem_frame B m m' \<Longrightarrow> b \<notin> B \<Longrightarrow> blocks m' b = blocks m b"
  by (simp add: mem_frame_def)

lemma mem_frame_ok: "mem_frame B m m' \<Longrightarrow> mem_ok m \<Longrightarrow> mem_ok m'"
  unfolding mem_frame_def mem_ok_def by (metis option.map_disc_iff)

lemma mem_frame_avail: "mem_frame B m m' \<Longrightarrow> mem_avail m \<Longrightarrow> mem_avail m'"
  by (simp add: mem_frame_def mem_avail_def)

section \<open>Laws\<close>

lemma pblk_padd [simp]: "p \<noteq> NULL \<Longrightarrow> pblk (padd p n) = pblk p"
  by (cases p) auto

lemma padd_NULL_iff [simp]: "padd p n = NULL \<longleftrightarrow> p = NULL"
  by (cases p) auto

lemma padd_0 [simp]: "padd p 0 = p"
  by (cases p) auto

lemma padd_padd [simp]: "padd (padd p i) j = padd p (i + j)"
  by (cases p) (auto simp: add.assoc)

text \<open>Reads depend only on the block of the pointer.\<close>

lemma bytes_from_cong: "blocks m' (pblk p) = blocks m (pblk p) \<Longrightarrow> bytes_from p m' = bytes_from p m"
  by (cases p) (simp_all add: bytes_from_def)

lemma c_string_cong: "blocks m' (pblk p) = blocks m (pblk p) \<Longrightarrow> c_string p m' = c_string p m"
  by (simp add: c_string_def bytes_from_cong [of m' p m])

lemma load_bytes_cong: "blocks m' (pblk p) = blocks m (pblk p) \<Longrightarrow> load_bytes p n m' = load_bytes p n m"
  by (simp add: load_bytes_def bytes_from_cong [of m' p m])

lemma bytes_from_frame: "mem_frame B m m' \<Longrightarrow> pblk p \<notin> B \<Longrightarrow> bytes_from p m' = bytes_from p m"
  by (rule bytes_from_cong) (rule mem_frame_blocks)

lemma c_string_frame: "mem_frame B m m' \<Longrightarrow> pblk p \<notin> B \<Longrightarrow> c_string p m' = c_string p m"
  by (rule c_string_cong) (rule mem_frame_blocks)

lemma load_bytes_frame: "mem_frame B m m' \<Longrightarrow> pblk p \<notin> B \<Longrightarrow> load_bytes p n m' = load_bytes p n m"
  by (rule load_bytes_cong) (rule mem_frame_blocks)

text \<open>A store changes its own block only, and keeps its length.\<close>

lemma store_bytes_frame: "store_bytes p ds m = Some m' \<Longrightarrow> mem_frame {pblk p} m m'"
  by (cases p) (auto simp: store_bytes_def mem_frame_def split: option.splits if_splits)

lemma store_bytes_defined:
  "bytes_from p m = Some bs \<Longrightarrow> length ds \<le> length bs \<Longrightarrow> \<exists>m'. store_bytes p ds m = Some m'"
  by (cases p) (auto simp: store_bytes_def bytes_from_def split: option.splits if_splits)

lemma bytes_from_store:
  "store_bytes p ds m = Some m' \<Longrightarrow> bytes_from p m = Some bs \<Longrightarrow>
   bytes_from p m' = Some (ds @ drop (length ds) bs)"
  by (cases p)
    (auto simp: store_bytes_def bytes_from_def drop_splice_at add.commute split: option.splits if_splits)

lemma bytes_from_padd:
  "bytes_from p m = Some bs \<Longrightarrow> n \<le> length bs \<Longrightarrow> bytes_from (padd p n) m = Some (drop n bs)"
  by (cases p) (auto simp: bytes_from_def add.commute split: option.splits if_splits)

lemma bytes_from_store_padd:
  assumes "bytes_from p m = Some bs" and "n + length ds \<le> length bs"
  shows "\<exists>m'. store_bytes (padd p n) ds m = Some m' \<and>
     bytes_from p m' = Some (splice_at n ds bs) \<and> mem_frame {pblk p} m m'"
  using assms
  by (cases p)
    (auto simp: store_bytes_def bytes_from_def splice_at_def mem_frame_def drop_take add.commute add.left_commute
        split: option.splits if_splits)

text \<open>Allocation.\<close>

lemma c_malloc_avail:
  assumes "mem_avail m"
  shows "c_malloc n m =
    (Ptr (next_blk m) 0,
     m\<lparr>blocks := (blocks m)(next_blk m := Some (map (junk m (next_blk m)) [0..<n])),
       next_blk := Suc (next_blk m)\<rparr>)"
  using assms by (simp add: c_malloc_def mem_avail_def)

lemma c_malloc_avail_after: "mem_avail m \<Longrightarrow> mem_avail (snd (c_malloc n m))"
  by (simp add: c_malloc_def mem_avail_def)

lemma c_malloc_ok: "mem_ok m \<Longrightarrow> mem_ok (snd (c_malloc n m))"
  by (simp add: c_malloc_def mem_ok_def)

lemma c_malloc_blocks: "b < next_blk m \<Longrightarrow> blocks (snd (c_malloc n m)) b = blocks m b"
  by (simp add: c_malloc_def)

lemma mem_ok_live: "mem_ok m \<Longrightarrow> blocks m b \<noteq> None \<Longrightarrow> b < next_blk m"
  by (meson mem_ok_def not_le)

lemma bytes_from_live: "bytes_from p m = Some bs \<Longrightarrow> p \<noteq> NULL \<and> blocks m (pblk p) \<noteq> None"
  by (cases p) (auto simp: bytes_from_def split: option.splits)

lemma bytes_from_below: "bytes_from p m = Some bs \<Longrightarrow> mem_ok m \<Longrightarrow> pblk p < next_blk m"
  using bytes_from_live mem_ok_live by blast

lemma c_string_bytes: "c_string p m = Some s \<Longrightarrow> \<exists>bs. bytes_from p m = Some bs \<and> cstr bs = Some s"
  by (auto simp: c_string_def bind_eq_Some_conv)

lemma c_string_live: "c_string p m = Some s \<Longrightarrow> p \<noteq> NULL \<and> blocks m (pblk p) \<noteq> None"
  by (auto dest: c_string_bytes bytes_from_live)

lemma c_strcmp_string:
  assumes "c_string p m = Some s" and "c_string q m = Some t"
  shows "\<exists>c. c_strcmp p q m = Some c \<and> (c = 0 \<longleftrightarrow> s = t)"
  using assms strcmp_bytes_cstr
  by (fastforce simp: c_string_def c_strcmp_def bind_eq_Some_conv)

lemma load_bytes_eq: "bytes_from p m = Some bs \<Longrightarrow> n \<le> length bs \<Longrightarrow> load_bytes p n m = Some (take n bs)"
  by (simp add: load_bytes_def)

lemmas frame_simps = bytes_from_frame c_string_frame load_bytes_frame

lemma c_string_no_nul: "c_string p m = Some k \<Longrightarrow> 0 \<notin> set k"
  by (auto simp: c_string_def bind_eq_Some_conv dest: cstr_noNul)

end
