(* ===== verification/Verbs.thy ===== *)
theory Verbs
  imports C_Memory
begin

text \<open>
  The RDMA verbs library (libibverbs) as the programs see it. The library is not part of
  the repository: its data types are those of its documented interface, restricted to the
  fields the programs use, and its functions are a record \<open>'w verbs\<close> that every modelled
  function takes as an argument. \<open>'w\<close> is the state of the adapter and of everything
  beyond it. A call may change that state and, since the adapter writes by DMA, the memory.

  The last section names the documented behaviour that some theorems rely on. It speaks of
  the adapter through an \<open>nic_view\<close>: which memory regions are registered, which blocks
  are message buffers, whether the connection is up, the log of executed requests, the
  bytes the peer exposes for reading at an address under a key, and where the peer lets so
  many bytes be written under a key.
\<close>

section \<open>Data types of the interface\<close>

type_synonym handle = nat \<comment> \<open>an opaque object pointer of the library, 0 is NULL\<close>

datatype ibv_wr_opcode = IBV_WR_SEND | IBV_WR_RDMA_WRITE | IBV_WR_RDMA_READ

datatype ibv_wc_opcode =
    IBV_WC_SEND | IBV_WC_RDMA_WRITE | IBV_WC_RDMA_READ | IBV_WC_RECV | IBV_WC_OTHER nat

datatype ibv_wc_status = IBV_WC_SUCCESS | IBV_WC_ERR nat

datatype ibv_access =
    IBV_ACCESS_LOCAL_WRITE | IBV_ACCESS_REMOTE_WRITE | IBV_ACCESS_REMOTE_READ

datatype ibv_send_flag = IBV_SEND_SIGNALED | IBV_SEND_INLINE

record ibv_mr =
  mr_addr :: ptr
  mr_length :: size_t
  lkey :: u32
  rkey :: u32

record ibv_sge =
  sge_addr :: ptr
  sge_length :: u32
  sge_lkey :: u32

record ibv_recv_wr =
  recv_wr_id :: nat
  recv_sge :: ibv_sge

record ibv_send_wr =
  send_wr_id :: nat
  send_sge :: ibv_sge
  send_opcode :: ibv_wr_opcode
  send_flags :: "ibv_send_flag list"
  rdma_rkey :: u32
  rdma_remote_addr :: u64

datatype ibv_link_layer = IBV_LINK_LAYER_INFINIBAND | IBV_LINK_LAYER_OTHER

record ibv_port_attr =
  port_lid :: int
  link_layer :: ibv_link_layer

record ibv_wc =
  wc_status :: ibv_wc_status
  wc_opcode :: ibv_wc_opcode
  wc_wr_id :: nat

section \<open>The state of a process\<close>

text \<open>
  Memory, adapter, and the global variables of the programs (\<open>max_inline\<close> and
  \<open>page_size\<close> of ib_functions.c, \<open>kv_malloc\<close> of dynamic_array.h).
\<close>

record 'w pstate =
  pmem :: mem
  world :: 'w
  max_inline :: u32
  page_size :: int
  kv_malloc :: int

record 'w verbs =
  ibv_post_recv :: "handle \<Rightarrow> ibv_recv_wr \<Rightarrow> 'w pstate \<Rightarrow> int \<times> 'w pstate"
  ibv_post_send :: "handle \<Rightarrow> ibv_send_wr \<Rightarrow> 'w pstate \<Rightarrow> int \<times> 'w pstate"
  ibv_poll_cq :: "handle \<Rightarrow> int \<Rightarrow> 'w pstate \<Rightarrow> (int \<times> ibv_wc list) \<times> 'w pstate"
  ibv_reg_mr :: "handle \<Rightarrow> ptr \<Rightarrow> size_t \<Rightarrow> ibv_access list \<Rightarrow> 'w pstate \<Rightarrow> ibv_mr option \<times> 'w pstate"
  ibv_dereg_mr :: "ibv_mr \<Rightarrow> 'w pstate \<Rightarrow> int \<times> 'w pstate"

section \<open>Documented behaviour\<close>

record 'w nic_view =
  nic_mrs :: "'w \<Rightarrow> (ibv_mr \<times> ibv_access list) set"
  nic_work :: "nat set"
  nic_up :: "'w \<Rightarrow> bool"
  nic_log :: "'w \<Rightarrow> (ibv_send_wr \<times> byte list) list"
  nic_remote :: "'w \<Rightarrow> u64 \<Rightarrow> u32 \<Rightarrow> nat \<Rightarrow> byte list option"
  nic_target :: "'w \<Rightarrow> u64 \<Rightarrow> u32 \<Rightarrow> nat \<Rightarrow> bool"

text \<open>
  The blocks the adapter may write at any moment: those the peer was given write access to,
  and the message buffers of the connections.
\<close>

definition nic_dma :: "'w nic_view \<Rightarrow> 'w \<Rightarrow> nat set" where
  "nic_dma W w =
     {pblk (mr_addr mr) |mr acc. (mr, acc) \<in> nic_mrs W w \<and> IBV_ACCESS_REMOTE_WRITE \<in> set acc}
     \<union> nic_work W"

text \<open>A library call changes only the adapter and the memory the adapter may write.\<close>

definition nic_call :: "'w nic_view \<Rightarrow> 'w pstate \<Rightarrow> 'w pstate \<Rightarrow> bool" where
  "nic_call W s s' \<longleftrightarrow>
     mem_frame (nic_dma W (world s)) (pmem s) (pmem s') \<and> nic_up W (world s') \<and>
     max_inline s' = max_inline s \<and> page_size s' = page_size s \<and> kv_malloc s' = kv_malloc s"

text \<open>
  \<open>polls_one V cq s wc s'\<close>: polling the queue returns nothing finitely often and then the
  completion \<open>wc\<close>.
\<close>

inductive polls_one ::
  "('w, 'z) verbs_scheme \<Rightarrow> handle \<Rightarrow> 'w pstate \<Rightarrow> ibv_wc \<Rightarrow> 'w pstate \<Rightarrow> bool" for V cq where
  polls_now: "ibv_poll_cq V cq 1 s = ((1, [wc]), s') \<Longrightarrow> polls_one V cq s wc s'"
| polls_later: "ibv_poll_cq V cq 1 s = ((0, wcs), s1) \<Longrightarrow> polls_one V cq s1 wc s' \<Longrightarrow> polls_one V cq s wc s'"

text \<open>
  A signalled send or RDMA write from a registered region over an established reliable
  connection is executed with the bytes its gather list designates when it is posted, and
  completes successfully; an RDMA write only if the peer lets that many bytes be written at
  its remote address under its remote key.
\<close>

fun wc_opcode_of :: "ibv_wr_opcode \<Rightarrow> ibv_wc_opcode" where
  "wc_opcode_of IBV_WR_SEND = IBV_WC_SEND"
| "wc_opcode_of IBV_WR_RDMA_WRITE = IBV_WC_RDMA_WRITE"
| "wc_opcode_of IBV_WR_RDMA_READ = IBV_WC_RDMA_READ"

definition sends_complete :: "('w, 'z) verbs_scheme \<Rightarrow> 'w nic_view \<Rightarrow> handle \<Rightarrow> handle \<Rightarrow> bool" where
  "sends_complete V W qp cq \<longleftrightarrow>
     (\<forall>wr s bs mr acc.
        nic_up W (world s) \<and> send_opcode wr \<noteq> IBV_WR_RDMA_READ \<and> (mr, acc) \<in> nic_mrs W (world s) \<and>
        lkey mr = sge_lkey (send_sge wr) \<and> mr_addr mr = sge_addr (send_sge wr) \<and>
        unat (sge_length (send_sge wr)) \<le> unat (mr_length mr) \<and>
        load_bytes (sge_addr (send_sge wr)) (unat (sge_length (send_sge wr))) (pmem s) = Some bs \<and>
        (send_opcode wr = IBV_WR_RDMA_WRITE \<longrightarrow>
          nic_target W (world s) (rdma_remote_addr wr) (rdma_rkey wr) (unat (sge_length (send_sge wr)))) \<longrightarrow>
        (\<exists>s1 s2 wc.
           ibv_post_send V qp wr s = (0, s1) \<and> polls_one V cq s1 wc s2 \<and>
           wc_status wc = IBV_WC_SUCCESS \<and> wc_opcode wc = wc_opcode_of (send_opcode wr) \<and>
           nic_call W s s2 \<and> nic_mrs W (world s2) = nic_mrs W (world s) \<and>
           nic_log W (world s2) = nic_log W (world s) @ [(wr, bs)]))"

text \<open>
  A signalled RDMA read into a registered region fetches the bytes the peer exposes; beside
  the memory the adapter may write anyway it changes the object read into.
\<close>

definition reads_complete :: "('w, 'z) verbs_scheme \<Rightarrow> 'w nic_view \<Rightarrow> handle \<Rightarrow> handle \<Rightarrow> bool" where
  "reads_complete V W qp cq \<longleftrightarrow>
     (\<forall>wr s bs cs mr acc.
        nic_up W (world s) \<and> send_opcode wr = IBV_WR_RDMA_READ \<and> (mr, acc) \<in> nic_mrs W (world s) \<and>
        IBV_ACCESS_LOCAL_WRITE \<in> set acc \<and>
        lkey mr = sge_lkey (send_sge wr) \<and> mr_addr mr = sge_addr (send_sge wr) \<and>
        unat (sge_length (send_sge wr)) \<le> unat (mr_length mr) \<and>
        load_bytes (sge_addr (send_sge wr)) (unat (sge_length (send_sge wr))) (pmem s) = Some cs \<and>
        nic_remote W (world s) (rdma_remote_addr wr) (rdma_rkey wr) (unat (sge_length (send_sge wr))) = Some bs \<and>
        length bs = unat (sge_length (send_sge wr)) \<longrightarrow>
        (\<exists>s1 s2 wc.
           ibv_post_send V qp wr s = (0, s1) \<and> polls_one V cq s1 wc s2 \<and>
           wc_status wc = IBV_WC_SUCCESS \<and> wc_opcode wc = IBV_WC_RDMA_READ \<and>
           mem_frame (insert (pblk (sge_addr (send_sge wr))) (nic_dma W (world s))) (pmem s) (pmem s2) \<and>
           load_bytes (sge_addr (send_sge wr)) (length bs) (pmem s2) = Some bs \<and>
           nic_up W (world s2) \<and> max_inline s2 = max_inline s \<and> page_size s2 = page_size s \<and>
           kv_malloc s2 = kv_malloc s \<and> nic_mrs W (world s2) = nic_mrs W (world s) \<and>
           nic_log W (world s2) = nic_log W (world s) @ [(wr, bs)]))"

text \<open>Registering a non-empty region of live memory succeeds.\<close>

definition registers :: "('w, 'z) verbs_scheme \<Rightarrow> 'w nic_view \<Rightarrow> handle \<Rightarrow> bool" where
  "registers V W pd \<longleftrightarrow>
     (\<forall>p n acc s bs.
        nic_up W (world s) \<and> 0 < n \<and> bytes_from p (pmem s) = Some bs \<and> unat n \<le> length bs \<longrightarrow>
        (\<exists>mr s'.
           ibv_reg_mr V pd p n acc s = (Some mr, s') \<and> mr_addr mr = p \<and> mr_length mr = n \<and>
           nic_mrs W (world s') = insert (mr, acc) (nic_mrs W (world s)) \<and>
           nic_call W s s' \<and> nic_log W (world s') = nic_log W (world s)))"

text \<open>Deregistering a registered region revokes it.\<close>

definition deregisters :: "('w, 'z) verbs_scheme \<Rightarrow> 'w nic_view \<Rightarrow> bool" where
  "deregisters V W \<longleftrightarrow>
     (\<forall>mr acc s.
        nic_up W (world s) \<and> (mr, acc) \<in> nic_mrs W (world s) \<longrightarrow>
        (\<exists>s'.
           ibv_dereg_mr V mr s = (0, s') \<and>
           nic_mrs W (world s') = {(mr', acc') \<in> nic_mrs W (world s). mr' \<noteq> mr} \<and>
           nic_call W s s' \<and> nic_log W (world s') = nic_log W (world s)))"

lemma registersD:
  assumes "registers V W pdom" and "nic_up W (world s)" and "0 < n"
    and "bytes_from p (pmem s) = Some bs" and "unat n \<le> length bs"
  obtains mr s' where "ibv_reg_mr V pdom p n acc s = (Some mr, s')" "mr_addr mr = p" "mr_length mr = n"
    "nic_mrs W (world s') = insert (mr, acc) (nic_mrs W (world s))" "nic_call W s s'"
    "nic_log W (world s') = nic_log W (world s)"
  using assms unfolding registers_def by blast

lemma nic_work_dma: "nic_work W \<subseteq> nic_dma W w"
  by (auto simp: nic_dma_def)

lemma nic_dma_cong: "nic_mrs W w' = nic_mrs W w \<Longrightarrow> nic_dma W w' = nic_dma W w"
  by (simp add: nic_dma_def)

lemma nic_dma_insert:
  "nic_mrs W w' = insert (mr, acc) (nic_mrs W w) \<Longrightarrow>
   nic_dma W w' = (if IBV_ACCESS_REMOTE_WRITE \<in> set acc then insert (pblk (mr_addr mr)) (nic_dma W w)
                   else nic_dma W w)"
  by (auto simp: nic_dma_def)

lemma nic_dma_mono: "nic_mrs W w' \<subseteq> nic_mrs W w \<Longrightarrow> nic_dma W w' \<subseteq> nic_dma W w"
  by (auto simp: nic_dma_def)

end
