(* ===== verification/Receive_Credit.thy ===== *)
theory Receive_Credit
  imports Prelude
begin

text \<open>
  The accounting of posted receive requests, an interface with two providers: the polling
  of LowLatencyProtocols/ib_functions.c and that of Optimization/bw_template.c. A context
  keeps the number of receive requests it has in the queue (\<open>routs\<close>), takes one away
  per received message, and refills the queue to its depth at a threshold. Messages the
  peer sends into an empty receive queue are not delivered, so the promise is that the
  number stays above the threshold, whatever the sequence of receptions. \<open>posted_credit\<close> adds
  that the number is right: it is the number of requests that are outstanding at the adapter.
\<close>

fun iterate_option :: "nat \<Rightarrow> ('a \<Rightarrow> 'a option) \<Rightarrow> 'a \<Rightarrow> 'a option" where
  "iterate_option 0 f x = Some x"
| "iterate_option (Suc n) f x = do { y \<leftarrow> f x; iterate_option n f y }"

locale receive_credit =
  fixes credit :: "'c \<Rightarrow> int"
    and depth :: "'c \<Rightarrow> int"
    and low :: int
    and receive :: "'c \<Rightarrow> 'c option"
  assumes receive_depth: "receive c = Some c' \<Longrightarrow> depth c' = depth c"
    and receive_takes: "receive c = Some c' \<Longrightarrow> low < credit c - 1 \<Longrightarrow> credit c' = credit c - 1"
    and receive_refills: "receive c = Some c' \<Longrightarrow> credit c - 1 \<le> low \<Longrightarrow> credit c \<le> depth c \<Longrightarrow>
      credit c' = depth c"
begin

lemma receive_bounds:
  assumes "receive c = Some c'" and "low < credit c" and "credit c \<le> depth c"
  shows "low < credit c' \<and> credit c' \<le> depth c'"
proof (cases "low < credit c - 1")
  case True
  with assms show ?thesis by (simp add: receive_takes receive_depth)
next
  case False
  with assms show ?thesis by (simp add: receive_refills receive_depth)
qed

lemma receives_bounds:
  assumes "low < credit c" and "credit c \<le> depth c"
    and "iterate_option n receive c = Some c'"
  shows "low < credit c' \<and> credit c' \<le> depth c' \<and> depth c' = depth c"
  using assms
proof (induction n arbitrary: c)
  case 0
  then show ?case by simp
next
  case (Suc n)
  from Suc.prems(3) obtain d where d: "receive c = Some d" "iterate_option n receive d = Some c'"
    by (auto simp: bind_eq_Some_conv)
  with Suc.prems receive_bounds have "low < credit d" "credit d \<le> depth d" by blast+
  from Suc.IH [OF this d(2)] receive_depth [OF d(1)] show ?case by simp
qed

text \<open>Between two refills every reception takes one request, so refills are rare.\<close>

lemma receives_without_refill:
  assumes "iterate_option n receive c = Some c'" and "low + int n < credit c"
  shows "credit c' = credit c - int n"
  using assms
proof (induction n arbitrary: c)
  case 0
  then show ?case by simp
next
  case (Suc n)
  from Suc.prems(1) obtain d where d: "receive c = Some d" "iterate_option n receive d = Some c'"
    by (auto simp: bind_eq_Some_conv)
  moreover from d(1) Suc.prems(2) have "credit d = credit c - 1"
    by (intro receive_takes) auto
  ultimately show ?case using Suc by simp
qed

end

locale posted_credit = receive_credit +
  fixes exact :: "'c \<Rightarrow> bool"
  assumes receive_exact: "receive c = Some c' \<Longrightarrow> low < credit c \<Longrightarrow> credit c \<le> depth c \<Longrightarrow>
      exact c \<Longrightarrow> exact c'"
begin

lemma receives_exact:
  assumes "exact c" and "low < credit c" and "credit c \<le> depth c"
    and "iterate_option n receive c = Some c'"
  shows "exact c'"
  using assms
proof (induction n arbitrary: c)
  case 0
  then show ?case by simp
next
  case (Suc n)
  from Suc.prems(4) obtain d where d: "receive c = Some d" "iterate_option n receive d = Some c'"
    by (auto simp: bind_eq_Some_conv)
  from receive_exact [OF d(1) Suc.prems(2,3,1)] receive_bounds [OF d(1) Suc.prems(2,3)] d(2)
  show ?case by (intro Suc.IH) auto
qed

end

end
