(* ===== verification/IB_Functions.thy ===== *)
theory IB_Functions
  imports Verbs Receive_Credit
begin

text \<open>
  The data path of LowLatencyProtocols/ib_functions.c: the connection context, posting of
  receive, send and RDMA requests, and the two polling loops. A polling loop may spin for
  ever, so the loops are \<open>partial_function (option)\<close>.

  The second half shows what the loops do under the documented behaviour of the adapter,
  and that the count \<open>routs\<close> of outstanding receive requests stays within its bounds,
  through the interface \<open>receive_credit\<close>.
\<close>

section \<open>Types\<close>

datatype MRStatus = FREE | IN_RECEIVE_QUEUE | RDMA

record MRInfo =
  info_mr :: "ibv_mr option"
  mr_start_ptr :: ptr
  mr_size :: size_t
  mr_status :: MRStatus

record pingpong_context =
  dev_context :: handle
  channel :: handle
  pd :: handle
  send_cq :: handle
  receive_cq :: handle
  portinfo :: ibv_port_attr
  qp :: handle
  mr_control_send :: "ibv_mr option"
  mr_control_send_start_ptr :: ptr
  mr_control_send_size :: int
  mr_control_receive :: "ibv_mr option"
  mr_control_receive_start_ptr :: ptr
  mr_control_receive_size :: int
  rx_depth :: int
  routs :: int
  mr_rdma :: "ibv_mr option"
  mr_rdma_start_ptr :: ptr
  mr_rdma_size :: size_t
  remote_buf_va :: u64
  remote_buf_rkey :: u32

text \<open>
  \<open>mr_control_send_size\<close> and its like keep their C types; the field \<open>array_mr_receive_info\<close>,
  which no code uses, is left out. The address of an endpoint; the gid is its 16 raw bytes.\<close>

record pingpong_dest =
  lid :: int
  qpn :: int
  psn :: int
  gid :: "byte list"

definition WC_BATCH :: int where "WC_BATCH = 10"
definition REFILL_RWR_THRES :: int where "REFILL_RWR_THRES = 10"
definition MTU :: int where "MTU = 4096"

definition PINGPONG_SEND_WRID :: nat where "PINGPONG_SEND_WRID = 1"
definition PINGPONG_WRITE_WRID :: nat where "PINGPONG_WRITE_WRID = 2"
definition PINGPONG_RECEIVE_WRID :: nat where "PINGPONG_RECEIVE_WRID = 3"

text \<open>
  The enumeration of path MTUs, whose values gcc keeps in an \<open>unsigned int\<close>: the -1 returned for
  any other size is 2^32 - 1.
\<close>

definition pp_mtu_to_enum :: "int \<Rightarrow> int" where
  "pp_mtu_to_enum mtu =
     (if mtu = 256 then 1 else if mtu = 512 then 2 else if mtu = 1024 then 3
      else if mtu = 2048 then 4 else if mtu = 4096 then 5 else 2 ^ 32 - 1)"

section \<open>Posting\<close>

text \<open>
  \<open>pp_post_recv\<close> posts \<open>rx_depth - routs\<close> receive requests, all into the one receive
  buffer. It returns 1 at the first failure, and then leaves \<open>routs\<close> as it was.
\<close>

fun pp_post_recv_loop ::
  "('w, 'z) verbs_scheme \<Rightarrow> pingpong_context \<Rightarrow> ibv_mr \<Rightarrow> nat \<Rightarrow> 'w pstate \<Rightarrow> int \<times> 'w pstate" where
  "pp_post_recv_loop V ctx mr 0 s = (0, s)"
| "pp_post_recv_loop V ctx mr (Suc n) s =
     (let sge = \<lparr>sge_addr = mr_control_receive_start_ptr ctx,
                 sge_length = of_int (mr_control_receive_size ctx),
                 sge_lkey = lkey mr\<rparr>;
          wr = \<lparr>recv_wr_id = PINGPONG_RECEIVE_WRID, recv_sge = sge\<rparr>;
          (r, s) = ibv_post_recv V (qp ctx) wr s
      in if r \<noteq> 0 then (1, s) else pp_post_recv_loop V ctx mr n s)"

definition pp_post_recv ::
  "('w, 'z) verbs_scheme \<Rightarrow> pingpong_context \<Rightarrow> 'w pstate \<Rightarrow>
   (int \<times> pingpong_context \<times> 'w pstate) option" where
  "pp_post_recv V ctx s =
     (if rx_depth ctx \<le> routs ctx then Some (0, ctx\<lparr>routs := rx_depth ctx\<rparr>, s)
      else do {
        mr \<leftarrow> mr_control_receive ctx;
        let (r, s) = pp_post_recv_loop V ctx mr (nat (rx_depth ctx - routs ctx)) s;
        if r \<noteq> 0 then Some (1, ctx, s)
        else Some (0, ctx\<lparr>routs := rx_depth ctx\<rparr>, s) })"

text \<open>The request that \<open>pp_post_send\<close> posts: the whole send buffer, inline when it fits.\<close>

definition control_send_wr :: "u32 \<Rightarrow> pingpong_context \<Rightarrow> ibv_mr \<Rightarrow> ibv_send_wr" where
  "control_send_wr limit ctx mr =
     \<lparr>send_wr_id = PINGPONG_SEND_WRID,
      send_sge = \<lparr>sge_addr = mr_control_send_start_ptr ctx,
                  sge_length = of_int (mr_control_send_size ctx),
                  sge_lkey = lkey mr\<rparr>,
      send_opcode = IBV_WR_SEND,
      send_flags = (if of_int (mr_control_send_size ctx) \<le> limit
                    then [IBV_SEND_SIGNALED, IBV_SEND_INLINE] else [IBV_SEND_SIGNALED]),
      rdma_rkey = 0, rdma_remote_addr = 0\<rparr>"

definition pp_post_send ::
  "('w, 'z) verbs_scheme \<Rightarrow> pingpong_context \<Rightarrow> 'w pstate \<Rightarrow> (int \<times> 'w pstate) option" where
  "pp_post_send V ctx s =
     do { mr \<leftarrow> mr_control_send ctx;
          let (r, s) = ibv_post_send V (qp ctx) (control_send_wr (max_inline s) ctx mr) s;
          if r \<noteq> 0 then Some (1, s) else Some (0, s) }"

text \<open>
  The request that \<open>pp_post_rdma\<close> posts. The size is a \<open>size_t\<close>, the length of the
  gather element a \<open>uint32_t\<close>.
\<close>

definition rdma_wr :: "pingpong_context \<Rightarrow> ibv_mr \<Rightarrow> ibv_wr_opcode \<Rightarrow> ibv_send_wr" where
  "rdma_wr ctx mr opcode =
     \<lparr>send_wr_id = PINGPONG_WRITE_WRID,
      send_sge = \<lparr>sge_addr = mr_rdma_start_ptr ctx,
                  sge_length = ucast (mr_rdma_size ctx),
                  sge_lkey = lkey mr\<rparr>,
      send_opcode = opcode,
      send_flags = [IBV_SEND_SIGNALED],
      rdma_rkey = ntohl (remote_buf_rkey ctx),
      rdma_remote_addr = bswap_64 (remote_buf_va ctx)\<rparr>"

definition pp_post_rdma ::
  "('w, 'z) verbs_scheme \<Rightarrow> pingpong_context \<Rightarrow> ibv_wr_opcode \<Rightarrow> 'w pstate \<Rightarrow>
   (int \<times> 'w pstate) option" where
  "pp_post_rdma V ctx opcode s =
     do { mr \<leftarrow> mr_rdma ctx; Some (ibv_post_send V (qp ctx) (rdma_wr ctx mr opcode) s) }"

section \<open>Polling\<close>

text \<open>The inner loop of \<open>poll_n_send_wc\<close>: until something or an error is polled.\<close>

partial_function (option) poll_send_some ::
  "('w, 'z) verbs_scheme \<Rightarrow> handle \<Rightarrow> int \<Rightarrow> 'w pstate \<Rightarrow> ((int \<times> ibv_wc list) \<times> 'w pstate) option" where
  "poll_send_some V cq num_poll s =
     (let ((ne, wc), s) = ibv_poll_cq V cq num_poll s
      in if ne < 0 \<or> 1 \<le> ne then Some ((ne, wc), s) else poll_send_some V cq num_poll s)"

text \<open>
  The completions of one poll, in order: \<open>Some (Inr k)\<close> counts them, \<open>Some (Inl 1)\<close> is
  the error return. \<open>None\<close> is a read of an entry the poll did not fill.
\<close>

fun check_send_wcs :: "nat \<Rightarrow> ibv_wc list \<Rightarrow> int \<Rightarrow> (int + int) option" where
  "check_send_wcs 0 wcs completed = Some (Inr completed)"
| "check_send_wcs (Suc n) [] completed = None"
| "check_send_wcs (Suc n) (wc # wcs) completed =
     (if wc_status wc \<noteq> IBV_WC_SUCCESS then Some (Inl 1)
      else if wc_opcode wc = IBV_WC_SEND \<or> wc_opcode wc = IBV_WC_RDMA_WRITE \<or>
              wc_opcode wc = IBV_WC_RDMA_READ
      then check_send_wcs n wcs (completed + 1)
      else Some (Inl 1))"

partial_function (option) poll_n_send_loop ::
  "('w, 'z) verbs_scheme \<Rightarrow> handle \<Rightarrow> int \<Rightarrow> int \<Rightarrow> 'w pstate \<Rightarrow> (int \<times> 'w pstate) option" where
  "poll_n_send_loop V cq n_complete completed s =
     (if completed < n_complete then
        do { ((ne, wc), s) \<leftarrow>
               poll_send_some V cq
                 (if WC_BATCH > n_complete - completed then n_complete - completed else WC_BATCH) s;
             if ne < 0 then Some (1, s)
             else do {
               r \<leftarrow> check_send_wcs (nat ne) wc completed;
               case r of
                 Inl rc \<Rightarrow> Some (rc, s)
               | Inr completed \<Rightarrow> poll_n_send_loop V cq n_complete completed s } }
      else Some (0, s))"

definition poll_n_send_wc ::
  "('w, 'z) verbs_scheme \<Rightarrow> pingpong_context \<Rightarrow> int \<Rightarrow> 'w pstate \<Rightarrow> (int \<times> 'w pstate) option" where
  "poll_n_send_wc V ctx n_complete s = poll_n_send_loop V (send_cq ctx) n_complete 0 s"

text \<open>The blocking loop of \<open>poll_next_receive_wc\<close>: it also spins on a negative result.\<close>

partial_function (option) poll_recv_blocking ::
  "('w, 'z) verbs_scheme \<Rightarrow> handle \<Rightarrow> 'w pstate \<Rightarrow> ((int \<times> ibv_wc list) \<times> 'w pstate) option" where
  "poll_recv_blocking V cq s =
     (let ((ne, wc), s) = ibv_poll_cq V cq 1 s
      in if ne < 1 then poll_recv_blocking V cq s else Some ((ne, wc), s))"

definition poll_next_receive_wc ::
  "('w, 'z) verbs_scheme \<Rightarrow> pingpong_context \<Rightarrow> int \<Rightarrow> 'w pstate \<Rightarrow>
   (int \<times> pingpong_context \<times> 'w pstate) option" where
  "poll_next_receive_wc V ctx blocking s =
     do { ((ne, wcs), s) \<leftarrow>
            (if blocking \<noteq> 0 then poll_recv_blocking V (receive_cq ctx) s
             else Some (ibv_poll_cq V (receive_cq ctx) 1 s));
          if blocking = 0 \<and> ne = 0 then Some (-2, ctx, s)
          else if ne < 0 then Some (-1, ctx, s)
          else case wcs of
            [] \<Rightarrow> None
          | wc # _ \<Rightarrow>
              if wc_status wc \<noteq> IBV_WC_SUCCESS then Some (-1, ctx, s)
              else if wc_opcode wc \<noteq> IBV_WC_RECV then Some (-1, ctx, s)
              else let ctx = ctx\<lparr>routs := routs ctx - 1\<rparr> in
                if routs ctx \<le> REFILL_RWR_THRES then
                  do { (r, ctx, s) \<leftarrow> pp_post_recv V ctx s;
                       if r \<noteq> 0 then Some (-1, ctx, s) else Some (0, ctx, s) }
                else Some (0, ctx, s) }"

section \<open>One signalled send\<close>

text \<open>
  A context whose send buffer is registered and large enough. Its buffers lie in a block
  of \<open>nic_work\<close>, so no theorem relies on the buffers staying the same across a call of
  the library.
\<close>

definition ctx_ok :: "'w nic_view \<Rightarrow> pingpong_context \<Rightarrow> 'w pstate \<Rightarrow> bool" where
  "ctx_ok W ctx s \<longleftrightarrow>
     (\<exists>mr acc bs.
        mr_control_send ctx = Some mr \<and> (mr, acc) \<in> nic_mrs W (world s) \<and>
        mr_addr mr = mr_control_send_start_ptr ctx \<and>
        unat (of_int (mr_control_send_size ctx) :: u32) \<le> unat (mr_length mr) \<and>
        bytes_from (mr_control_send_start_ptr ctx) (pmem s) = Some bs \<and>
        unat (of_int (mr_control_send_size ctx) :: u32) \<le> length bs \<and>
        0 \<le> mr_control_send_size ctx \<and> mr_control_send_size ctx < 2 ^ 31 \<and>
        pblk (mr_control_send_start_ptr ctx) \<in> nic_work W) \<and>
     nic_up W (world s)"

text \<open>What the peer receives: the bytes of the send buffer.\<close>

definition control_image :: "pingpong_context \<Rightarrow> mem \<Rightarrow> byte list option" where
  "control_image ctx m =
     load_bytes (mr_control_send_start_ptr ctx) (nat (mr_control_send_size ctx)) m"

lemma poll_send_some_polls_one:
  "polls_one V cq s wc s' \<Longrightarrow> poll_send_some V cq 1 s = Some ((1, [wc]), s')"
  by (induction rule: polls_one.induct) (subst poll_send_some.simps, simp)+

lemma poll_recv_blocking_polls_one:
  "polls_one V cq s wc s' \<Longrightarrow> poll_recv_blocking V cq s = Some ((1, [wc]), s')"
  by (induction rule: polls_one.induct) (subst poll_recv_blocking.simps, simp)+

lemma poll_n_send_wc_one:
  assumes "polls_one V (send_cq ctx) s wc s'" and "wc_status wc = IBV_WC_SUCCESS"
    and "wc_opcode wc \<in> {IBV_WC_SEND, IBV_WC_RDMA_WRITE, IBV_WC_RDMA_READ}"
  shows "poll_n_send_wc V ctx 1 s = Some (0, s')"
proof -
  have stop: "poll_n_send_loop V (send_cq ctx) 1 1 s' = Some (0, s')"
    by (subst poll_n_send_loop.simps) simp
  from assms have "poll_send_some V (send_cq ctx) 1 s = Some ((1, [wc]), s')"
    by (simp add: poll_send_some_polls_one)
  moreover from assms have "check_send_wcs (nat 1) [wc] 0 = Some (Inr 1)"
    by auto
  ultimately have "poll_n_send_loop V (send_cq ctx) 1 0 s = Some (0, s')"
    using stop by (subst poll_n_send_loop.simps) (simp add: WC_BATCH_def)
  then show ?thesis by (simp add: poll_n_send_wc_def)
qed

text \<open>
  \<open>pp_post_send\<close> followed by \<open>poll_n_send_wc(ctx, 1)\<close>, the pair that ends every
  handler: both succeed, and the adapter has sent exactly the send buffer.
\<close>

lemma post_send_and_poll:
  assumes "sends_complete V W (qp ctx) (send_cq ctx)" and "ctx_ok W ctx s"
    and img: "control_image ctx (pmem s) = Some img"
  shows "\<exists>s1 s2 wr. pp_post_send V ctx s = Some (0, s1) \<and> poll_n_send_wc V ctx 1 s1 = Some (0, s2) \<and>
     nic_call W s s2 \<and> nic_mrs W (world s2) = nic_mrs W (world s) \<and>
     nic_log W (world s2) = nic_log W (world s) @ [(wr, img)]"
proof -
  from assms(2) obtain mr acc where mr: "mr_control_send ctx = Some mr"
    and reg: "(mr, acc) \<in> nic_mrs W (world s)" "mr_addr mr = mr_control_send_start_ptr ctx"
      "unat (of_int (mr_control_send_size ctx) :: u32) \<le> unat (mr_length mr)"
    and size: "0 \<le> mr_control_send_size ctx" "mr_control_send_size ctx < 2 ^ 31"
    and up: "nic_up W (world s)"
    by (auto simp: ctx_ok_def)
  define wr where "wr = control_send_wr (max_inline s) ctx mr"
  have "unat (of_int (mr_control_send_size ctx) :: u32) = nat (mr_control_send_size ctx)"
    using size by (simp add: unat_eq_nat_uint uint_word_of_int_eq take_bit_int_eq_self)
  with img have "load_bytes (sge_addr (send_sge wr)) (unat (sge_length (send_sge wr))) (pmem s) = Some img"
    by (simp add: wr_def control_send_wr_def control_image_def)
  moreover have "send_opcode wr \<noteq> IBV_WR_RDMA_READ" "lkey mr = sge_lkey (send_sge wr)"
    "mr_addr mr = sge_addr (send_sge wr)"
    "unat (sge_length (send_sge wr)) \<le> unat (mr_length mr)" "send_opcode wr \<noteq> IBV_WR_RDMA_WRITE"
    using reg by (simp_all add: wr_def control_send_wr_def)
  ultimately obtain s1 s2 wc where
    post: "ibv_post_send V (qp ctx) wr s = (0, s1)" and "polls_one V (send_cq ctx) s1 wc s2"
    "wc_status wc = IBV_WC_SUCCESS" "wc_opcode wc = wc_opcode_of (send_opcode wr)"
    and fin: "nic_call W s s2" "nic_mrs W (world s2) = nic_mrs W (world s)"
      "nic_log W (world s2) = nic_log W (world s) @ [(wr, img)]"
    using assms(1) up reg(1) unfolding sends_complete_def by blast
  then have "poll_n_send_wc V ctx 1 s1 = Some (0, s2)"
    by (simp add: poll_n_send_wc_one wr_def control_send_wr_def)
  moreover have "pp_post_send V ctx s = Some (0, s1)"
    using post mr by (simp add: pp_post_send_def wr_def)
  ultimately show ?thesis using fin by blast
qed

section \<open>Exactly as many completions as asked for\<close>

text \<open>
  Documented: a poll returns at most as many entries as asked for, and fills that many.
\<close>

definition poll_bounded :: "('w, 'z) verbs_scheme \<Rightarrow> bool" where
  "poll_bounded V \<longleftrightarrow>
     (\<forall>cq k s ne wcs s'. 1 \<le> k \<and> ibv_poll_cq V cq k s = ((ne, wcs), s') \<longrightarrow>
        ne \<le> k \<and> (0 \<le> ne \<longrightarrow> length wcs = nat ne))"

text \<open>\<open>polled V cq s wcs s'\<close>: polls of the queue took out the completions \<open>wcs\<close>.\<close>

inductive polled ::
  "('w, 'z) verbs_scheme \<Rightarrow> handle \<Rightarrow> 'w pstate \<Rightarrow> ibv_wc list \<Rightarrow> 'w pstate \<Rightarrow> bool" for V cq where
  polled_none: "polled V cq s [] s"
| polled_more: "ibv_poll_cq V cq k s = ((ne, wcs), s1) \<Longrightarrow> 0 \<le> ne \<Longrightarrow> polled V cq s1 rest s' \<Longrightarrow>
    polled V cq s (wcs @ rest) s'"

definition send_done :: "ibv_wc \<Rightarrow> bool" where
  "send_done wc \<longleftrightarrow> wc_status wc = IBV_WC_SUCCESS \<and>
     wc_opcode wc \<in> {IBV_WC_SEND, IBV_WC_RDMA_WRITE, IBV_WC_RDMA_READ}"

lemma poll_boundedD:
  "poll_bounded V \<Longrightarrow> 1 \<le> k \<Longrightarrow> ibv_poll_cq V cq k s = ((ne, wcs), s') \<Longrightarrow>
   ne \<le> k \<and> (0 \<le> ne \<longrightarrow> length wcs = nat ne)"
  unfolding poll_bounded_def by blast

lemma check_send_wcs_ok:
  "check_send_wcs n wcs c = Some (Inr c') \<Longrightarrow>
   n \<le> length wcs \<and> (\<forall>wc \<in> set (take n wcs). send_done wc) \<and> c' = c + int n"
  by (induction n wcs c rule: check_send_wcs.induct) (auto simp: send_done_def split: if_splits)

lemma check_send_wcs_rc: "check_send_wcs n wcs c = Some (Inl rc) \<Longrightarrow> rc = 1"
  by (induction n wcs c rule: check_send_wcs.induct) (auto split: if_splits)

lemma poll_send_some_polled:
  assumes bounded: "poll_bounded V" and k: "1 \<le> k" and ret: "poll_send_some V cq k s = Some ((ne, wcs), s')"
  shows "ne \<noteq> 0 \<and> (0 < ne \<longrightarrow> ne \<le> k \<and> length wcs = nat ne \<and>
     (\<forall>rest t. polled V cq s' rest t \<longrightarrow> polled V cq s (wcs @ rest) t))"
proof -
  have "(case r of ((ne, wcs), s') \<Rightarrow> ne \<noteq> 0 \<and> (0 < ne \<longrightarrow> ne \<le> k \<and> length wcs = nat ne \<and>
     (\<forall>rest t. polled V cq s' rest t \<longrightarrow> polled V cq s (wcs @ rest) t)))"
    if "poll_send_some V cq k s = Some r" for r
  proof (rule poll_send_some.raw_induct
      [where P = "\<lambda>V' cq' k' s r. V' = V \<longrightarrow> cq' = cq \<longrightarrow> k' = k \<longrightarrow>
         (case r of ((ne, wcs), s') \<Rightarrow> ne \<noteq> 0 \<and> (0 < ne \<longrightarrow> ne \<le> k \<and> length wcs = nat ne \<and>
            (\<forall>rest t. polled V cq s' rest t \<longrightarrow> polled V cq s (wcs @ rest) t)))",
       OF _ that, rule_format, OF _ refl refl refl], goal_cases)
    case (1 f V' cq' k' s r)
    obtain ne wcs s1 where p: "ibv_poll_cq V cq k s = ((ne, wcs), s1)"
      by (metis prod.collapse)
    show ?case
    proof (cases "ne < 0 \<or> 1 \<le> ne")
      case True
      with 1 p have r: "r = ((ne, wcs), s1)" by simp
      with True poll_boundedD [OF bounded k p] show ?thesis
        by (auto intro: polled_more [OF p])
    next
      case False
      then have "ne = 0" by simp
      with poll_boundedD [OF bounded k p] have "wcs = []" by simp
      from \<open>ne = 0\<close> 1(2-) p have "f V cq k s1 = Some r" by simp
      from 1(1) [OF this] 1(3-) show ?thesis
        using polled_more [OF p] \<open>ne = 0\<close> \<open>wcs = []\<close> by (auto split: prod.splits)
    qed
  qed
  from this [OF ret] show ?thesis by simp
qed

lemma poll_n_send_loop_exact:
  assumes bounded: "poll_bounded V"
  shows "poll_n_send_loop V cq n c s = Some (rc, s') \<Longrightarrow> c \<le> n \<Longrightarrow> rc = 0 \<Longrightarrow>
    \<exists>wcs. polled V cq s wcs s' \<and> int (length wcs) = n - c \<and> (\<forall>wc \<in> set wcs. send_done wc)"
proof (induction "nat (n - c)" arbitrary: c s rule: less_induct)
  case less
  show ?case
  proof (cases "c < n")
    case False
    with less.prems show ?thesis by (subst (asm) poll_n_send_loop.simps) (auto intro: polled_none)
  next
    case True
    define k where "k = (if WC_BATCH > n - c then n - c else WC_BATCH)"
    have k: "k \<le> n - c" "1 \<le> k" using True by (simp_all add: k_def WC_BATCH_def)
    from less.prems(1) True obtain ne wcs s1 where
      some: "poll_send_some V cq k s = Some ((ne, wcs), s1)"
      and rest: "(if ne < 0 then Some (1, s1)
        else do { r \<leftarrow> check_send_wcs (nat ne) wcs c;
                  case r of Inl rc \<Rightarrow> Some (rc, s1)
                  | Inr c' \<Rightarrow> poll_n_send_loop V cq n c' s1 }) = Some (rc, s')"
      by (subst (asm) poll_n_send_loop.simps) (auto simp: k_def bind_eq_Some_conv)
    from poll_send_some_polled [OF bounded k(2) some] have "ne \<noteq> 0" by simp
    moreover from rest less.prems(3) have "\<not> ne < 0" by auto
    ultimately have ne: "0 < ne" by simp
    with poll_send_some_polled [OF bounded k(2) some]
    have len: "ne \<le> k" "length wcs = nat ne"
      and ext: "\<And>r t. polled V cq s1 r t \<Longrightarrow> polled V cq s (wcs @ r) t" by auto
    from rest ne obtain y where y: "check_send_wcs (nat ne) wcs c = Some y"
      and cont: "(case y of Inl rc \<Rightarrow> Some (rc, s1)
                  | Inr c' \<Rightarrow> poll_n_send_loop V cq n c' s1) = Some (rc, s')"
      by (auto simp: bind_eq_Some_conv)
    with less.prems(3) obtain c' where chk: "check_send_wcs (nat ne) wcs c = Some (Inr c')"
      and go: "poll_n_send_loop V cq n c' s1 = Some (rc, s')"
      by (cases y) (auto dest: check_send_wcs_rc)
    from check_send_wcs_ok [OF chk] len ne have c': "c' = c + ne" and ok: "\<forall>wc \<in> set wcs. send_done wc"
      by auto
    from less.hyps [OF _ go] c' ne len(1) k(1) less.prems(3) obtain more where
      "polled V cq s1 more s'" "int (length more) = n - c'" "\<forall>wc \<in> set more. send_done wc" by auto
    with ext ok c' len ne show ?thesis by (intro exI [of _ "wcs @ more"]) auto
  qed
qed

section \<open>The receive queue never runs dry\<close>

text \<open>One successful reception, as a step on the context and the process state.\<close>

definition receive_step ::
  "('w, 'z) verbs_scheme \<Rightarrow> int \<Rightarrow> pingpong_context \<times> 'w pstate \<Rightarrow>
   (pingpong_context \<times> 'w pstate) option" where
  "receive_step V blocking = (\<lambda>(ctx, s).
     do { (rc, ctx, s) \<leftarrow> poll_next_receive_wc V ctx blocking s;
          if rc = 0 then Some (ctx, s) else None })"

lemma pp_post_recv_0:
  "pp_post_recv V ctx s = Some (0, ctx', s') \<Longrightarrow> ctx' = ctx\<lparr>routs := rx_depth ctx\<rparr>"
  by (auto simp: pp_post_recv_def bind_eq_Some_conv Let_def case_prod_beta split: if_splits)

lemma poll_next_receive_wc_0:
  assumes "poll_next_receive_wc V ctx blocking s = Some (0, ctx', s')"
  shows "ctx' = (if routs ctx - 1 \<le> REFILL_RWR_THRES then ctx\<lparr>routs := rx_depth ctx\<rparr>
                 else ctx\<lparr>routs := routs ctx - 1\<rparr>)"
  using assms
  by (auto simp: poll_next_receive_wc_def bind_eq_Some_conv Let_def
      split: if_splits prod.splits list.splits dest!: pp_post_recv_0)

interpretation ib_credit: receive_credit
  "\<lambda>(ctx, s). routs ctx" "\<lambda>(ctx, s). rx_depth ctx" REFILL_RWR_THRES "receive_step V blocking"
  for V :: "('w, 'z) verbs_scheme" and blocking :: int
  by unfold_locales
    (auto simp: receive_step_def bind_eq_Some_conv split: if_splits dest!: poll_next_receive_wc_0)

text \<open>
  Documented, for a view \<open>posted\<close> of the receive requests that are outstanding, that is, posted
  and not yet given back with a completion: a successful post adds one, polling the receive
  completion of a message takes one away, an empty poll takes none.
\<close>

definition counts_receives :: "('w, 'z) verbs_scheme \<Rightarrow> handle \<Rightarrow> handle \<Rightarrow> ('w \<Rightarrow> nat) \<Rightarrow> bool" where
  "counts_receives V q cq posted \<longleftrightarrow>
     (\<forall>wr s s'. ibv_post_recv V q wr s = (0, s') \<longrightarrow> posted (world s') = Suc (posted (world s))) \<and>
     (\<forall>s ne wcs s'. ibv_poll_cq V cq 1 s = ((ne, wcs), s') \<and> ne < 1 \<longrightarrow> posted (world s') = posted (world s)) \<and>
     (\<forall>s ne wc wcs s'. ibv_poll_cq V cq 1 s = ((ne, wc # wcs), s') \<and> 1 \<le> ne \<and> wc_opcode wc = IBV_WC_RECV \<longrightarrow>
        posted (world s) = Suc (posted (world s')))"

lemma counts_receivesD:
  assumes "counts_receives V q cq posted"
  shows "ibv_post_recv V q wr s = (0, s') \<Longrightarrow> posted (world s') = Suc (posted (world s))"
    and "ibv_poll_cq V cq 1 s = ((ne, wcs), s') \<Longrightarrow> ne < 1 \<Longrightarrow> posted (world s') = posted (world s)"
    and "ibv_poll_cq V cq 1 s = ((ne, wc # wcs), s') \<Longrightarrow> 1 \<le> ne \<Longrightarrow> wc_opcode wc = IBV_WC_RECV \<Longrightarrow>
      posted (world s) = Suc (posted (world s'))"
  using assms unfolding counts_receives_def by blast+

lemma pp_post_recv_loop_posts:
  assumes "counts_receives V (qp ctx) cq posted"
  shows "pp_post_recv_loop V ctx mr n s = (0, s') \<Longrightarrow> posted (world s') = posted (world s) + n"
  by (induction n arbitrary: s)
    (auto simp: Let_def split: prod.splits if_splits dest!: counts_receivesD(1) [OF assms])

lemma pp_post_recv_posts:
  assumes counts: "counts_receives V (qp ctx) cq posted" and ret: "pp_post_recv V ctx s = Some (0, ctx', s')"
    and depth: "routs ctx \<le> rx_depth ctx" and exact: "int (posted (world s)) = routs ctx"
  shows "int (posted (world s')) = routs ctx'"
proof (cases "rx_depth ctx \<le> routs ctx")
  case True
  with ret depth exact show ?thesis by (auto simp: pp_post_recv_def)
next
  case False
  with ret obtain mr where "pp_post_recv_loop V ctx mr (nat (rx_depth ctx - routs ctx)) s = (0, s')"
    and "ctx' = ctx\<lparr>routs := rx_depth ctx\<rparr>"
    by (auto simp: pp_post_recv_def bind_eq_Some_conv Let_def case_prod_beta prod_eq_iff split: if_splits)
  with pp_post_recv_loop_posts [OF counts this(1)] False exact show ?thesis by simp
qed

lemma poll_recv_blocking_takes:
  assumes counts: "counts_receives V q cq posted"
    and ret: "poll_recv_blocking V cq s = Some ((ne, wc # wcs), s')" and wc: "wc_opcode wc = IBV_WC_RECV"
  shows "posted (world s) = Suc (posted (world s'))"
proof -
  have "fst (fst r) \<ge> 1 \<and> (\<forall>wc wcs. snd (fst r) = wc # wcs \<and> wc_opcode wc = IBV_WC_RECV \<longrightarrow>
      posted (world s) = Suc (posted (world (snd r))))"
    if "poll_recv_blocking V cq s = Some r" for r
  proof (rule poll_recv_blocking.raw_induct
      [where P = "\<lambda>V' cq' s r. V' = V \<longrightarrow> cq' = cq \<longrightarrow> fst (fst r) \<ge> 1 \<and>
         (\<forall>wc wcs. snd (fst r) = wc # wcs \<and> wc_opcode wc = IBV_WC_RECV \<longrightarrow>
            posted (world s) = Suc (posted (world (snd r))))",
       OF _ that, rule_format, OF _ refl refl], goal_cases)
    case (1 f V' cq' s r)
    obtain ne wcs s1 where p: "ibv_poll_cq V cq 1 s = ((ne, wcs), s1)" by (metis prod.collapse)
    show ?case
    proof (cases "ne < 1")
      case False
      with 1 p have "r = ((ne, wcs), s1)" by simp
      with False show ?thesis using counts_receivesD(3) [OF counts, of s ne] p by auto
    next
      case True
      with 1(2-) p have "f V cq s1 = Some r" by simp
      from 1(1) [OF this] 1(3-) counts_receivesD(2) [OF counts p True] show ?thesis by simp
    qed
  qed
  from this [OF ret] wc show ?thesis by simp
qed

lemma poll_next_receive_wc_posts:
  assumes counts: "counts_receives V (qp ctx) (receive_cq ctx) posted"
    and ret: "poll_next_receive_wc V ctx blocking s = Some (0, ctx', s')"
    and depth: "routs ctx \<le> rx_depth ctx" and exact: "int (posted (world s)) = routs ctx"
  shows "int (posted (world s')) = routs ctx'"
proof -
  let ?ctx = "ctx\<lparr>routs := routs ctx - 1\<rparr>"
  from ret obtain ne wc wcs s1 where
    poll: "(if blocking \<noteq> 0 then poll_recv_blocking V (receive_cq ctx) s
       else Some (ibv_poll_cq V (receive_cq ctx) 1 s)) = Some ((ne, wc # wcs), s1)"
    and op: "wc_opcode wc = IBV_WC_RECV" and ne: "blocking = 0 \<longrightarrow> 1 \<le> ne"
    and rest: "(if routs ?ctx \<le> REFILL_RWR_THRES then
        do { (r, ctx, s) \<leftarrow> pp_post_recv V ?ctx s1; if r \<noteq> 0 then Some (-1, ctx, s) else Some (0, ctx, s) }
      else Some (0, ?ctx, s1)) = Some (0 :: int, ctx', s')"
    by (auto simp: poll_next_receive_wc_def bind_eq_Some_conv Let_def split: if_splits list.splits)
  have "posted (world s) = Suc (posted (world s1))"
    using poll ne counts_receivesD(3) [OF counts _ _ op] poll_recv_blocking_takes [OF counts _ op]
    by (auto split: if_splits)
  then have exact1: "int (posted (world s1)) = routs ?ctx" using exact by simp
  show ?thesis
  proof (cases "routs ?ctx \<le> REFILL_RWR_THRES")
    case True
    with rest have "pp_post_recv V ?ctx s1 = Some (0, ctx', s')"
      by (auto simp: bind_eq_Some_conv split: if_splits)
    moreover have "counts_receives V (qp ?ctx) (receive_cq ctx) posted" using counts by simp
    moreover have "routs ?ctx \<le> rx_depth ?ctx" using depth by simp
    ultimately show ?thesis using pp_post_recv_posts exact1 by blast
  next
    case False
    with rest exact1 show ?thesis by auto
  qed
qed

text \<open>The count a context keeps is that of its outstanding requests.\<close>

definition credit_exact :: "('w, 'z) verbs_scheme \<Rightarrow> ('w \<Rightarrow> nat) \<Rightarrow> pingpong_context \<times> 'w pstate \<Rightarrow> bool" where
  "credit_exact V posted = (\<lambda>(ctx, s).
     counts_receives V (qp ctx) (receive_cq ctx) posted \<and> int (posted (world s)) = routs ctx)"

lemma receive_step_exact:
  assumes "receive_step V blocking (ctx, s) = Some (ctx', s')" and "routs ctx \<le> rx_depth ctx"
    and "credit_exact V posted (ctx, s)"
  shows "credit_exact V posted (ctx', s')"
proof -
  from assms(1) have ret: "poll_next_receive_wc V ctx blocking s = Some (0, ctx', s')"
    by (auto simp: receive_step_def bind_eq_Some_conv split: if_splits)
  from poll_next_receive_wc_0 [OF this] have "qp ctx' = qp ctx" "receive_cq ctx' = receive_cq ctx" by simp_all
  with poll_next_receive_wc_posts [OF _ ret assms(2)] assms(3) show ?thesis by (simp add: credit_exact_def)
qed

interpretation ib_posted: posted_credit
  "\<lambda>(ctx, s). routs ctx" "\<lambda>(ctx, s). rx_depth ctx" REFILL_RWR_THRES "receive_step V blocking"
  "credit_exact V posted"
  for V :: "('w, 'z) verbs_scheme" and blocking :: int and posted :: "'w \<Rightarrow> nat"
  by unfold_locales (auto intro: receive_step_exact)

end
