(* ===== verification/KV_Table.thy ===== *)
theory KV_Table
  imports Prelude
begin

text \<open>
  The interface between the server and its database: a table that is searched by a pointer
  to a key and written with a whole entry, and represents a finite map from key strings to
  entries. The provider promises that a search returns the map's entry and that a write
  updates the map at one key; the client facts below are what the request handlers need.
\<close>

locale kv_table =
  fixes inv :: "'t \<Rightarrow> bool"
    and room :: "'t \<Rightarrow> bool"
    and view :: "'t \<Rightarrow> 'k \<rightharpoonup> 'v"
    and key_at :: "'p \<Rightarrow> 't \<Rightarrow> 'k option"
    and key_of :: "'v \<Rightarrow> 'p"
    and search :: "'p \<Rightarrow> 't \<Rightarrow> 'v option option"
    and put :: "'v \<Rightarrow> 't \<Rightarrow> 't option"
    and merge :: "'v option \<Rightarrow> 'v \<Rightarrow> 'v"
  assumes search_view: "inv t \<Longrightarrow> key_at p t = Some k \<Longrightarrow> search p t = Some (view t k)"
    and put_view: "inv t \<Longrightarrow> room t \<Longrightarrow> key_at (key_of v) t = Some k \<Longrightarrow>
      \<exists>t'. put v t = Some t' \<and> inv t' \<and> view t' = (view t)(k \<mapsto> merge (view t k) v)"
    and put_key_at: "put v t = Some t' \<Longrightarrow> key_at p t' = key_at p t"
begin

lemma put_defined: "inv t \<Longrightarrow> room t \<Longrightarrow> key_at (key_of v) t = Some k \<Longrightarrow> put v t \<noteq> None"
  using put_view by fastforce

lemma put_SomeD:
  assumes "put v t = Some t'" and "inv t" and "room t" and "key_at (key_of v) t = Some k"
  shows "inv t'" and "view t' = (view t)(k \<mapsto> merge (view t k) v)"
  using put_view [OF assms(2-4)] assms(1) by auto

text \<open>A search for the key just written finds the entry written.\<close>

lemma search_put_same:
  assumes "inv t" and "room t" and "key_at (key_of v) t = Some k" and "put v t = Some t'"
    and "key_at p t = Some k"
  shows "search p t' = Some (Some (merge (view t k) v))"
  using put_SomeD [OF assms(4,1,2,3)] assms(5) put_key_at [OF assms(4), of p]
  by (simp add: search_view)

text \<open>A search for another key finds what it found before.\<close>

lemma search_put_other:
  assumes "inv t" and "room t" and "key_at (key_of v) t = Some k" and "put v t = Some t'"
    and "key_at p t = Some k'" and "k' \<noteq> k"
  shows "search p t' = search p t"
  using put_SomeD [OF assms(4,1,2,3)] assms(1,5,6) put_key_at [OF assms(4), of p]
  by (simp add: search_view)

text \<open>Writing never loses a key and adds at most the written one.\<close>

lemma dom_put:
  assumes "inv t" and "room t" and "key_at (key_of v) t = Some k" and "put v t = Some t'"
  shows "dom (view t') = insert k (dom (view t))"
  using put_SomeD [OF assms(4,1,2,3)] by simp

end

end
