(* ===== verification/Text_Format.thy ===== *)
theory Text_Format
  imports Prelude
begin

text \<open>
  The part of C's formatted input and output that the programs use, on lists of bytes:
  \<open>%d\<close>, \<open>%0Nx\<close> and \<open>%s\<close> of \<open>sprintf\<close>, and \<open>%x\<close>, \<open>%s\<close> and literal characters of
  \<open>sscanf\<close>. A failed conversion is \<open>None\<close>, and \<open>sscanf\<close> stops there.
\<close>

section \<open>Printing\<close>

definition hex_char :: "nat \<Rightarrow> byte" where
  "hex_char d = (if d < 10 then of_nat (48 + d) else of_nat (87 + d))"

fun hex_digits :: "nat \<Rightarrow> byte list" where
  "hex_digits n = (if n < 16 then [hex_char n] else hex_digits (n div 16) @ [hex_char (n mod 16)])"

declare hex_digits.simps [simp del]

definition sprintf_x :: "nat \<Rightarrow> nat \<Rightarrow> byte list" where
  "sprintf_x width n = (let ds = hex_digits n in replicate (width - length ds) 48 @ ds)"

fun dec_digits :: "nat \<Rightarrow> byte list" where
  "dec_digits n = (if n < 10 then [of_nat (48 + n)] else dec_digits (n div 10) @ [of_nat (48 + n mod 10)])"

declare dec_digits.simps [simp del]

definition sprintf_d :: "int \<Rightarrow> byte list" where
  "sprintf_d n = (if n < 0 then 45 # dec_digits (nat (- n)) else dec_digits (nat n))"

section \<open>Scanning\<close>

definition is_space :: "byte \<Rightarrow> bool" where
  "is_space c \<longleftrightarrow> c \<in> {9, 10, 11, 12, 13, 32}"

definition hex_val :: "byte \<Rightarrow> nat option" where
  "hex_val c =
     (let n = unat c in
      if 48 \<le> n \<and> n \<le> 57 then Some (n - 48)
      else if 97 \<le> n \<and> n \<le> 102 then Some (n - 87)
      else if 65 \<le> n \<and> n \<le> 70 then Some (n - 55)
      else None)"

definition is_hex :: "byte \<Rightarrow> bool" where
  "is_hex c \<longleftrightarrow> hex_val c \<noteq> None"

definition hex_value :: "byte list \<Rightarrow> nat" where
  "hex_value ds = foldl (\<lambda>n d. 16 * n + the (hex_val d)) 0 ds"

text \<open>
  The value of a scanned number as \<open>strtoul\<close> computes it: it saturates at \<open>ULONG_MAX\<close>, and
  a minus sign negates modulo \<open>2 ^ 64\<close>. The assignment to a 32-bit variable truncates.
\<close>

definition strtoul_value :: "bool \<Rightarrow> nat \<Rightarrow> u64" where
  "strtoul_value neg n =
     (if 2 ^ 64 \<le> n then - 1 else if neg then - of_nat n else of_nat n)"

fun scan_sign :: "byte list \<Rightarrow> bool \<times> byte list" where
  "scan_sign (c # r) = (if c = 45 then (True, r) else if c = 43 then (False, r) else (False, c # r))"
| "scan_sign [] = (False, [])"

fun scan_prefix :: "byte list \<Rightarrow> byte list" where
  "scan_prefix (a # b # r) = (if a = 48 \<and> (b = 120 \<or> b = 88) then r else a # b # r)"
| "scan_prefix r = r"

definition scan_x :: "byte list \<Rightarrow> (u64 \<times> byte list) option" where
  "scan_x bs =
     (let (neg, r) = scan_sign (dropWhile is_space bs);
          r = scan_prefix r;
          ds = takeWhile is_hex r
      in if ds = [] then None else Some (strtoul_value neg (hex_value ds), dropWhile is_hex r))"

fun scan_lit :: "byte \<Rightarrow> byte list \<Rightarrow> byte list option" where
  "scan_lit c [] = None"
| "scan_lit c (b # r) = (if b = c then Some r else None)"

definition scan_s :: "byte list \<Rightarrow> (byte list \<times> byte list) option" where
  "scan_s bs =
     (let r = dropWhile is_space bs; w = takeWhile (\<lambda>c. \<not> is_space c) r
      in if w = [] then None else Some (w, dropWhile (\<lambda>c. \<not> is_space c) r))"

section \<open>Round trip\<close>

lemma unat_hex_char: "d < 16 \<Longrightarrow> unat (hex_char d) = (if d < 10 then 48 + d else 87 + d)"
proof -
  assume d: "d < 16"
  have "unat (of_nat k :: byte) = k" if "k < 256" for k using that by (simp add: unat_of_nat)
  from this [of "48 + d"] this [of "87 + d"] d show ?thesis
    unfolding hex_char_def by (simp only: if_distrib [of unat] cong: if_cong)
qed

lemma hex_val_hex_char [simp]: "d < 16 \<Longrightarrow> hex_val (hex_char d) = Some d"
  by (simp add: hex_val_def unat_hex_char Let_def)

lemma is_hex_hex_char [simp]: "d < 16 \<Longrightarrow> is_hex (hex_char d)"
  by (simp add: is_hex_def)

lemma hex_char_eq_unat: "d < 16 \<Longrightarrow> hex_char d = c \<Longrightarrow> unat c = (if d < 10 then 48 + d else 87 + d)"
  using unat_hex_char by metis

lemma length_hex_digits: "0 < k \<Longrightarrow> n < 16 ^ k \<Longrightarrow> length (hex_digits n) \<le> k"
proof (induction k arbitrary: n)
  case 0
  then show ?case by simp
next
  case (Suc k)
  show ?case
  proof (cases "n < 16")
    case True
    then show ?thesis by (subst hex_digits.simps) simp
  next
    case False
    with Suc.prems have "0 < k" by (cases k) auto
    moreover from Suc.prems(2) have "n div 16 < 16 ^ k" by (simp add: less_mult_imp_div_less mult.commute)
    ultimately show ?thesis using False Suc.IH by (subst hex_digits.simps) simp
  qed
qed

lemma hex_digits_hex: "\<forall>c \<in> set (hex_digits n). \<exists>d < 16. c = hex_char d"
proof (induction n rule: hex_digits.induct)
  case (1 n)
  show ?case
  proof (cases "n < 16")
    case True
    then show ?thesis by (subst hex_digits.simps) auto
  next
    case False
    with 1 show ?thesis by (subst hex_digits.simps) (auto intro: exI [of _ "n mod 16"])
  qed
qed

lemma hex_value_snoc: "hex_value (ds @ [c]) = 16 * hex_value ds + the (hex_val c)"
  by (simp add: hex_value_def)

lemma hex_value_hex_digits [simp]: "hex_value (hex_digits n) = n"
proof (induction n rule: hex_digits.induct)
  case (1 n)
  show ?case
  proof (cases "n < 16")
    case True
    then show ?thesis by (subst hex_digits.simps) (simp add: hex_value_def)
  next
    case False
    with 1 show ?thesis by (subst hex_digits.simps) (simp add: hex_value_snoc)
  qed
qed

lemma hex_char_0: "hex_char 0 = 48"
  by (simp add: hex_char_def)

lemma hex_value_zeros: "hex_value (replicate k 48 @ ds) = hex_value ds"
proof (induction k)
  case (Suc k)
  have "hex_val 48 = Some 0" using hex_val_hex_char [of 0] by (simp add: hex_char_0)
  with Suc show ?case by (simp add: hex_value_def)
qed simp

lemma sprintf_x_hex: "\<forall>c \<in> set (sprintf_x w n). \<exists>d < 16. c = hex_char d"
  using hex_digits_hex [of n]
  by (auto simp: sprintf_x_def Let_def hex_char_0 [symmetric] intro: exI [of _ "0 :: nat"])

lemma hex_value_sprintf_x [simp]: "hex_value (sprintf_x w n) = n"
  by (simp add: sprintf_x_def Let_def hex_value_zeros)

lemma length_sprintf_x: "0 < w \<Longrightarrow> n < 16 ^ w \<Longrightarrow> length (sprintf_x w n) = w"
  using length_hex_digits [of w n] by (simp add: sprintf_x_def Let_def)

lemma sprintf_x_nonempty [simp]: "sprintf_x w n \<noteq> []"
  by (auto simp: sprintf_x_def Let_def hex_digits.simps [of n])

lemma hex_char_plain:
  assumes "d < 16"
  shows "\<not> is_space (hex_char d)" "hex_char d \<noteq> 45" "hex_char d \<noteq> 43" "hex_char d \<noteq> 120" "hex_char d \<noteq> 88"
    "hex_char d \<noteq> 0"
  using unat_hex_char [OF assms] assms by (auto simp: is_space_def split: if_splits)

text \<open>What \<open>%0Nx\<close> printed, followed by something that is no digit and no prefix, is read back.\<close>

definition stops_hex :: "byte list \<Rightarrow> bool" where
  "stops_hex rest \<longleftrightarrow> (\<forall>c r. rest = c # r \<longrightarrow> \<not> is_hex c \<and> c \<noteq> 120 \<and> c \<noteq> 88)"

lemma scan_x_hex_chars:
  assumes hex: "\<forall>c \<in> set ds. \<exists>d < 16. c = hex_char d" and ne: "ds \<noteq> []" and stop: "stops_hex rest"
    and small: "hex_value ds < 2 ^ 64"
  shows "scan_x (ds @ rest) = Some (of_nat (hex_value ds), rest)"
proof -
  obtain c0 ds' where ds: "ds = c0 # ds'" using ne by (cases ds) auto
  with hex obtain d0 where d0: "d0 < 16" "c0 = hex_char d0" by auto
  have space: "dropWhile is_space (ds @ rest) = ds @ rest"
    using ds d0 hex_char_plain(1) by simp
  have sign: "scan_sign (ds @ rest) = (False, ds @ rest)"
    using ds d0 hex_char_plain(2,3) by simp
  have prefix: "scan_prefix (ds @ rest) = ds @ rest"
  proof (cases "ds' @ rest")
    case Nil
    with ds show ?thesis by simp
  next
    case (Cons b r)
    have "b \<noteq> 120 \<and> b \<noteq> 88"
    proof (cases ds')
      case Nil
      with Cons stop show ?thesis by (simp add: stops_hex_def)
    next
      case (Cons c1 ds'')
      with hex ds obtain d1 where "d1 < 16" "c1 = hex_char d1" by auto
      with Cons \<open>ds' @ rest = b # r\<close> show ?thesis using hex_char_plain by auto
    qed
    with Cons ds show ?thesis by simp
  qed
  have all: "\<forall>c \<in> set ds. is_hex c" using hex by auto
  have "takeWhile is_hex rest = []" "dropWhile is_hex rest = rest"
    using stop by (cases rest; simp add: stops_hex_def)+
  with all have "takeWhile is_hex (ds @ rest) = ds" "dropWhile is_hex (ds @ rest) = rest"
    by (simp_all add: takeWhile_append dropWhile_append)
  with space sign prefix ne small show ?thesis
    by (simp add: scan_x_def strtoul_value_def)
qed

lemma scan_x_sprintf_x:
  "stops_hex rest \<Longrightarrow> n < 2 ^ 64 \<Longrightarrow> scan_x (sprintf_x w n @ rest) = Some (of_nat n, rest)"
  using scan_x_hex_chars [OF sprintf_x_hex [of w n], of rest] by simp

lemma stops_hex_Nil [simp]: "stops_hex []"
  by (simp add: stops_hex_def)

lemma stops_hex_colon [simp]: "stops_hex (58 # r)"
  by (simp add: stops_hex_def is_hex_def hex_val_def)

lemma scan_s_plain:
  assumes "w \<noteq> []" and "\<forall>c \<in> set w. \<not> is_space c"
  shows "scan_s w = Some (w, [])"
proof -
  have "dropWhile is_space w = w" using assms by (cases w) auto
  moreover have "takeWhile (\<lambda>c. \<not> is_space c) w = w" "dropWhile (\<lambda>c. \<not> is_space c) w = []"
    using assms(2) by (simp_all add: takeWhile_eq_all_conv dropWhile_eq_Nil_conv)
  ultimately show ?thesis using assms(1) by (simp add: scan_s_def Let_def del: takeWhile_eq_all_conv)
qed

end
