(* ===== verification/Dynamic_Array.thy ===== *)
theory Dynamic_Array
  imports IB_Functions KV_Table Text_Format
begin

text \<open>
  The server's database, LowLatencyProtocols/dynamic_array.h: a growing table of pairs
  (address of a key, address of a value), searched linearly with \<open>strcmp\<close>. Keys and
  values are C strings in the memory; the table itself is a list whose slots are \<open>None\<close>
  until they are written, so a read of an unused slot is visible. A pointer into the table
  (the result of \<open>get_KeyValueAddressPair\<close>) is an index. An allocation failure of the
  table itself is not modelled (the code does not check for it either).

  After the operations come the table's invariant \<open>array_ok\<close>, the finite map
  \<open>array_map\<close> it represents, and the proof that each operation acts on that map as a
  dictionary does.
\<close>

section \<open>The table and its operations\<close>

record KeyValueAddressPair =
  key_address :: ptr
  value_address :: ptr
  value_size :: size_t
  pair_mr_rdma :: "MRInfo option"

record KeyValueAddressArray =
  head :: "KeyValueAddressPair option list"
  used_length :: size_t
  total_length :: size_t

definition sizeof_pair :: size_t where "sizeof_pair = 32"

text \<open>\<open>kv_malloc == 1;\<close> is a comparison whose result is discarded.\<close>

definition set_kv_malloc :: "'w pstate \<Rightarrow> 'w pstate" where
  "set_kv_malloc s = (let unused = (kv_malloc s = 1) in s)"

text \<open>A table of the size that \<open>malloc\<close> or \<open>realloc\<close> is asked for.\<close>

definition resize_table :: "size_t \<Rightarrow> KeyValueAddressPair option list \<Rightarrow> KeyValueAddressPair option list" where
  "resize_table n tab =
     (let len = unat (sizeof_pair * n) div unat sizeof_pair
      in take len tab @ replicate (len - length tab) None)"

definition initialize_KeyValueAddressArray :: "int \<Rightarrow> KeyValueAddressArray" where
  "initialize_KeyValueAddressArray initial_size =
     \<lparr>head = resize_table (of_int initial_size) [], used_length = 0, total_length = of_int initial_size\<rparr>"

definition entry_at :: "KeyValueAddressArray \<Rightarrow> nat \<Rightarrow> KeyValueAddressPair option" where
  "entry_at A i = (if i < length (head A) then head A ! i else None)"

text \<open>
  The loop the operations share: the first index below \<open>bound\<close> whose key compares equal.
\<close>

function find_key :: "KeyValueAddressArray \<Rightarrow> ptr \<Rightarrow> mem \<Rightarrow> nat \<Rightarrow> nat \<Rightarrow> nat option option" where
  "find_key A key m bound i =
     (if i < bound then do {
        e \<leftarrow> entry_at A i;
        c \<leftarrow> c_strcmp (key_address e) key m;
        if c = 0 then Some (Some i) else find_key A key m bound (Suc i) }
      else Some None)"
  by pat_completeness auto
termination
  by (relation "measure (\<lambda>(A, key, m, bound, i). bound - i)") auto

declare find_key.simps [simp del]

definition insert_to_array ::
  "int \<Rightarrow> KeyValueAddressArray \<Rightarrow> KeyValueAddressPair \<Rightarrow> mem \<Rightarrow> (KeyValueAddressArray \<times> mem) option" where
  "insert_to_array kvm A e m = do {
     found \<leftarrow> find_key A (key_address e) m (unat (used_length A)) 0;
     case found of
       Some i \<Rightarrow> do {
         old \<leftarrow> entry_at A i;
         if key_address old \<noteq> key_address e then do {
           m \<leftarrow> (if kvm = 1 then do { m \<leftarrow> c_free (key_address e) m; c_free (value_address old) m }
                else Some m);
           Some (A\<lparr>head := (head A)[i := Some (e\<lparr>key_address := key_address old\<rparr>)]\<rparr>, m) }
         else Some (A\<lparr>head := (head A)[i := Some e]\<rparr>, m) }
     | None \<Rightarrow>
         let A = (if used_length A = total_length A
                  then A\<lparr>total_length := total_length A * 2,
                         head := resize_table (total_length A * 2) (head A)\<rparr>
                  else A)
         in if unat (used_length A) < length (head A)
            then Some (A\<lparr>head := (head A)[unat (used_length A) := Some e],
                         used_length := used_length A + 1\<rparr>, m)
            else None }"

definition delete_from_array ::
  "int \<Rightarrow> KeyValueAddressArray \<Rightarrow> ptr \<Rightarrow> mem \<Rightarrow> (KeyValueAddressArray \<times> mem) option" where
  "delete_from_array kvm A key m = do {
     found \<leftarrow> find_key A key m (unat (used_length A - 1)) 0;
     case found of
       None \<Rightarrow> Some (A, m)
     | Some i \<Rightarrow> do {
         e \<leftarrow> entry_at A i;
         m \<leftarrow> (if kvm = 1 then do { m \<leftarrow> c_free (key_address e) m; c_free (value_address e) m }
              else Some m);
         if unat (used_length A) < length (head A)
         then Some (A\<lparr>head := (head A)[i := head A ! unat (used_length A)],
                      used_length := used_length A - 1\<rparr>, m)
         else None } }"

fun free_entries :: "KeyValueAddressPair option list \<Rightarrow> mem \<Rightarrow> mem option" where
  "free_entries [] m = Some m"
| "free_entries (None # es) m = None"
| "free_entries (Some e # es) m = do {
     m \<leftarrow> c_free (key_address e) m;
     m \<leftarrow> c_free (value_address e) m;
     free_entries es m }"

definition free_array :: "int \<Rightarrow> KeyValueAddressArray \<Rightarrow> mem \<Rightarrow> mem option" where
  "free_array kvm A m =
     (if kvm = 1 then free_entries (take (unat (used_length A)) (head A)) m else Some m)"

text \<open>
  \<open>%-10.10s\<close>: at most ten bytes of a string are read, which then need not be terminated.
\<close>

definition print_s10 :: "ptr \<Rightarrow> mem \<Rightarrow> byte list option" where
  "print_s10 p m =
     do { bs \<leftarrow> bytes_from p m;
          s \<leftarrow> (if 10 \<le> length bs \<and> 0 \<notin> set (take 10 bs) then Some (take 10 bs) else cstr bs);
          Some (s @ replicate (10 - length s) 32) }"

definition pad_left :: "nat \<Rightarrow> byte list \<Rightarrow> byte list" where
  "pad_left n bs = replicate (n - length bs) 32 @ bs"

definition print_entry :: "nat \<Rightarrow> KeyValueAddressPair \<Rightarrow> mem \<Rightarrow> byte list option" where
  "print_entry i e m =
     do { k \<leftarrow> print_s10 (key_address e) m;
          v \<leftarrow> print_s10 (value_address e) m;
          Some (map of_char ''Entry: '' @ pad_left 2 (sprintf_d (int i)) @ map of_char '' Key: '' @ k @
                map of_char '' value: '' @ v @ map of_char '' value size: '' @
                pad_left 6 (dec_digits (unat (value_size e))) @ map of_char '' state: '' @
                pad_left 6 (map of_char (if pair_mr_rdma e = None then ''FREE'' else ''USING'')) @ [10]) }"

fun print_entries :: "KeyValueAddressArray \<Rightarrow> mem \<Rightarrow> nat list \<Rightarrow> byte list option" where
  "print_entries A m [] = Some []"
| "print_entries A m (i # is) =
     do { e \<leftarrow> entry_at A i; line \<leftarrow> print_entry i e m; rest \<leftarrow> print_entries A m is; Some (line @ rest) }"

text \<open>What \<open>print_dynamic_array\<close> writes to the standard output.\<close>

definition print_dynamic_array :: "KeyValueAddressArray \<Rightarrow> mem \<Rightarrow> byte list option" where
  "print_dynamic_array A m =
     do { lines \<leftarrow> print_entries A m [0..<unat (used_length A)];
          Some (replicate 77 61 @ [10] @ lines @ replicate 77 61 @ [10, 10]) }"

definition get_KeyValueAddressPair :: "KeyValueAddressArray \<Rightarrow> ptr \<Rightarrow> mem \<Rightarrow> nat option option" where
  "get_KeyValueAddressPair A key m = find_key A key m (unat (used_length A)) 0"

text \<open>A key that is not in the table is a null pointer here, and it is dereferenced.\<close>

definition deregister_rdma_mr ::
  "('w, 'z) verbs_scheme \<Rightarrow> KeyValueAddressArray \<Rightarrow> ptr \<Rightarrow> 'w pstate \<Rightarrow>
   (int \<times> KeyValueAddressArray \<times> 'w pstate) option" where
  "deregister_rdma_mr V A key s = do {
     get_kv_pair \<leftarrow> get_KeyValueAddressPair A key (pmem s);
     i \<leftarrow> get_kv_pair;
     e \<leftarrow> entry_at A i;
     case pair_mr_rdma e of
       None \<Rightarrow> Some (0, A, s)
     | Some info \<Rightarrow> do {
         mr \<leftarrow> info_mr info;
         let (r, s) = ibv_dereg_mr V mr s;
         if r \<noteq> 0 then Some (1, A, s)
         else Some (0, A\<lparr>head := (head A)[i := Some (e\<lparr>pair_mr_rdma := None\<rparr>)]\<rparr>, s) } }"

section \<open>The invariant and the map a table represents\<close>

definition key_string :: "mem \<Rightarrow> KeyValueAddressPair \<Rightarrow> byte list option" where
  "key_string m e = c_string (key_address e) m"

definition entry_list :: "KeyValueAddressArray \<Rightarrow> KeyValueAddressPair list" where
  "entry_list A = map the (take (unat (used_length A)) (head A))"

definition array_ok :: "KeyValueAddressArray \<Rightarrow> mem \<Rightarrow> bool" where
  "array_ok A m \<longleftrightarrow>
     unat (used_length A) \<le> unat (total_length A) \<and> length (head A) = unat (total_length A) \<and>
     0 < unat (total_length A) \<and>
     None \<notin> set (take (unat (used_length A)) (head A)) \<and>
     (\<forall>e \<in> set (entry_list A). key_string m e \<noteq> None) \<and>
     distinct (map (key_string m) (entry_list A))"

definition array_map :: "KeyValueAddressArray \<Rightarrow> mem \<Rightarrow> byte list \<rightharpoonup> KeyValueAddressPair" where
  "array_map A m = map_of (map (\<lambda>e. (the (key_string m e), e)) (entry_list A))"

section \<open>Searching\<close>

lemma array_okD:
  assumes "array_ok A m"
  shows "unat (used_length A) \<le> unat (total_length A)" "length (head A) = unat (total_length A)"
    "length (entry_list A) = unat (used_length A)"
    "distinct (map (\<lambda>e. the (key_string m e)) (entry_list A))"
    "\<And>i. i < unat (used_length A) \<Longrightarrow> head A ! i = Some (entry_list A ! i)"
    "\<And>i. i < unat (used_length A) \<Longrightarrow> entry_at A i = Some (entry_list A ! i)"
    "\<And>e. e \<in> set (entry_list A) \<Longrightarrow> key_string m e = Some (the (key_string m e))"
proof -
  note ok = assms [unfolded array_ok_def]
  show len: "unat (used_length A) \<le> unat (total_length A)" "length (head A) = unat (total_length A)"
    using ok by auto
  then show n: "length (entry_list A) = unat (used_length A)" by (simp add: entry_list_def)
  show keys: "\<And>e. e \<in> set (entry_list A) \<Longrightarrow> key_string m e = Some (the (key_string m e))"
    using ok by auto
  have "distinct (map (key_string m) (entry_list A))" using ok by simp
  moreover have "map (key_string m) (entry_list A) = map (Some \<circ> (\<lambda>e. the (key_string m e))) (entry_list A)"
    using keys by simp
  ultimately show "distinct (map (\<lambda>e. the (key_string m e)) (entry_list A))"
    by (metis distinct_map list.map_comp)
  fix i assume i: "i < unat (used_length A)"
  with len have "head A ! i \<in> set (take (unat (used_length A)) (head A))"
    by (force simp: in_set_conv_nth)
  with ok have "head A ! i \<noteq> None" by metis
  then show h: "head A ! i = Some (entry_list A ! i)"
    using i len by (auto simp: entry_list_def)
  then show "entry_at A i = Some (entry_list A ! i)"
    using i len by (simp add: entry_at_def)
qed

lemma find_key_below:
  assumes ok: "array_ok A m" and key: "c_string key m = Some k"
    and bound: "bound \<le> unat (used_length A)" and "i \<le> bound"
  shows "find_key A key m bound i =
    Some (map_option (\<lambda>j. i + j) (find_index (\<lambda>e. key_string m e = Some k) (drop i (take bound (entry_list A)))))"
  using assms(4)
proof (induction "bound - i" arbitrary: i)
  case 0
  with array_okD(3) [OF ok] bound show ?case by (simp add: find_key.simps)
next
  case (Suc d)
  define e where "e = entry_list A ! i"
  from Suc bound have i: "i < bound" "i < unat (used_length A)" by simp_all
  have e: "entry_at A i = Some e" "e \<in> set (entry_list A)"
    using i array_okD(3,6) [OF ok] by (simp_all add: e_def)
  then obtain k' where k': "c_string (key_address e) m = Some k'"
    using array_okD(7) [OF ok] by (auto simp: key_string_def)
  then obtain c where c: "c_strcmp (key_address e) key m = Some c" "c = 0 \<longleftrightarrow> k' = k"
    using c_strcmp_string key by blast
  have "drop i (take bound (entry_list A)) = take bound (entry_list A) ! i # drop (Suc i) (take bound (entry_list A))"
    using i array_okD(3) [OF ok] by (intro Cons_nth_drop_Suc [symmetric]) simp
  then have drop: "drop i (take bound (entry_list A)) = e # drop (Suc i) (take bound (entry_list A))"
    using i by (simp add: e_def)
  have "find_key A key m bound (Suc i) =
      Some (map_option (\<lambda>j. Suc i + j)
        (find_index (\<lambda>e. key_string m e = Some k) (drop (Suc i) (take bound (entry_list A)))))"
    using Suc i by (intro Suc.hyps(1)) auto
  with i e c k' show ?case
    by (simp add: find_key.simps [of A key m _ i] drop key_string_def option.map_comp comp_def)
qed

lemma find_key_from:
  assumes ok: "array_ok A m" and key: "c_string key m = Some k"
    and "i \<le> unat (used_length A)"
  shows "find_key A key m (unat (used_length A)) i =
    Some (map_option (\<lambda>j. i + j) (find_index (\<lambda>e. key_string m e = Some k) (drop i (entry_list A))))"
  using find_key_below [OF ok key order_refl assms(3)] array_okD(3) [OF ok] by simp

text \<open>What a search finds, in terms of the map.\<close>

lemma find_key_None:
  assumes "array_ok A m" and "c_string key m = Some k" and "array_map A m k = None"
  shows "find_key A key m (unat (used_length A)) 0 = Some None"
proof -
  from assms(3) have "k \<notin> (\<lambda>e. the (key_string m e)) ` set (entry_list A)"
    by (simp add: array_map_def map_of_map_None)
  then have "find_index (\<lambda>e. key_string m e = Some k) (entry_list A) = None"
    by (force simp: find_index_None_iff)
  with find_key_from [OF assms(1,2), of 0] show ?thesis by simp
qed

lemma find_key_Some:
  assumes ok: "array_ok A m" and "c_string key m = Some k" and "array_map A m k = Some e"
  shows "\<exists>i. find_key A key m (unat (used_length A)) 0 = Some (Some i) \<and>
    i < unat (used_length A) \<and> entry_at A i = Some e \<and> entry_list A ! i = e \<and> key_string m e = Some k"
proof -
  from assms(3) have e: "e \<in> set (entry_list A)" "the (key_string m e) = k"
    by (auto simp: array_map_def dest: map_of_map_Some)
  with array_okD(7) [OF ok] have ke: "key_string m e = Some k" by metis
  with e(1) have "find_index (\<lambda>e. key_string m e = Some k) (entry_list A) \<noteq> None"
    by (auto simp: find_index_None_iff)
  then obtain i where i: "find_index (\<lambda>e. key_string m e = Some k) (entry_list A) = Some i" by blast
  from find_index_Some [OF this]
  have lt: "i < length (entry_list A)" and ki: "key_string m (entry_list A ! i) = Some k" by auto
  from e(1) obtain j where j: "j < length (entry_list A)" "entry_list A ! j = e"
    by (auto simp: in_set_conv_nth)
  have "j = i"
    using distinct_map_nth_eq [OF array_okD(4) [OF ok] j(1) lt] j ki ke by simp
  with j i lt array_okD(3,6) [OF ok] ke find_key_from [OF assms(1,2), of 0] show ?thesis by simp
qed

lemma get_KeyValueAddressPair_map:
  assumes "array_ok A m" and "c_string key m = Some k"
  shows "\<exists>r. get_KeyValueAddressPair A key m = Some r \<and> Option.bind r (entry_at A) = array_map A m k \<and>
    (r = None \<longleftrightarrow> array_map A m k = None)"
proof (cases "array_map A m k")
  case None
  with find_key_None [OF assms] show ?thesis by (simp add: get_KeyValueAddressPair_def)
next
  case (Some e)
  with find_key_Some [OF assms] show ?thesis by (auto simp: get_KeyValueAddressPair_def)
qed

section \<open>Updating\<close>

text \<open>
  Two ways the list of entries changes: an entry is replaced by one with the same key
  string, or an entry with a new key is added at the end.
\<close>

lemma array_ok_replace:
  assumes ok: "array_ok A m" and i: "i < unat (used_length A)"
    and key: "key_string m e = key_string m (entry_list A ! i)"
  shows "array_ok (A\<lparr>head := (head A)[i := Some e]\<rparr>) m \<and>
    entry_list (A\<lparr>head := (head A)[i := Some e]\<rparr>) = (entry_list A)[i := e] \<and>
    array_map (A\<lparr>head := (head A)[i := Some e]\<rparr>) m = (array_map A m)(the (key_string m e) \<mapsto> e)"
proof -
  let ?A = "A\<lparr>head := (head A)[i := Some e]\<rparr>"
  note D = array_okD [OF ok]
  have len: "i < length (head A)" "i < length (entry_list A)" using i D(1-3) by simp_all
  have es: "entry_list ?A = (entry_list A)[i := e]"
    using len i by (simp add: entry_list_def take_update_swap map_update)
  have keys: "map (key_string m) (entry_list ?A) = map (key_string m) (entry_list A)"
    using es key len by (simp add: map_update_same)
  have mem: "entry_list A ! i \<in> set (entry_list A)" using len by simp
  with key D(7) have "key_string m e \<noteq> None" by (metis option.distinct(1))
  moreover have "set ((entry_list A)[i := e]) \<subseteq> insert e (set (entry_list A))"
    by (rule set_update_subset_insert)
  ultimately have "\<forall>e \<in> set (entry_list ?A). key_string m e \<noteq> None"
    using es D(7) by (metis (no_types, lifting) insertE option.distinct(1) subsetD)
  moreover have "None \<notin> set (take (unat (used_length ?A)) (head ?A))"
    using ok len by (auto simp: array_ok_def take_update_swap dest: set_update_subset_insert [THEN subsetD])
  ultimately have "array_ok ?A m"
    using ok keys D(2) by (simp add: array_ok_def)
  moreover have "array_map ?A m = (array_map A m)(the (key_string m e) \<mapsto> e)"
    using map_of_map_update [OF D(4) len(2)] key es by (simp add: array_map_def)
  ultimately show ?thesis using es by simp
qed

lemma array_ok_append:
  assumes ok: "array_ok A m" and key: "key_string m e = Some k" and new: "array_map A m k = None"
    and space: "unat (used_length A) < length (head A)" and bound: "unat (used_length A) + 1 < 2 ^ 64"
  shows "array_ok (A\<lparr>head := (head A)[unat (used_length A) := Some e], used_length := used_length A + 1\<rparr>) m \<and>
    array_map (A\<lparr>head := (head A)[unat (used_length A) := Some e], used_length := used_length A + 1\<rparr>) m =
      (array_map A m)(k \<mapsto> e)"
proof -
  let ?u = "unat (used_length A)"
  let ?A = "A\<lparr>head := (head A)[?u := Some e], used_length := used_length A + 1\<rparr>"
  note D = array_okD [OF ok]
  have u: "unat (used_length ?A) = Suc ?u" using bound by (simp add: unat_size_Suc)
  have tk: "take (unat (used_length ?A)) (head ?A) = take ?u (head A) @ [Some e]"
    using u space by (simp add: take_Suc_conv_app_nth)
  then have es: "entry_list ?A = entry_list A @ [e]" by (simp add: entry_list_def)
  have fresh: "k \<notin> (\<lambda>e. the (key_string m e)) ` set (entry_list A)"
    using new by (simp add: array_map_def map_of_map_None)
  then have "Some k \<notin> key_string m ` set (entry_list A)" by (metis image_iff option.sel)
  then have "array_ok ?A m"
    using ok key u space D(2) unfolding array_ok_def es tk by auto
  moreover have "array_map ?A m = (array_map A m)(k \<mapsto> e)"
    using map_of_map_append1 [of "\<lambda>e. the (key_string m e)" e "entry_list A"] fresh key es
    by (simp add: array_map_def)
  ultimately show ?thesis by simp
qed

text \<open>Doubling a full table changes none of its entries.\<close>

lemma array_ok_grow:
  assumes ok: "array_ok A m" and full: "used_length A = total_length A"
    and bound: "unat (total_length A) < 2 ^ 58"
  shows "array_ok (A\<lparr>total_length := total_length A * 2,
                     head := resize_table (total_length A * 2) (head A)\<rparr>) m \<and>
    entry_list (A\<lparr>total_length := total_length A * 2,
                  head := resize_table (total_length A * 2) (head A)\<rparr>) = entry_list A \<and>
    length (resize_table (total_length A * 2) (head A)) = 2 * unat (total_length A)"
proof -
  let ?n = "total_length A * 2"
  let ?A = "A\<lparr>total_length := ?n, head := resize_table ?n (head A)\<rparr>"
  note D = array_okD [OF ok]
  have n: "unat ?n = 2 * unat (total_length A)" using bound by (intro unat_size_double) simp
  then have "unat (sizeof_pair * ?n) = 64 * unat (total_length A)"
    using bound by (simp add: sizeof_pair_def unat_word_ariths)
  then have tab: "resize_table ?n (head A) = head A @ replicate (unat (total_length A)) None"
    using D(2) by (simp add: resize_table_def sizeof_pair_def)
  then have tk: "take (unat (used_length ?A)) (head ?A) = take (unat (used_length A)) (head A)"
    using D(1,2) by simp
  then have es: "entry_list ?A = entry_list A" by (simp add: entry_list_def)
  have "array_ok ?A m"
    using ok n tab D(1,2) full unfolding array_ok_def es tk by simp
  with es tab D(2) show ?thesis by simp
qed

text \<open>
  Insertion, with \<open>kv_malloc\<close> as the server runs it (not 1): the map gets the new entry
  under its key string, and an existing entry keeps its key address.
\<close>

definition stored_entry :: "KeyValueAddressPair option \<Rightarrow> KeyValueAddressPair \<Rightarrow> KeyValueAddressPair" where
  "stored_entry old e =
     (case old of None \<Rightarrow> e | Some o' \<Rightarrow> e\<lparr>key_address := key_address o'\<rparr>)"

lemma insert_to_array_map:
  assumes ok: "array_ok A m" and key: "c_string (key_address e) m = Some k"
    and kvm: "kvm \<noteq> 1" and bound: "unat (total_length A) < 2 ^ 58"
  shows "\<exists>A'. insert_to_array kvm A e m = Some (A', m) \<and> array_ok A' m \<and>
    array_map A' m = (array_map A m)(k \<mapsto> stored_entry (array_map A m k) e)"
proof (cases "array_map A m k")
  case (Some old)
  from find_key_Some [OF ok key Some] obtain i where
    f: "find_key A (key_address e) m (unat (used_length A)) 0 = Some (Some i)"
    and i: "i < unat (used_length A)" "entry_at A i = Some old" "entry_list A ! i = old"
      "key_string m old = Some k" by blast
  let ?e = "e\<lparr>key_address := key_address old\<rparr>"
  let ?A = "A\<lparr>head := (head A)[i := Some ?e]\<rparr>"
  have "?e = e" if "key_address old = key_address e" using that by (metis KeyValueAddressPair.surjective KeyValueAddressPair.update_convs(1))
  with f i kvm have "insert_to_array kvm A e m = Some (?A, m)"
    by (auto simp: insert_to_array_def)
  moreover have "key_string m ?e = key_string m (entry_list A ! i)"
    using i by (simp add: key_string_def)
  ultimately show ?thesis
    using array_ok_replace [OF ok i(1), of ?e] i Some by (auto simp: stored_entry_def)
next
  case None
  note f = find_key_None [OF ok key None]
  define G where "G = (if used_length A = total_length A
    then A\<lparr>total_length := total_length A * 2, head := resize_table (total_length A * 2) (head A)\<rparr> else A)"
  have "unat (used_length A) < unat (total_length A)" if "used_length A \<noteq> total_length A"
    using that array_okD(1) [OF ok] by (simp add: word_unat_eq_iff)
  moreover have "0 < unat (total_length A)" using ok by (simp add: array_ok_def)
  ultimately have G: "array_ok G m" "entry_list G = entry_list A" "used_length G = used_length A"
      "unat (used_length G) < length (head G)"
    using array_ok_grow [OF ok _ bound] ok array_okD(1,2) [OF ok] by (auto simp: G_def)
  then have same: "array_map G m = array_map A m" by (simp add: array_map_def)
  have "unat (used_length G) + 1 < 2 ^ 64" using G(3) bound array_okD(1) [OF ok] by simp
  from array_ok_append [OF G(1) _ _ G(4) this, of e k] same None key
  have "array_ok (G\<lparr>head := (head G)[unat (used_length G) := Some e], used_length := used_length G + 1\<rparr>) m"
    "array_map (G\<lparr>head := (head G)[unat (used_length G) := Some e], used_length := used_length G + 1\<rparr>) m =
      (array_map A m)(k \<mapsto> e)"
    by (simp_all add: key_string_def)
  moreover have "insert_to_array kvm A e m =
      Some (G\<lparr>head := (head G)[unat (used_length G) := Some e], used_length := used_length G + 1\<rparr>, m)"
    using f G by (simp add: insert_to_array_def G_def [symmetric] Let_def)
  ultimately show ?thesis using None by (simp add: stored_entry_def)
qed

section \<open>The table provides the dictionary interface\<close>

text \<open>The table together with the memory that holds its strings.\<close>

definition table_search :: "ptr \<Rightarrow> KeyValueAddressArray \<times> mem \<Rightarrow> KeyValueAddressPair option option" where
  "table_search key = (\<lambda>(A, m).
     do { r \<leftarrow> get_KeyValueAddressPair A key m; Some (Option.bind r (entry_at A)) })"

definition table_put ::
  "int \<Rightarrow> KeyValueAddressPair \<Rightarrow> KeyValueAddressArray \<times> mem \<Rightarrow> (KeyValueAddressArray \<times> mem) option" where
  "table_put kvm e = (\<lambda>(A, m). if kvm = 1 then None else insert_to_array kvm A e m)"

lemma insert_to_array_mem: "kvm \<noteq> 1 \<Longrightarrow> insert_to_array kvm A e m = Some (A', m') \<Longrightarrow> m' = m"
  by (auto simp: insert_to_array_def bind_eq_Some_conv Let_def split: option.splits if_splits)

interpretation table: kv_table
  "\<lambda>(A, m). array_ok A m" "\<lambda>(A, m). unat (total_length A) < 2 ^ 58 \<and> kvm \<noteq> 1"
  "\<lambda>(A, m). array_map A m" "\<lambda>p (A, m). c_string p m" key_address table_search "table_put kvm"
  stored_entry
  for kvm :: int
proof (unfold_locales, goal_cases)
  case (1 t p k)
  then show ?case
    by (cases t) (auto simp: table_search_def dest!: get_KeyValueAddressPair_map)
next
  case (2 t v k)
  then show ?case
    using insert_to_array_map [of "fst t" "snd t" v k kvm] by (cases t) (auto simp: table_put_def)
next
  case (3 v t t' p)
  then show ?case
    by (cases t; cases t') (auto simp: table_put_def split: if_splits dest: insert_to_array_mem)
qed

section \<open>Frames\<close>

text \<open>The table's meaning depends on the blocks of its keys only.\<close>

lemma key_string_cong:
  "blocks m' (pblk (key_address e)) = blocks m (pblk (key_address e)) \<Longrightarrow> key_string m' e = key_string m e"
  unfolding key_string_def by (rule c_string_cong)

lemma array_cong:
  assumes "\<And>e. e \<in> set (entry_list A) \<Longrightarrow> key_string m' e = key_string m e"
  shows "array_ok A m' = array_ok A m" and "array_map A m' = array_map A m"
proof -
  have eq: "map (key_string m') (entry_list A) = map (key_string m) (entry_list A)"
    using assms by simp
  show "array_ok A m' = array_ok A m"
    unfolding array_ok_def eq by (simp add: assms)
  show "array_map A m' = array_map A m"
    unfolding array_map_def by (rule arg_cong [where f = map_of]) (simp add: assms)
qed

section \<open>Deregistration\<close>

lemma deregister_rdma_mr_map:
  assumes ok: "array_ok A (pmem s)" and key: "c_string key (pmem s) = Some k"
    and e: "array_map A (pmem s) k = Some e"
    and info: "pair_mr_rdma e = Some info" "info_mr info = Some mr"
    and dereg: "ibv_dereg_mr V mr s = (0, s')"
  shows "\<exists>A'. deregister_rdma_mr V A key s = Some (0, A', s') \<and> array_ok A' (pmem s) \<and>
    array_map A' (pmem s) = (array_map A (pmem s))(k \<mapsto> e\<lparr>pair_mr_rdma := None\<rparr>) \<and>
    used_length A' = used_length A \<and> total_length A' = total_length A \<and>
    set (entry_list A') \<subseteq> insert (e\<lparr>pair_mr_rdma := None\<rparr>) (set (entry_list A))"
proof -
  from find_key_Some [OF ok key e] obtain i where
    f: "find_key A key (pmem s) (unat (used_length A)) 0 = Some (Some i)"
    and i: "i < unat (used_length A)" "entry_at A i = Some e" "entry_list A ! i = e"
      "key_string (pmem s) e = Some k" by blast
  let ?e = "e\<lparr>pair_mr_rdma := None\<rparr>"
  have k: "key_string (pmem s) ?e = key_string (pmem s) (entry_list A ! i)"
    using i by (simp add: key_string_def)
  from array_ok_replace [OF ok i(1) k] i(3,4) k show ?thesis
    using f i info dereg set_update_subset_insert [of "entry_list A" i ?e]
    by (auto simp: deregister_rdma_mr_def get_KeyValueAddressPair_def)
qed

text \<open>A key without a registered region is left alone; a key not in the table is a crash.\<close>

lemma deregister_rdma_mr_idle:
  assumes ok: "array_ok A (pmem s)" and key: "c_string key (pmem s) = Some k"
    and e: "array_map A (pmem s) k = Some e" and "pair_mr_rdma e = None"
  shows "deregister_rdma_mr V A key s = Some (0, A, s)"
  using find_key_Some [OF ok key e] assms(4)
  by (auto simp: deregister_rdma_mr_def get_KeyValueAddressPair_def)

lemma deregister_rdma_mr_unknown:
  assumes "array_ok A (pmem s)" and "c_string key (pmem s) = Some k" and "array_map A (pmem s) k = None"
  shows "deregister_rdma_mr V A key s = None"
  using find_key_None [OF assms] by (simp add: deregister_rdma_mr_def get_KeyValueAddressPair_def)

section \<open>The size of the table\<close>

text \<open>A fresh table is empty, and the number of used slots is the number of keys.\<close>

lemma initialize_ok:
  assumes "0 < n" and "n < 2 ^ 31"
  shows "array_ok (initialize_KeyValueAddressArray n) m"
    and "array_map (initialize_KeyValueAddressArray n) m = Map.empty"
    and "unat (total_length (initialize_KeyValueAddressArray n)) = nat n"
    and "used_length (initialize_KeyValueAddressArray n) = 0"
proof -
  have n: "unat (of_int n :: size_t) = nat n"
    using assms by (simp add: unat_eq_nat_uint uint_word_of_int_eq take_bit_int_eq_self)
  moreover have "unat (sizeof_pair * of_int n) = 32 * nat n"
    using assms n by (simp add: sizeof_pair_def unat_word_ariths)
  ultimately have "length (resize_table (of_int n) []) = nat n"
    by (simp add: resize_table_def sizeof_pair_def)
  with n assms show "array_ok (initialize_KeyValueAddressArray n) m"
    "array_map (initialize_KeyValueAddressArray n) m = Map.empty"
    "unat (total_length (initialize_KeyValueAddressArray n)) = nat n"
    "used_length (initialize_KeyValueAddressArray n) = 0"
    by (simp_all add: array_ok_def initialize_KeyValueAddressArray_def array_map_def entry_list_def)
qed

lemma card_dom_array_map:
  assumes "array_ok A m"
  shows "card (dom (array_map A m)) = unat (used_length A)"
proof -
  have "dom (array_map A m) = set (map (\<lambda>e. the (key_string m e)) (entry_list A))"
    by (simp add: array_map_def dom_map_of_conv_image_fst image_image)
  then show ?thesis
    using distinct_card [OF array_okD(4) [OF assms]] array_okD(3) [OF assms] by simp
qed

text \<open>The table grows only when it is full, and then doubles.\<close>

lemma insert_to_array_total:
  assumes "insert_to_array kvm A e m = Some (A', m')" and "unat (total_length A) < 2 ^ 58"
  shows "unat (total_length A') \<le> max (unat (total_length A)) (2 * unat (used_length A))"
proof -
  define t where "t = (if used_length A = total_length A then total_length A * 2 else total_length A)"
  define G where "G = (if used_length A = total_length A
    then A\<lparr>total_length := total_length A * 2, head := resize_table (total_length A * 2) (head A)\<rparr> else A)"
  have G: "total_length G = t" by (simp add: G_def t_def)
  from assms(1) obtain found where
    f: "find_key A (key_address e) m (unat (used_length A)) 0 = Some found"
    by (auto simp: insert_to_array_def bind_eq_Some_conv)
  have "total_length A' = total_length A \<or> total_length A' = t"
  proof (cases found)
    case None
    with assms(1) f G show ?thesis
      by (simp add: insert_to_array_def G_def [symmetric] Let_def split: if_split_asm) auto
  next
    case (Some i)
    with assms(1) f show ?thesis
      by (simp add: insert_to_array_def bind_eq_Some_conv split: if_split_asm) auto
  qed
  moreover have "unat t \<le> max (unat (total_length A)) (2 * unat (used_length A))"
  proof (cases "used_length A = total_length A")
    case True
    then have "unat t = 2 * unat (total_length A)"
      unfolding t_def using assms(2) by (simp only: if_P) (intro unat_size_double, simp)
    with True show ?thesis by simp
  qed (simp add: t_def)
  ultimately show ?thesis by auto
qed

text \<open>What one operation may do to the two lengths.\<close>

definition table_grows :: "KeyValueAddressArray \<Rightarrow> KeyValueAddressArray \<Rightarrow> bool" where
  "table_grows A A' \<longleftrightarrow> unat (used_length A') \<le> Suc (unat (used_length A)) \<and>
     unat (total_length A') \<le> max (unat (total_length A)) (2 * unat (used_length A))"

lemma insert_to_array_used:
  assumes "insert_to_array kvm A e m = Some (A', m')"
  shows "used_length A' = used_length A \<or> used_length A' = used_length A + 1"
proof -
  define G where "G = (if used_length A = total_length A
    then A\<lparr>total_length := total_length A * 2, head := resize_table (total_length A * 2) (head A)\<rparr> else A)"
  have G: "used_length G = used_length A" by (simp add: G_def)
  from assms obtain found where
    f: "find_key A (key_address e) m (unat (used_length A)) 0 = Some found"
    by (auto simp: insert_to_array_def bind_eq_Some_conv)
  show ?thesis
  proof (cases found)
    case None
    with assms f G show ?thesis
      by (simp add: insert_to_array_def G_def [symmetric] Let_def split: if_split_asm) auto
  next
    case (Some i)
    with assms f show ?thesis
      by (simp add: insert_to_array_def bind_eq_Some_conv split: if_split_asm) auto
  qed
qed

lemma insert_to_array_grows:
  assumes "insert_to_array kvm A e m = Some (A', m')" and "unat (total_length A) < 2 ^ 58"
  shows "table_grows A A'"
proof -
  have "unat (used_length A + 1) \<le> Suc (unat (used_length A))"
    by (simp add: unat_word_ariths)
  with insert_to_array_used [OF assms(1)] insert_to_array_total [OF assms] show ?thesis
    by (auto simp: table_grows_def)
qed

lemma deregister_rdma_mr_grows:
  "deregister_rdma_mr V A key s = Some (r, A', s') \<Longrightarrow> table_grows A A'"
  unfolding table_grows_def
  by (auto simp: deregister_rdma_mr_def bind_eq_Some_conv Let_def case_prod_beta
      split: if_split_asm option.split_asm)

section \<open>Printing\<close>

text \<open>Printing is defined when the values have ten bytes or end within their object.\<close>

definition printable :: "byte list \<Rightarrow> bool" where
  "printable bs \<longleftrightarrow> 10 \<le> length bs \<or> 0 \<in> set bs"

lemma print_s10_defined: "bytes_from p m = Some bs \<Longrightarrow> printable bs \<Longrightarrow> print_s10 p m \<noteq> None"
  using cstr_None_iff [of bs] set_take_subset [of 10 bs]
  by (auto simp: print_s10_def printable_def bind_eq_Some_conv)

lemma print_entries_defined:
  assumes "\<forall>i \<in> set is. \<exists>e. entry_at A i = Some e \<and> print_entry i e m \<noteq> None"
  shows "print_entries A m is \<noteq> None"
  using assms by (induction "is") auto

lemma print_dynamic_array_defined:
  assumes ok: "array_ok A m"
    and vals: "\<And>e. e \<in> set (entry_list A) \<Longrightarrow> \<exists>bs. bytes_from (value_address e) m = Some bs \<and> printable bs"
  shows "print_dynamic_array A m \<noteq> None"
proof -
  have "\<exists>e. entry_at A i = Some e \<and> print_entry i e m \<noteq> None" if i: "i < unat (used_length A)" for i
  proof -
    let ?e = "entry_list A ! i"
    have e: "?e \<in> set (entry_list A)" "entry_at A i = Some ?e"
      using array_okD(3,6) [OF ok] i by simp_all
    have "key_string m ?e \<noteq> None" using ok e(1) by (simp add: array_ok_def)
    then obtain ks where "bytes_from (key_address ?e) m = Some ks" "cstr ks \<noteq> None"
      by (auto simp: key_string_def c_string_def bind_eq_Some_conv)
    moreover from this(2) have "printable ks" using cstr_None_iff [of ks] by (simp add: printable_def)
    ultimately have "print_s10 (key_address ?e) m \<noteq> None" by (intro print_s10_defined)
    moreover have "print_s10 (value_address ?e) m \<noteq> None" using vals [OF e(1)] print_s10_defined by blast
    ultimately show ?thesis using e(2) by (auto simp: print_entry_def)
  qed
  with print_entries_defined [of "[0..<unat (used_length A)]" A m] show ?thesis
    by (auto simp: print_dynamic_array_def)
qed

end
