(* ===== verification/KV_Protocol.thy ===== *)
theory KV_Protocol
  imports Dynamic_Array
begin

text \<open>
  The message protocol of LowLatencyProtocols/kv_api.h: the operations, the handle, the
  writing of a control message into the send buffer and the splitting of a received one
  into its fields. \<open>message\<close> is the specification of what goes over the wire; the lemmas
  show that \<open>set_control_message\<close> writes exactly that, and that
  \<open>decode_control_message_buffer\<close> finds the fields again.
\<close>

section \<open>Operations and the handle\<close>

definition CONTROL_MESSAGE_BUFFER_SIZE :: nat where "CONTROL_MESSAGE_BUFFER_SIZE = 4096"
definition TX_DEPTH :: int where "TX_DEPTH = 100"
definition RX_DEPTH :: int where "RX_DEPTH = 100"
definition NUM_CLIENTS :: int where "NUM_CLIENTS = 1"

datatype Operation =
    SHUT_DOWN_SERVER
  | CLIENT_KV_SET_EAGER | CLIENT_KV_SET_RENDEZVOUS | SERVER_KV_SET_RENDEZVOUS
  | CLIENT_KV_GET | SERVER_KV_GET_EAGER | SERVER_KV_GET_RENDEZVOUS
  | SERVER_KV_GET_KEY_NOT_FOUND | SERVER_IN_PROGRESS
  | CLIENT_KV_GET_RENDEZVOUS_FIN | CLIENT_KV_SET_RENDEZVOUS_FIN
  | SERVER_KV_SET_SUCCESSFUL | SERVER_KV_GET_SUCCESSFUL

text \<open>The value of the enumeration as the 32-bit integer the message carries.\<close>

fun op_code :: "Operation \<Rightarrow> u32" where
  "op_code SHUT_DOWN_SERVER = -1"
| "op_code CLIENT_KV_SET_EAGER = 0"
| "op_code CLIENT_KV_SET_RENDEZVOUS = 1"
| "op_code SERVER_KV_SET_RENDEZVOUS = 2"
| "op_code CLIENT_KV_GET = 3"
| "op_code SERVER_KV_GET_EAGER = 4"
| "op_code SERVER_KV_GET_RENDEZVOUS = 5"
| "op_code SERVER_KV_GET_KEY_NOT_FOUND = 6"
| "op_code SERVER_IN_PROGRESS = 7"
| "op_code CLIENT_KV_GET_RENDEZVOUS_FIN = 8"
| "op_code CLIENT_KV_SET_RENDEZVOUS_FIN = 9"
| "op_code SERVER_KV_SET_SUCCESSFUL = 10"
| "op_code SERVER_KV_GET_SUCCESSFUL = 11"

lemma op_code_inject [simp]: "op_code x = op_code y \<longleftrightarrow> x = y"
  by (cases x; cases y) simp_all

text \<open>Reading an operation back from its code.\<close>

lemma op_code_iff [simp]:
  "op_code x = 4 \<longleftrightarrow> x = SERVER_KV_GET_EAGER" "op_code x = 5 \<longleftrightarrow> x = SERVER_KV_GET_RENDEZVOUS"
  "op_code x = 7 \<longleftrightarrow> x = SERVER_IN_PROGRESS" "op_code x = 10 \<longleftrightarrow> x = SERVER_KV_SET_SUCCESSFUL"
  "op_code x = 11 \<longleftrightarrow> x = SERVER_KV_GET_SUCCESSFUL"
  by (cases x; simp)+

lemma sint_op_code_inject [simp]: "sint (op_code x) = sint (op_code y) \<longleftrightarrow> x = y"
proof
  assume "sint (op_code x) = sint (op_code y)"
  then have "(of_int (sint (op_code x)) :: u32) = of_int (sint (op_code y))"
    by (rule arg_cong)
  then show "x = y" by simp
qed simp

text \<open>Operations are ordered as the enumeration orders them.\<close>

instantiation Operation :: linorder
begin

definition less_eq_Operation :: "Operation \<Rightarrow> Operation \<Rightarrow> bool" where
  "less_eq_Operation x y \<longleftrightarrow> sint (op_code x) \<le> sint (op_code y)"

definition less_Operation :: "Operation \<Rightarrow> Operation \<Rightarrow> bool" where
  "less_Operation x y \<longleftrightarrow> sint (op_code x) < sint (op_code y)"

instance
  by standard (auto simp: less_eq_Operation_def less_Operation_def dest: order_antisym)

end

text \<open>
  The handle. The connection contexts are objects the handle points to: the array holds
  them, and \<open>ctx_index\<close> says which of them the pointer \<open>ctx\<close> refers to.
\<close>

record KVHandle =
  dev_list :: "handle list"
  ib_dev :: handle
  ctx_index :: nat
  my_dest :: pingpong_dest
  rem_dest :: "pingpong_dest option"
  ib_devname :: "byte list option"
  port :: int
  ib_port :: int
  mtu :: int
  handle_rx_depth :: int
  handle_tx_depth :: int
  use_event :: int
  mr_control_size :: int
  sl :: int
  gidx :: int
  num_remote_host :: int
  array_ctx_ptr :: "pingpong_context list"
  array_remote_dest :: "pingpong_dest option list"

definition handle_ctx :: "KVHandle \<Rightarrow> pingpong_context option" where
  "handle_ctx h = (if ctx_index h < length (array_ctx_ptr h) then Some (array_ctx_ptr h ! ctx_index h) else None)"

definition set_handle_ctx :: "pingpong_context \<Rightarrow> KVHandle \<Rightarrow> KVHandle" where
  "set_handle_ctx c h = h\<lparr>array_ctx_ptr := (array_ctx_ptr h)[ctx_index h := c]\<rparr>"

section \<open>Writing a control message\<close>

text \<open>
  An element of \<open>array_messages_address\<close>: a pointer into the memory, or the address of a
  local variable, given by the bytes of the variable.
\<close>

datatype msg_src = At ptr | Var "byte list"

fun src_strlen :: "msg_src \<Rightarrow> mem \<Rightarrow> nat option" where
  "src_strlen (At p) m = c_strlen p m"
| "src_strlen (Var bs) m = map_option length (cstr bs)"

fun src_load :: "msg_src \<Rightarrow> nat \<Rightarrow> mem \<Rightarrow> byte list option" where
  "src_load (At p) n m = load_bytes p n m"
| "src_load (Var bs) n m = (if n \<le> length bs then Some (take n bs) else None)"

fun message_src :: "msg_src list \<Rightarrow> nat \<Rightarrow> msg_src option" where
  "message_src [] i = None"
| "message_src (x # xs) 0 = Some x"
| "message_src (x # xs) (Suc i) = message_src xs i"

definition string_size :: "msg_src list \<Rightarrow> nat \<Rightarrow> mem \<Rightarrow> nat option" where
  "string_size srcs i m = do { x \<leftarrow> message_src srcs i; n \<leftarrow> src_strlen x m; Some (n + 1) }"

fun set_message_sizes :: "Operation \<Rightarrow> msg_src list \<Rightarrow> mem \<Rightarrow> nat list option" where
  "set_message_sizes CLIENT_KV_SET_EAGER srcs m =
     do { key_size \<leftarrow> string_size srcs 0 m; value_size \<leftarrow> string_size srcs 2 m;
          Some [key_size, 8, value_size] }"
| "set_message_sizes CLIENT_KV_SET_RENDEZVOUS srcs m =
     do { key_size \<leftarrow> string_size srcs 0 m; Some [key_size, 8] }"
| "set_message_sizes SERVER_KV_SET_RENDEZVOUS srcs m = Some [8, 4]"
| "set_message_sizes CLIENT_KV_GET srcs m = do { key_size \<leftarrow> string_size srcs 0 m; Some [key_size] }"
| "set_message_sizes SERVER_KV_GET_EAGER srcs m = do { value_size \<leftarrow> string_size srcs 0 m; Some [value_size] }"
| "set_message_sizes SERVER_KV_GET_RENDEZVOUS srcs m = Some [8, 8, 4]"
| "set_message_sizes CLIENT_KV_GET_RENDEZVOUS_FIN srcs m = do { key_size \<leftarrow> string_size srcs 0 m; Some [key_size] }"
| "set_message_sizes CLIENT_KV_SET_RENDEZVOUS_FIN srcs m = do { key_size \<leftarrow> string_size srcs 0 m; Some [key_size] }"
| "set_message_sizes _ srcs m = Some []"

fun copy_messages :: "ptr \<Rightarrow> msg_src list \<Rightarrow> nat list \<Rightarrow> mem \<Rightarrow> mem option" where
  "copy_messages cur srcs [] m = Some m"
| "copy_messages cur [] (n # ns) m = None"
| "copy_messages cur (x # xs) (n # ns) m =
     do { bs \<leftarrow> src_load x n m;
          m \<leftarrow> store_bytes cur bs m;
          copy_messages (padd cur n) xs ns m }"

definition set_control_message ::
  "KVHandle \<Rightarrow> Operation \<Rightarrow> msg_src list \<Rightarrow> 'w pstate \<Rightarrow> 'w pstate option" where
  "set_control_message h operation srcs s =
     do { ctx \<leftarrow> handle_ctx h;
          let p = mr_control_send_start_ptr ctx;
          m \<leftarrow> store_bytes p (bytes32 (op_code operation)) (pmem s);
          sizes \<leftarrow> set_message_sizes operation srcs m;
          m \<leftarrow> copy_messages (padd p 4) srcs sizes m;
          Some (s\<lparr>pmem := m\<rparr>) }"

section \<open>Splitting a received message\<close>

text \<open>The field sizes a decoder assumes; 0 stands for a string of unknown length.\<close>

fun decode_sizes :: "Operation \<Rightarrow> nat list" where
  "decode_sizes CLIENT_KV_SET_EAGER = [0, 8, 0]"
| "decode_sizes CLIENT_KV_SET_RENDEZVOUS = [0, 8]"
| "decode_sizes SERVER_KV_SET_RENDEZVOUS = [8, 4]"
| "decode_sizes CLIENT_KV_GET = [0]"
| "decode_sizes SERVER_KV_GET_EAGER = [0]"
| "decode_sizes SERVER_KV_GET_RENDEZVOUS = [8, 8, 4]"
| "decode_sizes CLIENT_KV_GET_RENDEZVOUS_FIN = [0]"
| "decode_sizes CLIENT_KV_SET_RENDEZVOUS_FIN = [0]"
| "decode_sizes _ = []"

fun decode_fields :: "ptr \<Rightarrow> nat list \<Rightarrow> mem \<Rightarrow> ptr list option" where
  "decode_fields cur [] m = Some []"
| "decode_fields cur (n # ns) m =
     do { len \<leftarrow> (if n = 0 then map_option Suc (c_strlen cur m) else Some n);
          ps \<leftarrow> decode_fields (padd cur len) ns m;
          Some (cur # ps) }"

definition decode_control_message_buffer :: "Operation \<Rightarrow> ptr \<Rightarrow> mem \<Rightarrow> ptr list option" where
  "decode_control_message_buffer operation buf m =
     (let sizes = decode_sizes operation
      in if length sizes = 1 then Some [buf] else decode_fields buf sizes m)"

text \<open>The two fields of a \<open>ControlMessage\<close> at an address.\<close>

definition message_operation :: "ptr \<Rightarrow> mem \<Rightarrow> u32 option" where
  "message_operation p m = load_u32 p m"

definition message_buf :: "ptr \<Rightarrow> ptr" where
  "message_buf p = padd p 4"

definition sizeof_ControlMessage :: nat where
  "sizeof_ControlMessage = 4 + CONTROL_MESSAGE_BUFFER_SIZE"

section \<open>The wire protocol\<close>

text \<open>
  The messages the two sides exchange, with their fields. This is the specification: the
  C code has no such type, only the two functions above and the callers' conventions.
\<close>

datatype message =
    Set_Eager (msg_key: "byte list") size_t "byte list"
  | Set_Rendezvous (msg_key: "byte list") size_t
  | Set_Target u64 u32
  | Get (msg_key: "byte list")
  | Get_Eager "byte list"
  | Get_Target size_t u64 u32
  | Get_Fin (msg_key: "byte list")
  | Set_Fin (msg_key: "byte list")
  | Get_Key_Not_Found | In_Progress | Set_Successful | Get_Successful | Shut_Down

fun message_op :: "message \<Rightarrow> Operation" where
  "message_op (Set_Eager k n v) = CLIENT_KV_SET_EAGER"
| "message_op (Set_Rendezvous k n) = CLIENT_KV_SET_RENDEZVOUS"
| "message_op (Set_Target va rk) = SERVER_KV_SET_RENDEZVOUS"
| "message_op (Get k) = CLIENT_KV_GET"
| "message_op (Get_Eager v) = SERVER_KV_GET_EAGER"
| "message_op (Get_Target n va rk) = SERVER_KV_GET_RENDEZVOUS"
| "message_op (Get_Fin k) = CLIENT_KV_GET_RENDEZVOUS_FIN"
| "message_op (Set_Fin k) = CLIENT_KV_SET_RENDEZVOUS_FIN"
| "message_op Get_Key_Not_Found = SERVER_KV_GET_KEY_NOT_FOUND"
| "message_op In_Progress = SERVER_IN_PROGRESS"
| "message_op Set_Successful = SERVER_KV_SET_SUCCESSFUL"
| "message_op Get_Successful = SERVER_KV_GET_SUCCESSFUL"
| "message_op Shut_Down = SHUT_DOWN_SERVER"

fun message_payload :: "message \<Rightarrow> byte list" where
  "message_payload (Set_Eager k n v) = k @ [0] @ bytes64 n @ v @ [0]"
| "message_payload (Set_Rendezvous k n) = k @ [0] @ bytes64 n"
| "message_payload (Set_Target va rk) = bytes64 va @ bytes32 rk"
| "message_payload (Get k) = k @ [0]"
| "message_payload (Get_Eager v) = v @ [0]"
| "message_payload (Get_Target n va rk) = bytes64 n @ bytes64 va @ bytes32 rk"
| "message_payload (Get_Fin k) = k @ [0]"
| "message_payload (Set_Fin k) = k @ [0]"
| "message_payload _ = []"

text \<open>The strings of a message, and the message as bytes.\<close>

fun message_strings :: "message \<Rightarrow> byte list list" where
  "message_strings (Set_Eager k n v) = [k, v]"
| "message_strings (Set_Rendezvous k n) = [k]"
| "message_strings (Get k) = [k]"
| "message_strings (Get_Eager v) = [v]"
| "message_strings (Get_Fin k) = [k]"
| "message_strings (Set_Fin k) = [k]"
| "message_strings _ = []"

definition message_wf :: "message \<Rightarrow> bool" where
  "message_wf msg \<longleftrightarrow> (\<forall>x \<in> set (message_strings msg). 0 \<notin> set x)"

definition message_bytes :: "message \<Rightarrow> byte list" where
  "message_bytes msg = bytes32 (op_code (message_op msg)) @ message_payload msg"

text \<open>A well-formed message is at an address, followed by whatever was there before.\<close>

definition message_at :: "ptr \<Rightarrow> message \<Rightarrow> mem \<Rightarrow> bool" where
  "message_at p msg m \<longleftrightarrow>
     message_wf msg \<and> (\<exists>rest. bytes_from p m = Some (message_bytes msg @ rest))"

text \<open>The arguments a caller hands over for a message.\<close>

fun message_srcs :: "message \<Rightarrow> msg_src list \<Rightarrow> mem \<Rightarrow> bool" where
  "message_srcs (Set_Eager k n v) srcs m =
     (\<exists>p q. srcs = [At p, Var (bytes64 n), At q] \<and> c_string p m = Some k \<and> c_string q m = Some v)"
| "message_srcs (Set_Rendezvous k n) srcs m =
     (\<exists>p. srcs = [At p, Var (bytes64 n)] \<and> c_string p m = Some k)"
| "message_srcs (Set_Target va rk) srcs m = (srcs = [Var (bytes64 va), Var (bytes32 rk)])"
| "message_srcs (Get k) srcs m = (\<exists>p. srcs = [At p] \<and> c_string p m = Some k)"
| "message_srcs (Get_Eager v) srcs m = (\<exists>p. srcs = [At p] \<and> c_string p m = Some v)"
| "message_srcs (Get_Target n va rk) srcs m =
     (srcs = [Var (bytes64 n), Var (bytes64 va), Var (bytes32 rk)])"
| "message_srcs (Get_Fin k) srcs m = (\<exists>p. srcs = [At p] \<and> c_string p m = Some k)"
| "message_srcs (Set_Fin k) srcs m = (\<exists>p. srcs = [At p] \<and> c_string p m = Some k)"
| "message_srcs _ srcs m = (srcs = [])"

text \<open>The memory objects a caller's arguments live in.\<close>

fun src_block :: "msg_src \<Rightarrow> nat set" where
  "src_block (At p) = {pblk p}"
| "src_block (Var bs) = {}"

definition srcs_blocks :: "msg_src list \<Rightarrow> nat set" where
  "srcs_blocks srcs = (\<Union>x \<in> set srcs. src_block x)"

fun message_fields :: "message \<Rightarrow> byte list list" where
  "message_fields (Set_Eager k n v) = [k @ [0], bytes64 n, v @ [0]]"
| "message_fields (Set_Rendezvous k n) = [k @ [0], bytes64 n]"
| "message_fields (Set_Target va rk) = [bytes64 va, bytes32 rk]"
| "message_fields (Get k) = [k @ [0]]"
| "message_fields (Get_Eager v) = [v @ [0]]"
| "message_fields (Get_Target n va rk) = [bytes64 n, bytes64 va, bytes32 rk]"
| "message_fields (Get_Fin k) = [k @ [0]]"
| "message_fields (Set_Fin k) = [k @ [0]]"
| "message_fields _ = []"

lemma concat_message_fields: "concat (message_fields msg) = message_payload msg"
  by (cases msg) simp_all

lemma length_message_bytes: "length (message_bytes msg) = 4 + length (message_payload msg)"
  by (simp add: message_bytes_def)

section \<open>Messages are self-delimiting\<close>

text \<open>A string ends at its NUL, whatever follows.\<close>

lemma terminated_unique:
  "0 \<notin> set k \<Longrightarrow> 0 \<notin> set l \<Longrightarrow> k @ 0 # xs = l @ 0 # ys \<longleftrightarrow> k = l \<and> xs = (ys :: byte list)"
  by (induction k arbitrary: l) (case_tac l; auto)+

lemma fixed_width_unique:
  "bytes32 a @ xs = bytes32 b @ ys \<longleftrightarrow> a = b \<and> xs = ys"
  "bytes64 c @ xs = bytes64 d @ ys \<longleftrightarrow> c = d \<and> xs = ys"
proof -
  show "bytes32 a @ xs = bytes32 b @ ys \<longleftrightarrow> a = b \<and> xs = ys" by (auto simp: append_eq_append_conv bytes32_inject)
  have "bytes64 c = bytes64 d \<longleftrightarrow> c = d" by (metis word64_bytes64)
  then show "bytes64 c @ xs = bytes64 d @ ys \<longleftrightarrow> c = d \<and> xs = ys" by (auto simp: append_eq_append_conv)
qed

text \<open>So the bytes of a buffer begin with at most one well-formed message.\<close>

lemma message_bytes_unique:
  assumes "message_wf x" and "message_wf y" and "message_bytes x @ xs = message_bytes y @ ys"
  shows "x = y"
proof -
  from assms(3) have op: "message_op x = message_op y" and pay: "message_payload x @ xs = message_payload y @ ys"
    by (simp_all add: message_bytes_def fixed_width_unique)
  show ?thesis
    using assms(1,2) op pay
    by (cases x; cases y) (simp_all add: message_wf_def terminated_unique fixed_width_unique)
qed

section \<open>Writing is correct\<close>

lemma load_string: "c_string p m = Some k \<Longrightarrow> load_bytes p (Suc (length k)) m = Some (k @ [0])"
  by (auto simp: c_string_def load_bytes_def bind_eq_Some_conv Suc_le_eq dest: cstr_length cstr_take_Suc)

lemma message_srcs_load:
  assumes "message_srcs msg srcs m"
  shows "list_all2 (\<lambda>x ds. src_load x (length ds) m = Some ds) srcs (message_fields msg)"
    and "set_message_sizes (message_op msg) srcs m = Some (map length (message_fields msg))"
  using assms
  by (cases msg; auto simp: load_string string_size_def c_strlen_def eval_nat_numeral)+

lemma src_load_frame:
  "mem_frame B m m' \<Longrightarrow> src_block x \<inter> B = {} \<Longrightarrow> src_load x n m' = src_load x n m"
  by (cases x) (auto simp: load_bytes_frame)

lemma c_string_src_frame:
  "mem_frame B m m' \<Longrightarrow> srcs_blocks srcs \<inter> B = {} \<Longrightarrow> message_srcs msg srcs m \<Longrightarrow> message_srcs msg srcs m'"
  by (cases msg) (auto simp: srcs_blocks_def c_string_frame)

text \<open>The copy loop writes the fields one after the other.\<close>

lemma copy_messages_splice:
  assumes "blocks m b = Some xs" and "k + length (concat dss) \<le> length xs"
    and "list_all2 (\<lambda>x ds. src_load x (length ds) m = Some ds) srcs dss"
    and "srcs_blocks srcs \<inter> {b} = {}"
  shows "\<exists>m'. copy_messages (Ptr b k) srcs (map length dss) m = Some m' \<and>
    blocks m' b = Some (splice_at k (concat dss) xs) \<and> mem_frame {b} m m'"
  using assms
proof (induction dss arbitrary: srcs k m xs)
  case Nil
  then show ?case by (simp add: splice_at_def)
next
  case (Cons ds dss)
  from Cons.prems(3) obtain x srcs' where srcs: "srcs = x # srcs'"
    and x: "src_load x (length ds) m = Some ds"
    and rest: "list_all2 (\<lambda>x ds. src_load x (length ds) m = Some ds) srcs' dss"
    by (auto simp: list_all2_Cons2)
  define m1 where "m1 = m\<lparr>blocks := (blocks m)(b := Some (splice_at k ds xs))\<rparr>"
  have store: "store_bytes (Ptr b k) ds m = Some m1"
    using Cons.prems(1,2) by (simp add: store_bytes_def m1_def)
  from store_bytes_frame [OF this] have fr: "mem_frame {b} m m1" by simp
  have disj: "srcs_blocks srcs' \<inter> {b} = {}" "\<And>y. y \<in> set srcs' \<Longrightarrow> src_block y \<inter> {b} = {}"
    using Cons.prems(4) by (auto simp: srcs srcs_blocks_def)
  have "list_all2 (\<lambda>x ds. src_load x (length ds) m1 = Some ds) srcs' dss"
    using rest disj(2) src_load_frame [OF fr] by (auto simp: list_all2_conv_all_nth)
  moreover have "blocks m1 b = Some (splice_at k ds xs)" by (simp add: m1_def)
  moreover have len: "length (splice_at k ds xs) = length xs"
    using Cons.prems(2) by (intro length_splice_at) simp
  ultimately obtain m' where
    "copy_messages (Ptr b (k + length ds)) srcs' (map length dss) m1 = Some m'"
    "blocks m' b = Some (splice_at (k + length ds) (concat dss) (splice_at k ds xs))"
    "mem_frame {b} m1 m'"
    using Cons.IH [of m1 "splice_at k ds xs" "k + length ds" srcs'] Cons.prems(2) disj(1) by auto
  then show ?case
    using store x srcs fr Cons.prems(2)
    by (auto simp: splice_at_splice_at intro: mem_frame_trans)
qed

text \<open>\<open>set_control_message\<close> puts exactly the message's bytes into the send buffer.\<close>

lemma set_control_message_bytes:
  fixes s :: "'w pstate"
  assumes ctx: "handle_ctx h = Some ctx"
    and bs: "bytes_from (mr_control_send_start_ptr ctx) (pmem s) = Some bs"
    and fits: "length (message_bytes msg) \<le> length bs"
    and srcs: "message_srcs msg srcs (pmem s)"
    and disj: "srcs_blocks srcs \<inter> {pblk (mr_control_send_start_ptr ctx)} = {}"
  shows "\<exists>m'. set_control_message h (message_op msg) srcs s = Some (s\<lparr>pmem := m'\<rparr>) \<and>
    bytes_from (mr_control_send_start_ptr ctx) m' =
      Some (message_bytes msg @ drop (length (message_bytes msg)) bs) \<and>
    mem_frame {pblk (mr_control_send_start_ptr ctx)} (pmem s) m'"
proof -
  from bs obtain b k xs where p: "mr_control_send_start_ptr ctx = Ptr b k"
    and xs: "blocks (pmem s) b = Some xs" "k \<le> length xs" "bs = drop k xs"
    by (cases "mr_control_send_start_ptr ctx")
      (auto simp: bytes_from_def split: option.splits if_splits)
  let ?op = "bytes32 (op_code (message_op msg))"
  let ?ys = "splice_at k ?op xs"
  define m1 where "m1 = (pmem s)\<lparr>blocks := (blocks (pmem s))(b := Some ?ys)\<rparr>"
  have len: "k + 4 + length (message_payload msg) \<le> length xs"
    using fits xs by (simp add: length_message_bytes)
  have store: "store_bytes (Ptr b k) ?op (pmem s) = Some m1"
    using xs len by (simp add: store_bytes_def m1_def)
  from store_bytes_frame [OF this] have fr: "mem_frame {b} (pmem s) m1" by simp
  have srcs1: "message_srcs msg srcs m1"
    using c_string_src_frame [OF fr _ srcs] disj p by simp
  have "length ?ys = length xs" using len by simp
  with copy_messages_splice [of m1 b ?ys "k + 4" "message_fields msg" srcs]
    message_srcs_load [OF srcs1] disj p len
  obtain m' where copy: "copy_messages (Ptr b (k + 4)) srcs (map length (message_fields msg)) m1 = Some m'"
    and blk: "blocks m' b = Some (splice_at (k + 4) (message_payload msg) ?ys)" and fr': "mem_frame {b} m1 m'"
    by (auto simp: concat_message_fields m1_def)
  have "splice_at (k + 4) (message_payload msg) ?ys = splice_at k (message_bytes msg) xs"
    using splice_at_splice_at [of k ?op xs "message_payload msg"] len
    by (simp add: message_bytes_def)
  with blk xs len have "bytes_from (Ptr b k) m' =
      Some (message_bytes msg @ drop (length (message_bytes msg)) bs)"
    by (simp add: bytes_from_def drop_splice_at length_message_bytes add.commute)
  moreover have "set_control_message h (message_op msg) srcs s = Some (s\<lparr>pmem := m'\<rparr>)"
    using ctx p store message_srcs_load(2) [OF srcs1] copy
    by (simp add: set_control_message_def)
  ultimately show ?thesis
    using p mem_frame_trans [OF fr fr'] by auto
qed

section \<open>Reading is correct\<close>

text \<open>
  What a receiver does with a message: split it with the decoder and read the fields
  through the pointers it gets.
\<close>

fun read_message :: "Operation \<Rightarrow> ptr \<Rightarrow> mem \<Rightarrow> message option" where
  "read_message CLIENT_KV_SET_EAGER p m =
     do { ps \<leftarrow> decode_control_message_buffer CLIENT_KV_SET_EAGER p m;
          k \<leftarrow> c_string (ps ! 0) m; n \<leftarrow> load_u64 (ps ! 1) m; v \<leftarrow> c_string (ps ! 2) m;
          Some (Set_Eager k n v) }"
| "read_message CLIENT_KV_SET_RENDEZVOUS p m =
     do { ps \<leftarrow> decode_control_message_buffer CLIENT_KV_SET_RENDEZVOUS p m;
          k \<leftarrow> c_string (ps ! 0) m; n \<leftarrow> load_u64 (ps ! 1) m; Some (Set_Rendezvous k n) }"
| "read_message SERVER_KV_SET_RENDEZVOUS p m =
     do { ps \<leftarrow> decode_control_message_buffer SERVER_KV_SET_RENDEZVOUS p m;
          va \<leftarrow> load_u64 (ps ! 0) m; rk \<leftarrow> load_u32 (ps ! 1) m; Some (Set_Target va rk) }"
| "read_message CLIENT_KV_GET p m =
     do { ps \<leftarrow> decode_control_message_buffer CLIENT_KV_GET p m;
          k \<leftarrow> c_string (ps ! 0) m; Some (Get k) }"
| "read_message SERVER_KV_GET_EAGER p m =
     do { ps \<leftarrow> decode_control_message_buffer SERVER_KV_GET_EAGER p m;
          v \<leftarrow> c_string (ps ! 0) m; Some (Get_Eager v) }"
| "read_message SERVER_KV_GET_RENDEZVOUS p m =
     do { ps \<leftarrow> decode_control_message_buffer SERVER_KV_GET_RENDEZVOUS p m;
          n \<leftarrow> load_u64 (ps ! 0) m; va \<leftarrow> load_u64 (ps ! 1) m; rk \<leftarrow> load_u32 (ps ! 2) m;
          Some (Get_Target n va rk) }"
| "read_message CLIENT_KV_GET_RENDEZVOUS_FIN p m =
     do { ps \<leftarrow> decode_control_message_buffer CLIENT_KV_GET_RENDEZVOUS_FIN p m;
          k \<leftarrow> c_string (ps ! 0) m; Some (Get_Fin k) }"
| "read_message CLIENT_KV_SET_RENDEZVOUS_FIN p m =
     do { ps \<leftarrow> decode_control_message_buffer CLIENT_KV_SET_RENDEZVOUS_FIN p m;
          k \<leftarrow> c_string (ps ! 0) m; Some (Set_Fin k) }"
| "read_message SERVER_KV_GET_KEY_NOT_FOUND p m = Some Get_Key_Not_Found"
| "read_message SERVER_IN_PROGRESS p m = Some In_Progress"
| "read_message SERVER_KV_SET_SUCCESSFUL p m = Some Set_Successful"
| "read_message SERVER_KV_GET_SUCCESSFUL p m = Some Get_Successful"
| "read_message SHUT_DOWN_SERVER p m = Some Shut_Down"

text \<open>Reading single fields at the front of the rest of an object.\<close>

lemma c_string_at [codec_simps]:
  "bytes_from p m = Some (k @ 0 # r) \<Longrightarrow> 0 \<notin> set k \<Longrightarrow> c_string p m = Some k"
  by (simp add: c_string_def)

lemma c_strlen_at [codec_simps]:
  "bytes_from p m = Some (k @ 0 # r) \<Longrightarrow> 0 \<notin> set k \<Longrightarrow> c_strlen p m = Some (length k)"
  by (simp add: c_strlen_def c_string_at)

lemma load_u64_at [codec_simps]: "bytes_from p m = Some (bytes64 n @ r) \<Longrightarrow> load_u64 p m = Some n"
  by (simp add: load_u64_def load_bytes_def)

lemma load_u32_at [codec_simps]: "bytes_from p m = Some (bytes32 n @ r) \<Longrightarrow> load_u32 p m = Some n"
  by (simp add: load_u32_def load_bytes_def)

lemma bytes_from_skip:
  "bytes_from p m = Some (ds @ r) \<Longrightarrow> length ds = n \<Longrightarrow> bytes_from (padd p n) m = Some r"
  by (drule bytes_from_padd [where n = n]) auto

lemma message_at_operation:
  "message_at p msg m \<Longrightarrow> message_operation p m = Some (op_code (message_op msg))"
  by (auto simp: message_at_def message_operation_def message_bytes_def intro: load_u32_at)

lemma message_at_buf:
  "message_at p msg m \<Longrightarrow> \<exists>rest. bytes_from (message_buf p) m = Some (message_payload msg @ rest)"
  using bytes_from_skip [of p m "bytes32 (op_code (message_op msg))" _ 4]
  by (auto simp: message_at_def message_buf_def message_bytes_def)

text \<open>The fields of each kind of message a handler decodes.\<close>

lemma decode_Set_Eager:
  assumes "message_at p (Set_Eager k n v) m"
  obtains q1 q2 where
    "decode_control_message_buffer CLIENT_KV_SET_EAGER (message_buf p) m = Some [message_buf p, q1, q2]"
    "c_string (message_buf p) m = Some k" "load_u64 q1 m = Some n" "c_string q2 m = Some v"
    "pblk q2 = pblk p"
proof -
  let ?p = "message_buf p"
  from assms have nz: "0 \<notin> set k" "0 \<notin> set v" by (auto simp: message_at_def message_wf_def)
  from message_at_buf [OF assms] obtain r where
    b0: "bytes_from ?p m = Some (k @ 0 # bytes64 n @ v @ 0 # r)" by auto
  have b1: "bytes_from (padd ?p (Suc (length k))) m = Some (bytes64 n @ v @ 0 # r)"
    using b0 by (intro bytes_from_skip [where ds = "k @ [0]"]) auto
  have b2: "bytes_from (padd ?p (Suc (length k) + 8)) m = Some (v @ 0 # r)"
    using bytes_from_skip [OF b1] by simp
  have "p \<noteq> NULL" using b0 by (auto simp: message_buf_def dest: bytes_from_live)
  then show ?thesis
    using that [of "padd ?p (Suc (length k))" "padd ?p (Suc (length k) + 8)"]
      c_string_at [OF b0 nz(1)] c_strlen_at [OF b0 nz(1)] load_u64_at [OF b1]
      c_string_at [OF b2 nz(2)] c_strlen_at [OF b2 nz(2)]
    by (simp add: decode_control_message_buffer_def message_buf_def)
qed

lemma decode_Set_Rendezvous:
  assumes "message_at p (Set_Rendezvous k n) m"
  obtains q where
    "decode_control_message_buffer CLIENT_KV_SET_RENDEZVOUS (message_buf p) m = Some [message_buf p, q]"
    "c_string (message_buf p) m = Some k" "load_u64 q m = Some n"
proof -
  let ?p = "message_buf p"
  from assms have nz: "0 \<notin> set k" by (auto simp: message_at_def message_wf_def)
  from message_at_buf [OF assms] obtain r where
    b0: "bytes_from ?p m = Some (k @ 0 # bytes64 n @ r)" by auto
  have b1: "bytes_from (padd ?p (Suc (length k))) m = Some (bytes64 n @ r)"
    using b0 by (intro bytes_from_skip [where ds = "k @ [0]"]) auto
  show ?thesis
    using that [of "padd ?p (Suc (length k))"] c_string_at [OF b0 nz] c_strlen_at [OF b0 nz]
      load_u64_at [OF b1]
    by (simp add: decode_control_message_buffer_def)
qed

lemma decode_Set_Target:
  assumes "message_at p (Set_Target va rk) m"
  obtains q where
    "decode_control_message_buffer SERVER_KV_SET_RENDEZVOUS (message_buf p) m = Some [message_buf p, q]"
    "load_u64 (message_buf p) m = Some va" "load_u32 q m = Some rk"
proof -
  let ?p = "message_buf p"
  from message_at_buf [OF assms] obtain r where
    b0: "bytes_from ?p m = Some (bytes64 va @ bytes32 rk @ r)" by auto
  have b1: "bytes_from (padd ?p 8) m = Some (bytes32 rk @ r)"
    using b0 by (rule bytes_from_skip) simp
  show ?thesis
    using that [of "padd ?p 8"] load_u64_at [OF b0] load_u32_at [OF b1]
    by (simp add: decode_control_message_buffer_def)
qed

lemma decode_Get_Target:
  assumes "message_at p (Get_Target n va rk) m"
  obtains q1 q2 where
    "decode_control_message_buffer SERVER_KV_GET_RENDEZVOUS (message_buf p) m = Some [message_buf p, q1, q2]"
    "load_u64 (message_buf p) m = Some n" "load_u64 q1 m = Some va" "load_u32 q2 m = Some rk"
proof -
  let ?p = "message_buf p"
  from message_at_buf [OF assms] obtain r where
    b0: "bytes_from ?p m = Some (bytes64 n @ bytes64 va @ bytes32 rk @ r)" by auto
  have b1: "bytes_from (padd ?p 8) m = Some (bytes64 va @ bytes32 rk @ r)"
    using b0 by (rule bytes_from_skip) simp
  have b2: "bytes_from (padd ?p (8 + 8)) m = Some (bytes32 rk @ r)"
    using bytes_from_skip [OF b1] by simp
  show ?thesis
    using that [of "padd ?p 8" "padd ?p (8 + 8)"] load_u64_at [OF b0] load_u64_at [OF b1] load_u32_at [OF b2]
    by (simp add: decode_control_message_buffer_def)
qed

text \<open>The messages that carry one string.\<close>

lemma decode_one_string:
  assumes "message_at p msg m" and "message_payload msg = k @ [0]" and "message_strings msg = [k]"
    and "decode_sizes (message_op msg) = [0]"
  shows "decode_control_message_buffer (message_op msg) (message_buf p) m = Some [message_buf p]"
    and "c_string (message_buf p) m = Some k"
proof -
  from assms have nz: "0 \<notin> set k" by (auto simp: message_at_def message_wf_def)
  from message_at_buf [OF assms(1)] assms(2) obtain r where
    "bytes_from (message_buf p) m = Some (k @ 0 # r)" by auto
  from c_string_at [OF this nz] show "c_string (message_buf p) m = Some k" .
  show "decode_control_message_buffer (message_op msg) (message_buf p) m = Some [message_buf p]"
    using assms(4) by (simp add: decode_control_message_buffer_def)
qed

lemma read_message_at:
  assumes "message_at p msg m"
  shows "read_message (message_op msg) (message_buf p) m = Some msg"
proof (cases msg)
  case (Set_Eager k n v)
  with assms show ?thesis by (auto elim!: decode_Set_Eager)
next
  case (Set_Rendezvous k n)
  with assms show ?thesis by (auto elim!: decode_Set_Rendezvous)
next
  case (Set_Target va rk)
  with assms show ?thesis by (auto elim!: decode_Set_Target)
next
  case (Get_Target n va rk)
  with assms show ?thesis by (auto elim!: decode_Get_Target)
qed (use decode_one_string [OF assms] in simp_all)

end
