(* ===== verification/KV_Server.thy ===== *)
theory KV_Server
  imports KV_Protocol
begin

text \<open>
  The server side of LowLatencyProtocols/kv_api.c: receiving a control message, the five
  request handlers, and the loop of \<open>run_server\<close>. A handler returns its return code, the
  database and the process state; the handle is not changed by it.
\<close>

section \<open>Receiving and replying\<close>

text \<open>1 when nothing was received (or polling failed), else 0 and the address of the message.\<close>

definition get_remote_control_message ::
  "('w, 'z) verbs_scheme \<Rightarrow> KVHandle \<Rightarrow> int \<Rightarrow> 'w pstate \<Rightarrow>
   (int \<times> ptr option \<times> KVHandle \<times> 'w pstate) option" where
  "get_remote_control_message V h blocking s =
     do { ctx \<leftarrow> handle_ctx h;
          (r, ctx, s) \<leftarrow> poll_next_receive_wc V ctx blocking s;
          let h = set_handle_ctx ctx h;
          if r \<noteq> 0 then Some (1, None, h, s)
          else Some (0, Some (mr_control_receive_start_ptr ctx), h, s) }"

text \<open>
  The three calls that end every branch of a handler: write the message, post the send
  (its result is not looked at), wait for its completion.
\<close>

definition send_control_message ::
  "('w, 'z) verbs_scheme \<Rightarrow> KVHandle \<Rightarrow> Operation \<Rightarrow> msg_src list \<Rightarrow> 'w pstate \<Rightarrow>
   (int \<times> 'w pstate) option" where
  "send_control_message V h operation srcs s =
     do { s \<leftarrow> set_control_message h operation srcs s;
          ctx \<leftarrow> handle_ctx h;
          (posted, s) \<leftarrow> pp_post_send V ctx s;
          poll_n_send_wc V ctx 1 s }"

text \<open>Is the pair that was found (if any) in progress?\<close>

definition in_progress :: "KeyValueAddressArray \<Rightarrow> nat option \<Rightarrow> bool option" where
  "in_progress database get_kv_pair =
     (case get_kv_pair of
        None \<Rightarrow> Some False
      | Some i \<Rightarrow> do { e \<leftarrow> entry_at database i; Some (pair_mr_rdma e \<noteq> None) })"

section \<open>The handlers\<close>

definition handle_CLIENT_KV_SET_RENDEZVOUS_FIN ::
  "('w, 'z) verbs_scheme \<Rightarrow> KeyValueAddressArray \<Rightarrow> ptr \<Rightarrow> KVHandle \<Rightarrow> 'w pstate \<Rightarrow>
   (int \<times> KeyValueAddressArray \<times> 'w pstate) option" where
  "handle_CLIENT_KV_SET_RENDEZVOUS_FIN V database remote_control_message h s =
     do { array_ptr_to_fill \<leftarrow> decode_control_message_buffer CLIENT_KV_SET_RENDEZVOUS_FIN
            (message_buf remote_control_message) (pmem s);
          let buf_key_address = array_ptr_to_fill ! 0;
          (deregistered, database, s) \<leftarrow> deregister_rdma_mr V database buf_key_address s;
          (r, s) \<leftarrow> send_control_message V h SERVER_KV_SET_SUCCESSFUL [] s;
          Some (if r \<noteq> 0 then 1 else 0, database, s) }"

definition handle_CLIENT_KV_GET_RENDEZVOUS_FIN ::
  "('w, 'z) verbs_scheme \<Rightarrow> KeyValueAddressArray \<Rightarrow> ptr \<Rightarrow> KVHandle \<Rightarrow> 'w pstate \<Rightarrow>
   (int \<times> KeyValueAddressArray \<times> 'w pstate) option" where
  "handle_CLIENT_KV_GET_RENDEZVOUS_FIN V database remote_control_message h s =
     do { array_ptr_to_fill \<leftarrow> decode_control_message_buffer CLIENT_KV_GET_RENDEZVOUS_FIN
            (message_buf remote_control_message) (pmem s);
          let buf_key_address = array_ptr_to_fill ! 0;
          (deregistered, database, s) \<leftarrow> deregister_rdma_mr V database buf_key_address s;
          (r, s) \<leftarrow> send_control_message V h SERVER_KV_GET_SUCCESSFUL [] s;
          Some (if r \<noteq> 0 then 1 else 0, database, s) }"

definition handle_RENDEZVOUS_KV_SET_KEY ::
  "('w, 'z) verbs_scheme \<Rightarrow> KeyValueAddressArray \<Rightarrow> ptr \<Rightarrow> KVHandle \<Rightarrow> 'w pstate \<Rightarrow>
   (int \<times> KeyValueAddressArray \<times> 'w pstate) option" where
  "handle_RENDEZVOUS_KV_SET_KEY V database remote_control_message h s =
     do { array_ptr_to_fill \<leftarrow> decode_control_message_buffer CLIENT_KV_SET_RENDEZVOUS
            (message_buf remote_control_message) (pmem s);
          let buf_key_address = array_ptr_to_fill ! 0;
          let buf_value_length_address = array_ptr_to_fill ! 1;
          get_kv_pair \<leftarrow> get_KeyValueAddressPair database buf_key_address (pmem s);
          busy \<leftarrow> in_progress database get_kv_pair;
          if busy then do {
            (r, s) \<leftarrow> send_control_message V h SERVER_IN_PROGRESS [] s;
            Some (if r \<noteq> 0 then 1 else 0, database, s) }
          else do {
            len \<leftarrow> c_strlen buf_key_address (pmem s);
            let (local_key_address, m) = c_malloc (len + 1) (pmem s);
            m \<leftarrow> c_strcpy local_key_address buf_key_address m;
            value_length \<leftarrow> load_u64 buf_value_length_address m;
            let (local_value_address, m) = c_malloc (unat value_length) m;
            ctx \<leftarrow> handle_ctx h;
            let (mr, s) = ibv_reg_mr V (pd ctx) local_value_address value_length
                  [IBV_ACCESS_LOCAL_WRITE, IBV_ACCESS_REMOTE_WRITE] (s\<lparr>pmem := m\<rparr>);
            let mr_rdma = \<lparr>info_mr = mr, mr_start_ptr = local_value_address,
                           mr_size = value_length, mr_status = RDMA\<rparr>;
            region \<leftarrow> mr;
            let remote_buf_va = bswap_64 (uintptr (pmem s) local_value_address);
            let remote_buf_rkey = htonl (rkey region);
            (r, s) \<leftarrow> send_control_message V h SERVER_KV_SET_RENDEZVOUS
              [Var (bytes64 remote_buf_va), Var (bytes32 remote_buf_rkey)] s;
            if r \<noteq> 0 then Some (1, database, s)
            else do {
              let entry = \<lparr>key_address = local_key_address, value_address = local_value_address,
                           value_size = value_length, pair_mr_rdma = Some mr_rdma\<rparr>;
              (database, m) \<leftarrow> insert_to_array (kv_malloc s) database entry (pmem s);
              Some (0, database, s\<lparr>pmem := m\<rparr>) } } }"

definition handle_EAGER_KV_SET ::
  "('w, 'z) verbs_scheme \<Rightarrow> KeyValueAddressArray \<Rightarrow> ptr \<Rightarrow> KVHandle \<Rightarrow> 'w pstate \<Rightarrow>
   (int \<times> KeyValueAddressArray \<times> 'w pstate) option" where
  "handle_EAGER_KV_SET V database remote_control_message h s =
     do { array_ptr_to_fill \<leftarrow> decode_control_message_buffer CLIENT_KV_SET_EAGER
            (message_buf remote_control_message) (pmem s);
          let buf_key_address = array_ptr_to_fill ! 0;
          let buf_value_length_address = array_ptr_to_fill ! 1;
          let buf_value_address = array_ptr_to_fill ! 2;
          get_kv_pair \<leftarrow> get_KeyValueAddressPair database buf_key_address (pmem s);
          busy \<leftarrow> in_progress database get_kv_pair;
          if busy then do {
            (r, s) \<leftarrow> send_control_message V h SERVER_IN_PROGRESS [] s;
            Some (if r \<noteq> 0 then 1 else 0, database, s) }
          else do {
            len \<leftarrow> c_strlen buf_key_address (pmem s);
            let (local_key_address, m) = c_malloc (len + 1) (pmem s);
            m \<leftarrow> c_strcpy local_key_address buf_key_address m;
            value_length \<leftarrow> load_u64 buf_value_length_address m;
            let (local_value_address, m) = c_malloc (unat value_length) m;
            m \<leftarrow> c_strcpy local_value_address buf_value_address m;
            let entry = \<lparr>key_address = local_key_address, value_address = local_value_address,
                         value_size = value_length, pair_mr_rdma = None\<rparr>;
            (database, m) \<leftarrow> insert_to_array (kv_malloc s) database entry m;
            (r, s) \<leftarrow> send_control_message V h SERVER_KV_SET_SUCCESSFUL [] (s\<lparr>pmem := m\<rparr>);
            Some (if r \<noteq> 0 then 1 else 0, database, s) } }"

definition handle_CLIENT_KV_GET ::
  "('w, 'z) verbs_scheme \<Rightarrow> KeyValueAddressArray \<Rightarrow> ptr \<Rightarrow> KVHandle \<Rightarrow> 'w pstate \<Rightarrow>
   (int \<times> KeyValueAddressArray \<times> 'w pstate) option" where
  "handle_CLIENT_KV_GET V database remote_control_message h s =
     do { array_ptr_to_fill \<leftarrow> decode_control_message_buffer CLIENT_KV_GET
            (message_buf remote_control_message) (pmem s);
          let buf_key_address = array_ptr_to_fill ! 0;
          get_kv_pair \<leftarrow> get_KeyValueAddressPair database buf_key_address (pmem s);
          case get_kv_pair of
            None \<Rightarrow> do {
              (r, s) \<leftarrow> send_control_message V h SERVER_KV_GET_KEY_NOT_FOUND [] s;
              Some (if r \<noteq> 0 then 1 else 0, database, s) }
          | Some i \<Rightarrow> do {
              e \<leftarrow> entry_at database i;
              if pair_mr_rdma e \<noteq> None then do {
                (r, s) \<leftarrow> send_control_message V h SERVER_IN_PROGRESS [] s;
                Some (if r \<noteq> 0 then 1 else 0, database, s) }
              else if unat (value_size e) < CONTROL_MESSAGE_BUFFER_SIZE then do {
                value_strlen \<leftarrow> c_strlen (value_address e) (pmem s);
                (r, s) \<leftarrow> send_control_message V h SERVER_KV_GET_EAGER [At (value_address e)] s;
                Some (if r \<noteq> 0 then 1 else 0, database, s) }
              else do {
                ctx \<leftarrow> handle_ctx h;
                let (mr, s) = ibv_reg_mr V (pd ctx) (value_address e) (value_size e)
                      [IBV_ACCESS_LOCAL_WRITE, IBV_ACCESS_REMOTE_READ] s;
                let mr_rdma = \<lparr>info_mr = mr, mr_start_ptr = value_address e,
                               mr_size = value_size e, mr_status = RDMA\<rparr>;
                region \<leftarrow> mr;
                let remote_buf_va = bswap_64 (uintptr (pmem s) (value_address e));
                let remote_buf_rkey = htonl (rkey region);
                (r, s) \<leftarrow> send_control_message V h SERVER_KV_GET_RENDEZVOUS
                  [Var (bytes64 (value_size e)), Var (bytes64 remote_buf_va),
                   Var (bytes32 remote_buf_rkey)] s;
                if r \<noteq> 0 then Some (1, database, s)
                else Some (0, database\<lparr>head := (head database)[i := Some (e\<lparr>pair_mr_rdma := Some mr_rdma\<rparr>)]\<rparr>, s) } } }"

section \<open>The server loop\<close>

text \<open>
  The dispatch of a received message. The first boolean says that the server returns: it does
  when the last client has asked it to shut down. The second says whether
  \<open>operation_to_print\<close> was written. Handlers' return codes are discarded, and a message with
  any other operation is ignored.
\<close>

definition serve_message ::
  "('w, 'z) verbs_scheme \<Rightarrow> ptr \<Rightarrow> KVHandle \<Rightarrow> KeyValueAddressArray \<Rightarrow> int \<Rightarrow> 'w pstate \<Rightarrow>
   (bool \<times> bool \<times> KeyValueAddressArray \<times> int \<times> 'w pstate) option" where
  "serve_message V remote_control_message h database num_shut_down s =
     do { operation \<leftarrow> message_operation remote_control_message (pmem s);
          if operation = op_code SHUT_DOWN_SERVER then
            if num_shut_down + 1 = num_remote_host h then do {
              m \<leftarrow> free_array (kv_malloc s) database (pmem s);
              Some (True, True, database, num_shut_down + 1, s\<lparr>pmem := m\<rparr>) }
            else Some (False, False, database, num_shut_down + 1, s)
          else if operation = op_code CLIENT_KV_SET_EAGER then do {
            (r, database, s) \<leftarrow> handle_EAGER_KV_SET V database remote_control_message h s;
            Some (False, True, database, num_shut_down, s) }
          else if operation = op_code CLIENT_KV_SET_RENDEZVOUS then do {
            (r, database, s) \<leftarrow> handle_RENDEZVOUS_KV_SET_KEY V database remote_control_message h s;
            Some (False, True, database, num_shut_down, s) }
          else if operation = op_code CLIENT_KV_GET_RENDEZVOUS_FIN then do {
            (r, database, s) \<leftarrow> handle_CLIENT_KV_GET_RENDEZVOUS_FIN V database remote_control_message h s;
            Some (False, True, database, num_shut_down, s) }
          else if operation = op_code CLIENT_KV_GET then do {
            (r, database, s) \<leftarrow> handle_CLIENT_KV_GET V database remote_control_message h s;
            Some (False, True, database, num_shut_down, s) }
          else if operation = op_code CLIENT_KV_SET_RENDEZVOUS_FIN then do {
            (r, database, s) \<leftarrow> handle_CLIENT_KV_SET_RENDEZVOUS_FIN V database remote_control_message h s;
            Some (False, True, database, num_shut_down, s) }
          else Some (False, False, database, num_shut_down, s) }"

text \<open>
  \<open>print_database\<close>: the operation, read uninitialised when the message did not set it, and the
  table. The output itself is not kept.
\<close>

definition show_database :: "int \<Rightarrow> bool \<Rightarrow> KeyValueAddressArray \<Rightarrow> mem \<Rightarrow> unit option" where
  "show_database print_database operation_to_print database m =
     (if print_database = 1 then do {
        _ \<leftarrow> (if operation_to_print then Some () else None);
        _ \<leftarrow> print_dynamic_array database m;
        Some () }
      else Some ())"

text \<open>One pass of the loop body, for client \<open>i\<close>.\<close>

definition serve_client ::
  "('w, 'z) verbs_scheme \<Rightarrow> int \<Rightarrow> nat \<Rightarrow> KVHandle \<Rightarrow> KeyValueAddressArray \<Rightarrow> int \<Rightarrow> 'w pstate \<Rightarrow>
   (bool \<times> KVHandle \<times> KeyValueAddressArray \<times> int \<times> 'w pstate) option" where
  "serve_client V print_database i h database num_shut_down s =
     do { let h = h\<lparr>ctx_index := i\<rparr>;
          (poll_msg_success, msg, h, s) \<leftarrow> get_remote_control_message V h 0 s;
          if poll_msg_success = 1 then Some (False, h, database, num_shut_down, s)
          else do {
            remote_control_message \<leftarrow> msg;
            (finished, operation_to_print, database, num_shut_down, s) \<leftarrow>
              serve_message V remote_control_message h database num_shut_down s;
            if finished then Some (True, h, database, num_shut_down, s)
            else do {
              _ \<leftarrow> show_database print_database operation_to_print database (pmem s);
              Some (False, h, database, num_shut_down, s) } } }"

text \<open>The \<open>for\<close> loop over the clients, from client \<open>i\<close> on, and the endless loop around it.\<close>

function serve_clients ::
  "('w, 'z) verbs_scheme \<Rightarrow> int \<Rightarrow> nat \<Rightarrow> nat \<Rightarrow> KVHandle \<Rightarrow> KeyValueAddressArray \<Rightarrow> int \<Rightarrow> 'w pstate \<Rightarrow>
   (bool \<times> KVHandle \<times> KeyValueAddressArray \<times> int \<times> 'w pstate) option" where
  "serve_clients V print_database n i h database num_shut_down s =
     (if i < n then do {
        (finished, h, database, num_shut_down, s) \<leftarrow> serve_client V print_database i h database num_shut_down s;
        if finished then Some (True, h, database, num_shut_down, s)
        else serve_clients V print_database n (Suc i) h database num_shut_down s }
      else Some (False, h, database, num_shut_down, s))"
  by pat_completeness auto
termination
  by (relation "measure (\<lambda>(V, print_database, n, i, h, database, num_shut_down, s). n - i)") auto

declare serve_clients.simps [simp del]

partial_function (option) server_loop ::
  "('w, 'z) verbs_scheme \<Rightarrow> int \<Rightarrow> KVHandle \<Rightarrow> KeyValueAddressArray \<Rightarrow> int \<Rightarrow> 'w pstate \<Rightarrow>
   (KVHandle \<times> KeyValueAddressArray \<times> 'w pstate) option" where
  "server_loop V print_database h database num_shut_down s =
     do { (finished, h, database, num_shut_down, s) \<leftarrow>
            serve_clients V print_database (nat (num_remote_host h)) 0 h database num_shut_down s;
          if finished then Some (h, database, s)
          else server_loop V print_database h database num_shut_down s }"

definition run_server ::
  "('w, 'z) verbs_scheme \<Rightarrow> int \<Rightarrow> KVHandle \<Rightarrow> 'w pstate \<Rightarrow> (int \<times> KVHandle \<times> 'w pstate) option" where
  "run_server V print_database h s =
     do { let s = set_kv_malloc s;
          let database = initialize_KeyValueAddressArray 20;
          (h, database, s) \<leftarrow> server_loop V print_database h database 0 s;
          Some (0, h, s) }"

end
