(* ===== verification/KV_Store.thy ===== *)
theory KV_Store
  imports KV_Server
begin

text \<open>
  What the server of LowLatencyProtocols/kv_api.c promises: an abstract store, from keys to
  slots, and a step relation \<open>store_step\<close> that says which reply a request may get and how
  it changes the store. The rest relates it to the code's state: \<open>server_ok\<close> is the
  invariant of a server that serves requests (its table, the memory of its keys and values
  and the regions it has registered with the adapter), \<open>store_of\<close> the store it
  represents. \<open>server_frame\<close> captures what library calls and allocations may change, and
  \<open>server_update\<close> is the one lemma from which every handler's effect follows.
\<close>

section \<open>The abstract store\<close>

text \<open>
  A value the server may serve, one a client is reading by RDMA, and one of the given size
  that a client is writing by RDMA.
\<close>

datatype slot = Ready "byte list" | Reading "byte list" | Writing nat

type_synonym store = "byte list \<rightharpoonup> slot"

fun slot_busy :: "slot \<Rightarrow> bool" where
  "slot_busy (Ready bs) = False"
| "slot_busy (Reading bs) = True"
| "slot_busy (Writing n) = True"

fun slot_size :: "slot \<Rightarrow> nat" where
  "slot_size (Ready bs) = length bs"
| "slot_size (Reading bs) = length bs"
| "slot_size (Writing n) = n"

definition key_busy :: "store \<Rightarrow> byte list \<Rightarrow> bool" where
  "key_busy st k \<longleftrightarrow> (case st k of None \<Rightarrow> False | Some x \<Rightarrow> slot_busy x)"

text \<open>
  The end of a transfer: a value that was read is unchanged, one that was written is new. Its
  bytes are up to the client, so here only its size is fixed; that they are those the memory
  holds is \<open>set_fin_stores\<close> in KV_Refinement.
\<close>

fun settles :: "slot \<Rightarrow> byte list \<Rightarrow> bool" where
  "settles (Ready bs) cs \<longleftrightarrow> cs = bs"
| "settles (Reading bs) cs \<longleftrightarrow> cs = bs"
| "settles (Writing n) cs \<longleftrightarrow> length cs = n"

inductive store_step :: "store \<Rightarrow> message \<Rightarrow> message \<Rightarrow> store \<Rightarrow> bool" where
  eager_set: "\<not> key_busy st k \<Longrightarrow> length (v @ 0 # pad) = unat n \<Longrightarrow>
    store_step st (Set_Eager k n v) Set_Successful (st(k \<mapsto> Ready (v @ 0 # pad)))"
| eager_set_busy: "key_busy st k \<Longrightarrow> store_step st (Set_Eager k n v) In_Progress st"
| rendezvous_set: "\<not> key_busy st k \<Longrightarrow>
    store_step st (Set_Rendezvous k n) (Set_Target va rk) (st(k \<mapsto> Writing (unat n)))"
| rendezvous_set_busy: "key_busy st k \<Longrightarrow> store_step st (Set_Rendezvous k n) In_Progress st"
| get_none: "st k = None \<Longrightarrow> store_step st (Get k) Get_Key_Not_Found st"
| get_busy: "key_busy st k \<Longrightarrow> store_step st (Get k) In_Progress st"
| get_eager: "st k = Some (Ready bs) \<Longrightarrow> length bs < 4096 \<Longrightarrow> cstr bs = Some v \<Longrightarrow>
    store_step st (Get k) (Get_Eager v) st"
| get_rendezvous: "st k = Some (Ready bs) \<Longrightarrow> 4096 \<le> length bs \<Longrightarrow> unat n = length bs \<Longrightarrow>
    store_step st (Get k) (Get_Target n va rk) (st(k \<mapsto> Reading bs))"
| set_fin: "st k = Some x \<Longrightarrow> settles x bs \<Longrightarrow>
    store_step st (Set_Fin k) Set_Successful (st(k \<mapsto> Ready bs))"
| get_fin: "st k = Some x \<Longrightarrow> settles x bs \<Longrightarrow>
    store_step st (Get_Fin k) Get_Successful (st(k \<mapsto> Ready bs))"

inductive_cases store_step_eagerE: "store_step st (Set_Eager k n v) reply st'"
inductive_cases store_step_rendezvousE: "store_step st (Set_Rendezvous k n) reply st'"
inductive_cases store_step_getE: "store_step st (Get k) reply st'"
inductive_cases store_step_set_finE: "store_step st (Set_Fin k) reply st'"
inductive_cases store_step_get_finE: "store_step st (Get_Fin k) reply st'"

inductive_simps store_step_get_iff: "store_step st (Get k) reply st'"

text \<open>Whatever a request does to the store, it does to its own key.\<close>

lemma store_step_local: "store_step st req reply st' \<Longrightarrow> k \<noteq> msg_key req \<Longrightarrow> st' k = st k"
  by (induction rule: store_step.induct) auto

text \<open>Only the end of its transfer changes a busy key.\<close>

lemma store_step_busy:
  "store_step st req reply st' \<Longrightarrow> key_busy st k \<Longrightarrow> req \<noteq> Set_Fin k \<Longrightarrow> req \<noteq> Get_Fin k \<Longrightarrow> st' k = st k"
  by (induction rule: store_step.induct) (auto simp: key_busy_def)

section \<open>The server's invariant\<close>

text \<open>The regions registered on a block.\<close>

definition block_regions :: "'w nic_view \<Rightarrow> 'w \<Rightarrow> nat \<Rightarrow> (ibv_mr \<times> ibv_access list) set" where
  "block_regions W w b = {(mr, acc) \<in> nic_mrs W w. pblk (mr_addr mr) = b}"

text \<open>
  The value of an entry is a whole object of the recorded size, not a message buffer, and
  registered exactly while the entry is in progress.
\<close>

definition value_ok :: "'w nic_view \<Rightarrow> 'w pstate \<Rightarrow> KeyValueAddressPair \<Rightarrow> bool" where
  "value_ok W s e \<longleftrightarrow>
     (\<exists>bs. bytes_from (value_address e) (pmem s) = Some bs \<and> length bs = unat (value_size e) \<and> bs \<noteq> []) \<and>
     pblk (value_address e) \<notin> nic_work W \<and>
     (case pair_mr_rdma e of
        None \<Rightarrow> block_regions W (world s) (pblk (value_address e)) = {}
      | Some info \<Rightarrow> \<exists>mr acc. info_mr info = Some mr \<and>
          block_regions W (world s) (pblk (value_address e)) = {(mr, acc)})"

definition key_ok :: "'w nic_view \<Rightarrow> 'w pstate \<Rightarrow> KeyValueAddressPair \<Rightarrow> bool" where
  "key_ok W s e \<longleftrightarrow> pblk (key_address e) \<notin> nic_dma W (world s)"

definition server_ok :: "'w nic_view \<Rightarrow> KeyValueAddressArray \<Rightarrow> 'w pstate \<Rightarrow> bool" where
  "server_ok W A s \<longleftrightarrow>
     array_ok A (pmem s) \<and> mem_ok (pmem s) \<and> mem_avail (pmem s) \<and> kv_malloc s \<noteq> 1 \<and>
     nic_up W (world s) \<and>
     (\<forall>mr acc. (mr, acc) \<in> nic_mrs W (world s) \<longrightarrow> pblk (mr_addr mr) < next_blk (pmem s)) \<and>
     (\<forall>b \<in> nic_work W. b < next_blk (pmem s)) \<and>
     (\<forall>k e. array_map A (pmem s) k = Some e \<longrightarrow> value_ok W s e \<and> key_ok W s e) \<and>
     (\<forall>k e k' e'. array_map A (pmem s) k = Some e \<longrightarrow> array_map A (pmem s) k' = Some e' \<longrightarrow> k \<noteq> k' \<longrightarrow>
        pblk (value_address e) \<noteq> pblk (value_address e'))"

definition slot_of :: "'w nic_view \<Rightarrow> 'w pstate \<Rightarrow> KeyValueAddressPair \<Rightarrow> slot" where
  "slot_of W s e =
     (if pair_mr_rdma e = None then Ready (the (bytes_from (value_address e) (pmem s)))
      else if pblk (value_address e) \<in> nic_dma W (world s) then Writing (unat (value_size e))
      else Reading (the (bytes_from (value_address e) (pmem s))))"

definition store_of :: "'w nic_view \<Rightarrow> KeyValueAddressArray \<Rightarrow> 'w pstate \<Rightarrow> store" where
  "store_of W A s k = map_option (slot_of W s) (array_map A (pmem s) k)"

lemma server_okD:
  assumes "server_ok W A s"
  shows "array_ok A (pmem s)" "mem_ok (pmem s)" "mem_avail (pmem s)" "kv_malloc s \<noteq> 1" "nic_up W (world s)"
    "\<And>mr acc. (mr, acc) \<in> nic_mrs W (world s) \<Longrightarrow> pblk (mr_addr mr) < next_blk (pmem s)"
    "\<And>b. b \<in> nic_work W \<Longrightarrow> b < next_blk (pmem s)"
    "\<And>k e. array_map A (pmem s) k = Some e \<Longrightarrow> value_ok W s e"
    "\<And>k e. array_map A (pmem s) k = Some e \<Longrightarrow> key_ok W s e"
    "\<And>k e k' e'. array_map A (pmem s) k = Some e \<Longrightarrow> array_map A (pmem s) k' = Some e' \<Longrightarrow> k \<noteq> k' \<Longrightarrow>
        pblk (value_address e) \<noteq> pblk (value_address e')"
  using assms unfolding server_ok_def by blast+

lemma nic_dma_regions:
  "b \<in> nic_dma W w \<longleftrightarrow>
     b \<in> nic_work W \<or> (\<exists>mr acc. (mr, acc) \<in> block_regions W w b \<and> IBV_ACCESS_REMOTE_WRITE \<in> set acc)"
  by (auto simp: nic_dma_def block_regions_def)

lemma nic_dma_live: "server_ok W A s \<Longrightarrow> b \<in> nic_dma W (world s) \<Longrightarrow> b < next_blk (pmem s)"
  by (auto simp: nic_dma_def dest: server_okD)

lemma value_live: "value_ok W s e \<Longrightarrow> mem_ok (pmem s) \<Longrightarrow> pblk (value_address e) < next_blk (pmem s)"
  by (auto simp: value_ok_def dest: bytes_from_below)

lemma value_idle_dma: "value_ok W s e \<Longrightarrow> pair_mr_rdma e = None \<Longrightarrow> pblk (value_address e) \<notin> nic_dma W (world s)"
  by (auto simp: value_ok_def nic_dma_regions)

lemma slot_busy_of [simp]: "slot_busy (slot_of W s e) \<longleftrightarrow> pair_mr_rdma e \<noteq> None"
  by (simp add: slot_of_def)

lemma key_busy_store:
  "key_busy (store_of W A s) k \<longleftrightarrow> (\<exists>e. array_map A (pmem s) k = Some e \<and> pair_mr_rdma e \<noteq> None)"
  by (auto simp: key_busy_def store_of_def split: option.splits)

lemma array_map_key_string:
  assumes "array_ok A m" and "array_map A m k = Some e"
  shows "key_string m e = Some k" and "e \<in> set (entry_list A)"
  using assms array_okD(7) [OF assms(1)]
  by (auto simp: array_map_def dest!: map_of_map_Some)

lemma entry_list_map:
  assumes "array_ok A m" and "e \<in> set (entry_list A)"
  shows "array_map A m (the (key_string m e)) = Some e"
proof -
  obtain i where i: "i < length (entry_list A)" "entry_list A ! i = e"
    using assms(2) by (auto simp: in_set_conv_nth)
  let ?l = "map (\<lambda>e. (the (key_string m e), e)) (entry_list A)"
  have "distinct (map fst ?l)" using array_okD(4) [OF assms(1)] by (simp add: comp_def)
  moreover have "(the (key_string m e), e) \<in> set ?l" using assms(2) by simp
  ultimately show ?thesis by (simp add: array_map_def)
qed

lemma key_live:
  assumes "server_ok W A s" and "array_map A (pmem s) k = Some e"
  shows "pblk (key_address e) < next_blk (pmem s)"
  using array_map_key_string(1) [OF server_okD(1) [OF assms(1)] assms(2)] server_okD(2) [OF assms(1)]
  by (auto simp: key_string_def dest!: c_string_live intro: mem_ok_live)

section \<open>What calls and allocations leave alone\<close>

text \<open>
  From \<open>s\<close> to \<open>s'\<close>, live blocks keep their size, and their contents where the adapter has no
  write access; regions change on the blocks \<open>B\<close> only, and at most the blocks \<open>D\<close> become
  writable for the adapter.
\<close>

definition server_frame :: "'w nic_view \<Rightarrow> nat set \<Rightarrow> nat set \<Rightarrow> 'w pstate \<Rightarrow> 'w pstate \<Rightarrow> bool" where
  "server_frame W B D s s' \<longleftrightarrow>
     (\<forall>b < next_blk (pmem s). b \<notin> nic_dma W (world s) \<longrightarrow> blocks (pmem s') b = blocks (pmem s) b) \<and>
     (\<forall>b < next_blk (pmem s). map_option length (blocks (pmem s') b) = map_option length (blocks (pmem s) b)) \<and>
     next_blk (pmem s) \<le> next_blk (pmem s') \<and>
     (mem_ok (pmem s) \<longrightarrow> mem_ok (pmem s')) \<and> (mem_avail (pmem s) \<longrightarrow> mem_avail (pmem s')) \<and>
     vaddr (pmem s') = vaddr (pmem s) \<and>
     kv_malloc s' = kv_malloc s \<and> (nic_up W (world s) \<longrightarrow> nic_up W (world s')) \<and>
     (\<forall>mr acc. pblk (mr_addr mr) \<notin> B \<longrightarrow>
        ((mr, acc) \<in> nic_mrs W (world s') \<longleftrightarrow> (mr, acc) \<in> nic_mrs W (world s))) \<and>
     nic_dma W (world s') \<subseteq> nic_dma W (world s) \<union> D"

lemma server_frameD:
  assumes "server_frame W B D s s'"
  shows "\<And>b. b < next_blk (pmem s) \<Longrightarrow> b \<notin> nic_dma W (world s) \<Longrightarrow>
      blocks (pmem s') b = blocks (pmem s) b"
    "\<And>b. b < next_blk (pmem s) \<Longrightarrow>
      map_option length (blocks (pmem s') b) = map_option length (blocks (pmem s) b)"
    "next_blk (pmem s) \<le> next_blk (pmem s')" "mem_ok (pmem s) \<Longrightarrow> mem_ok (pmem s')"
    "mem_avail (pmem s) \<Longrightarrow> mem_avail (pmem s')" "vaddr (pmem s') = vaddr (pmem s)"
    "kv_malloc s' = kv_malloc s" "nic_up W (world s) \<Longrightarrow> nic_up W (world s')"
    "\<And>mr acc. pblk (mr_addr mr) \<notin> B \<Longrightarrow>
      ((mr, acc) \<in> nic_mrs W (world s')) = ((mr, acc) \<in> nic_mrs W (world s))"
    "nic_dma W (world s') \<subseteq> nic_dma W (world s) \<union> D"
  using assms unfolding server_frame_def by blast+

lemma server_frame_refl [simp]: "server_frame W B D s s"
  by (simp add: server_frame_def)

lemma server_frame_trans:
  assumes 1: "server_frame W B D s s1" and 2: "server_frame W B' D' s1 s2"
    and fresh: "\<forall>b \<in> D. next_blk (pmem s) \<le> b"
  shows "server_frame W (B \<union> B') (D \<union> D') s s2"
proof -
  note D1 = server_frameD [OF 1] and D2 = server_frameD [OF 2]
  have "b \<notin> nic_dma W (world s1)" if "b < next_blk (pmem s)" "b \<notin> nic_dma W (world s)" for b
    using D1(10) fresh that by fastforce
  then have "blocks (pmem s2) b = blocks (pmem s) b"
    if "b < next_blk (pmem s)" "b \<notin> nic_dma W (world s)" for b
    using that D1(1) [OF that] D2(1) [of b] D1(3) by simp
  moreover have "map_option length (blocks (pmem s2) b) = map_option length (blocks (pmem s) b)"
    if "b < next_blk (pmem s)" for b
    using that D1(2) [OF that] D2(2) [of b] D1(3) by simp
  moreover have "nic_dma W (world s2) \<subseteq> nic_dma W (world s) \<union> (D \<union> D')"
    using D1(10) D2(10) by blast
  ultimately show ?thesis
    using D1(3-9) D2(3-9) unfolding server_frame_def by simp
qed

lemma server_frame_mono: "server_frame W B D s s' \<Longrightarrow> B \<subseteq> B' \<Longrightarrow> D \<subseteq> D' \<Longrightarrow> server_frame W B' D' s s'"
  unfolding server_frame_def by blast

lemma nic_callD:
  assumes "nic_call W s s'"
  shows "\<And>b. b \<notin> nic_dma W (world s) \<Longrightarrow> blocks (pmem s') b = blocks (pmem s) b"
    "\<And>b. map_option length (blocks (pmem s') b) = map_option length (blocks (pmem s) b)"
    "next_blk (pmem s') = next_blk (pmem s)" "vaddr (pmem s') = vaddr (pmem s)"
    "mem_ok (pmem s) \<Longrightarrow> mem_ok (pmem s')" "mem_avail (pmem s) \<Longrightarrow> mem_avail (pmem s')"
    "kv_malloc s' = kv_malloc s" "nic_up W (world s')"
proof -
  have fr: "mem_frame (nic_dma W (world s)) (pmem s) (pmem s')" using assms by (simp add: nic_call_def)
  show "mem_ok (pmem s) \<Longrightarrow> mem_ok (pmem s')" "mem_avail (pmem s) \<Longrightarrow> mem_avail (pmem s')"
    by (rule mem_frame_ok [OF fr], assumption) (rule mem_frame_avail [OF fr], assumption)
qed (use assms in \<open>simp_all add: nic_call_def mem_frame_def\<close>)

lemma server_frame_nic_call:
  assumes call: "nic_call W s s'"
    and regions: "\<And>mr acc. pblk (mr_addr mr) \<notin> B \<Longrightarrow>
      ((mr, acc) \<in> nic_mrs W (world s')) = ((mr, acc) \<in> nic_mrs W (world s))"
    and dma: "nic_dma W (world s') \<subseteq> nic_dma W (world s) \<union> D"
  shows "server_frame W B D s s'"
  using nic_callD [OF call] regions dma unfolding server_frame_def by simp

text \<open>Calls of the library: one that leaves the regions alone, (de)registration of a region.\<close>

lemma server_frame_call:
  "nic_call W s s' \<Longrightarrow> nic_mrs W (world s') = nic_mrs W (world s) \<Longrightarrow> server_frame W {} {} s s'"
  by (erule server_frame_nic_call) (simp_all add: nic_dma_cong [of W "world s'" "world s"])

lemma server_frame_register:
  "nic_call W s s' \<Longrightarrow> nic_mrs W (world s') = insert (mr, acc) (nic_mrs W (world s)) \<Longrightarrow>
   server_frame W {pblk (mr_addr mr)}
     (if IBV_ACCESS_REMOTE_WRITE \<in> set acc then {pblk (mr_addr mr)} else {}) s s'"
  by (erule server_frame_nic_call) (auto simp: nic_dma_insert [of W _ mr acc])

lemma server_frame_deregister:
  "nic_call W s s' \<Longrightarrow> nic_mrs W (world s') = {(mr', acc') \<in> nic_mrs W (world s). mr' \<noteq> mr} \<Longrightarrow>
   server_frame W {pblk (mr_addr mr)} {} s s'"
  by (erule server_frame_nic_call) (use nic_dma_mono [of W "world s'" "world s"] in auto)

text \<open>Allocating an object and filling it.\<close>

definition mem_grow :: "mem \<Rightarrow> mem \<Rightarrow> bool" where
  "mem_grow m m' \<longleftrightarrow>
     (\<forall>b < next_blk m. blocks m' b = blocks m b) \<and> next_blk m \<le> next_blk m' \<and>
     (mem_ok m \<longrightarrow> mem_ok m') \<and> (mem_avail m \<longrightarrow> mem_avail m') \<and> vaddr m' = vaddr m"

lemma mem_grow_trans: "mem_grow m m1 \<Longrightarrow> mem_grow m1 m2 \<Longrightarrow> mem_grow m m2"
  by (auto simp: mem_grow_def dest: order_trans)

lemma server_frame_grow: "mem_grow (pmem s) m' \<Longrightarrow> server_frame W {} {} s (s\<lparr>pmem := m'\<rparr>)"
  by (auto simp: server_frame_def mem_grow_def)

lemma mem_grow_malloc: "mem_grow m (snd (c_malloc n m))"
  by (auto simp: mem_grow_def c_malloc_blocks c_malloc_ok c_malloc_avail_after) (simp add: c_malloc_def)+

lemma mem_grow_string:
  "mem_grow m m' \<Longrightarrow> mem_ok m \<Longrightarrow> c_string p m = Some k \<Longrightarrow> c_string p m' = Some k"
  using c_string_cong [of m' p m] c_string_live [of p m k] mem_ok_live
  by (auto simp: mem_grow_def)

lemma mem_grow_bytes:
  "mem_grow m m' \<Longrightarrow> mem_ok m \<Longrightarrow> bytes_from p m = Some bs \<Longrightarrow> bytes_from p m' = Some bs"
  using bytes_from_cong [of m' p m] bytes_from_below [of p m bs]
  by (auto simp: mem_grow_def)

lemma mem_grow_load_u64:
  "mem_grow m m' \<Longrightarrow> mem_ok m \<Longrightarrow> load_u64 p m = Some n \<Longrightarrow> load_u64 p m' = Some n"
  by (auto simp: load_u64_def load_bytes_def bind_eq_Some_conv dest: mem_grow_bytes split: if_splits)

lemma malloc_block:
  assumes "mem_avail m"
  obtains m' where "c_malloc n m = (Ptr (next_blk m) 0, m')" "mem_grow m m'"
    "bytes_from (Ptr (next_blk m) 0) m' = Some (map (junk m (next_blk m)) [0..<n])"
    "next_blk m' = Suc (next_blk m)"
  using c_malloc_avail [OF assms, of n] mem_grow_malloc [of m n]
  by (fastforce simp: bytes_from_def)

text \<open>\<open>malloc\<close> of enough bytes for a string, and \<open>strcpy\<close> of the string into it.\<close>

lemma malloc_strcpy:
  assumes "mem_ok m" and "mem_avail m" and "c_string p m = Some k" and n: "length k < n"
  obtains m1 m' pad where "c_malloc n m = (Ptr (next_blk m) 0, m1)" "mem_grow m m1"
    "c_strcpy (Ptr (next_blk m) 0) p m1 = Some m'" "mem_grow m m'"
    "bytes_from (Ptr (next_blk m) 0) m' = Some (k @ 0 # pad)" "length (k @ 0 # pad) = n"
    "next_blk m' = Suc (next_blk m)"
proof -
  let ?q = "Ptr (next_blk m) 0" and ?j = "map (junk m (next_blk m)) [0..<n]"
  from malloc_block [OF assms(2)] obtain m1 where m1: "c_malloc n m = (?q, m1)" "mem_grow m m1"
    "bytes_from ?q m1 = Some ?j" "next_blk m1 = Suc (next_blk m)" by metis
  from n obtain m' where st: "store_bytes ?q (k @ [0]) m1 = Some m'"
    using store_bytes_defined [OF m1(3), of "k @ [0]"] by auto
  then have copy: "c_strcpy ?q p m1 = Some m'"
    using mem_grow_string [OF m1(2) assms(1,3)] by (simp add: c_strcpy_def)
  from store_bytes_frame [OF st] m1(2,4) have "mem_grow m m'"
    by (fastforce simp: mem_grow_def mem_frame_def intro: mem_frame_ok [OF store_bytes_frame [OF st]]
        mem_frame_avail [OF store_bytes_frame [OF st]])
  moreover have "bytes_from ?q m' = Some (k @ 0 # drop (Suc (length k)) ?j)"
    using bytes_from_store [OF st m1(3)] by simp
  moreover have "next_blk m' = Suc (next_blk m)"
    using store_bytes_frame [OF st] m1(4) by (simp add: mem_frame_def)
  moreover have "length (k @ 0 # drop (Suc (length k)) ?j) = n" using n by simp
  ultimately show ?thesis using that m1(1,2) copy by blast
qed

section \<open>The invariant under change\<close>

lemma block_regions_frame:
  "server_frame W B D s s' \<Longrightarrow> b \<notin> B \<Longrightarrow> block_regions W (world s') b = block_regions W (world s) b"
  using server_frameD(9) by (fastforce simp: block_regions_def)

lemma nic_dma_frame:
  "server_frame W B D s s' \<Longrightarrow> b \<notin> B \<Longrightarrow> b \<in> nic_dma W (world s') \<longleftrightarrow> b \<in> nic_dma W (world s)"
  by (simp add: nic_dma_regions block_regions_frame)

lemma bytes_from_frame_live:
  assumes "server_frame W B D s s'" and "mem_ok (pmem s)" and "bytes_from p (pmem s) = Some bs"
  shows "\<exists>cs. bytes_from p (pmem s') = Some cs \<and> length cs = length bs \<and>
    (pblk p \<notin> nic_dma W (world s) \<longrightarrow> cs = bs)"
proof -
  from assms(3) obtain xs where p: "p = Ptr (pblk p) (poff p)" and xs: "blocks (pmem s) (pblk p) = Some xs"
    "poff p \<le> length xs" "bs = drop (poff p) xs"
    by (cases p) (auto simp: bytes_from_def split: option.splits if_splits)
  note b = bytes_from_below [OF assms(3,2)]
  from server_frameD(2) [OF assms(1) b] xs(1) obtain ys where
    ys: "blocks (pmem s') (pblk p) = Some ys" "length ys = length xs" by auto
  have "bytes_from p (pmem s') = Some (drop (poff p) ys)"
    using ys xs(2) by (subst p) (simp add: bytes_from_def)
  moreover have "ys = xs" if "pblk p \<notin> nic_dma W (world s)"
    using server_frameD(1) [OF assms(1) b that] ys xs by simp
  ultimately show ?thesis using ys xs by simp
qed

lemma value_ok_frame:
  assumes fr: "server_frame W B D s s'" and ok: "mem_ok (pmem s)" and v: "value_ok W s e"
    and B: "pblk (value_address e) \<notin> B"
  shows "value_ok W s' e" and "slot_of W s' e = slot_of W s e"
proof -
  from v obtain bs where bs: "bytes_from (value_address e) (pmem s) = Some bs"
    "length bs = unat (value_size e)" "bs \<noteq> []" by (auto simp: value_ok_def)
  from bytes_from_frame_live [OF fr ok bs(1)] obtain cs where
    cs: "bytes_from (value_address e) (pmem s') = Some cs" "length cs = length bs"
    "pblk (value_address e) \<notin> nic_dma W (world s) \<Longrightarrow> cs = bs" by blast
  show "value_ok W s' e"
    using v bs cs(1,2) block_regions_frame [OF fr B] by (auto simp: value_ok_def split: option.splits)
  show "slot_of W s' e = slot_of W s e"
    using bs cs nic_dma_frame [OF fr B] value_idle_dma [OF v] by (simp add: slot_of_def)
qed

lemma key_string_frame:
  assumes ok: "server_ok W A s" and fr: "server_frame W B D s s'"
    and e: "array_map A (pmem s) k = Some e"
  shows "key_string (pmem s') e = key_string (pmem s) e"
  using server_frameD(1) [OF fr key_live [OF ok e]] server_okD(9) [OF ok e]
  by (intro key_string_cong) (simp add: key_ok_def)

lemma array_frame:
  assumes ok: "server_ok W A s" and fr: "server_frame W B D s s'"
  shows "array_ok A (pmem s')" and "array_map A (pmem s') = array_map A (pmem s)"
proof -
  have same: "key_string (pmem s') e = key_string (pmem s) e" if "e \<in> set (entry_list A)" for e
    using key_string_frame [OF ok fr entry_list_map [OF server_okD(1) [OF ok] that]] .
  from array_cong(1) [of A "pmem s'" "pmem s"] same server_okD(1) [OF ok] show "array_ok A (pmem s')" by simp
  from array_cong(2) [of A "pmem s'" "pmem s"] same show "array_map A (pmem s') = array_map A (pmem s)" by simp
qed

text \<open>
  The state moves from \<open>s\<close> to \<open>s'\<close>, and the entry of one key becomes \<open>e'\<close>: the server stays
  well formed and its store changes at that key only. Regions may change on blocks that no
  other entry uses.
\<close>

lemma server_update:
  assumes ok: "server_ok W A s" and fr: "server_frame W B D s s'"
    and array: "array_ok A' (pmem s')" "array_map A' (pmem s') = (array_map A (pmem s))(k \<mapsto> e')"
    and new: "value_ok W s' e'" "key_ok W s' e'"
    and live: "\<forall>b \<in> B. b < next_blk (pmem s')"
    and other: "\<And>k' e. array_map A (pmem s) k' = Some e \<Longrightarrow> k' \<noteq> k \<Longrightarrow>
      pblk (value_address e) \<notin> insert (pblk (value_address e')) B \<and> pblk (key_address e) \<notin> D"
  shows "server_ok W A' s'" and "store_of W A' s' = (store_of W A s)(k \<mapsto> slot_of W s' e')"
proof -
  note D = server_okD [OF ok] and F = server_frameD [OF fr]
  have old: "value_ok W s' e" "key_ok W s' e" "slot_of W s' e = slot_of W s e"
    if "array_map A (pmem s) k' = Some e" "k' \<noteq> k" for k' e
    using value_ok_frame [OF fr D(2) D(8) [OF that(1)]] D(9) [OF that(1)] other [OF that] F(10)
    by (auto simp: key_ok_def)
  have "pblk (mr_addr mr) < next_blk (pmem s')" if "(mr, acc) \<in> nic_mrs W (world s')" for mr acc
    using that live F(3,9) D(6) [of mr acc] by (cases "pblk (mr_addr mr) \<in> B") fastforce+
  moreover have "b < next_blk (pmem s')" if "b \<in> nic_work W" for b
    using D(7) [OF that] F(3) by simp
  moreover have "value_ok W s' e \<and> key_ok W s' e" if "array_map A' (pmem s') k' = Some e" for k' e
    using that old new array(2) by (auto split: if_splits)
  moreover have "pblk (value_address e1) \<noteq> pblk (value_address e2)"
    if "array_map A' (pmem s') k1 = Some e1" "array_map A' (pmem s') k2 = Some e2" "k1 \<noteq> k2" for k1 k2 e1 e2
    using that array(2) other D(10) by (fastforce split: if_splits)
  ultimately show "server_ok W A' s'"
    using array(1) D F(4,5,7,8) unfolding server_ok_def by metis
  show "store_of W A' s' = (store_of W A s)(k \<mapsto> slot_of W s' e')"
    using array(2) old(3) by (fastforce simp: store_of_def fun_eq_iff map_option_case split: option.splits)
qed

text \<open>Nothing about the store changes when no region of it does.\<close>

lemma server_quiet:
  assumes ok: "server_ok W A s" and fr: "server_frame W B D s s'"
    and live: "\<forall>b \<in> B. b < next_blk (pmem s')"
    and apart: "\<And>k e. array_map A (pmem s) k = Some e \<Longrightarrow>
      pblk (value_address e) \<notin> B \<and> pblk (key_address e) \<notin> D"
  shows "server_ok W A s'" and "store_of W A s' = store_of W A s"
proof -
  note D = server_okD [OF ok] and F = server_frameD [OF fr] and G = array_frame [OF ok fr]
  have old: "value_ok W s' e" "key_ok W s' e" "slot_of W s' e = slot_of W s e"
    if "array_map A (pmem s) k = Some e" for k e
    using value_ok_frame [OF fr D(2) D(8) [OF that]] D(9) [OF that] apart [OF that] F(10)
    by (auto simp: key_ok_def)
  have "pblk (mr_addr mr) < next_blk (pmem s')" if "(mr, acc) \<in> nic_mrs W (world s')" for mr acc
    using that live F(3,9) D(6) [of mr acc] by (cases "pblk (mr_addr mr) \<in> B") fastforce+
  moreover have "b < next_blk (pmem s')" if "b \<in> nic_work W" for b
    using D(7) [OF that] F(3) by simp
  ultimately show "server_ok W A s'"
    using G D F(4,5,7,8) old(1,2) unfolding server_ok_def by metis
  show "store_of W A s' = store_of W A s"
    using G old(3) by (auto simp: store_of_def fun_eq_iff map_option_case split: option.splits)
qed

lemma server_quiet_call:
  assumes "server_ok W A s" and "server_frame W {} {} s s'"
  shows "server_ok W A s'" and "store_of W A s' = store_of W A s"
  using server_quiet [OF assms] by simp_all

text \<open>Inserting an entry that lives in memory no other entry uses.\<close>

lemma server_insert:
  assumes ok: "server_ok W A s" and key: "c_string (key_address e) (pmem s) = Some k"
    and new: "value_ok W s e" "key_ok W s e" and bound: "unat (total_length A) < 2 ^ 58"
    and other: "\<And>k' e'. array_map A (pmem s) k' = Some e' \<Longrightarrow> k' \<noteq> k \<Longrightarrow>
      pblk (value_address e') \<noteq> pblk (value_address e)"
  obtains A' where "insert_to_array (kv_malloc s) A e (pmem s) = Some (A', pmem s)"
    and "server_ok W A' s" and "store_of W A' s = (store_of W A s)(k \<mapsto> slot_of W s e)"
    and "array_map A' (pmem s) k = Some (stored_entry (array_map A (pmem s) k) e)"
proof -
  let ?e = "stored_entry (array_map A (pmem s) k) e"
  from insert_to_array_map [OF server_okD(1) [OF ok] key server_okD(4) [OF ok] bound] obtain A' where
    ins: "insert_to_array (kv_malloc s) A e (pmem s) = Some (A', pmem s)"
    and A': "array_ok A' (pmem s)" "array_map A' (pmem s) = (array_map A (pmem s))(k \<mapsto> ?e)" by blast
  have fields: "value_address ?e = value_address e" "value_size ?e = value_size e"
    "pair_mr_rdma ?e = pair_mr_rdma e"
    by (simp_all add: stored_entry_def split: option.splits)
  then have v: "value_ok W s ?e" "slot_of W s ?e = slot_of W s e"
    using new(1) by (simp_all add: value_ok_def slot_of_def cong: option.case_cong)
  have "key_ok W s ?e"
    using new(2) server_okD(9) [OF ok, of k]
    by (cases "array_map A (pmem s) k") (auto simp: stored_entry_def key_ok_def)
  from server_update [OF ok server_frame_refl [of W "{}" "{}"] A' v(1) this] other fields v(2) that ins A'(2)
  show ?thesis by auto
qed

end
