(* ===== verification/KV_Refinement.thy ===== *)
theory KV_Refinement
  imports KV_Store
begin

text \<open>
  The request handlers of LowLatencyProtocols/kv_api.c implement the abstract store: on a
  well-formed server and an established connection, a handler returns 0, sends exactly one
  control message, and the message and the change of the store are a step of
  \<open>store_step\<close>. An address and key in the message are those of the value of the key. The hypotheses on the peer are those the code relies on (it says "we must
  trust the client"): a value is shorter than the size announced for it, and a FIN names a
  key of the database. What happens when they fail is shown at the end.
\<close>

section \<open>An established connection\<close>

definition nic_ok :: "('w, 'z) verbs_scheme \<Rightarrow> 'w nic_view \<Rightarrow> pingpong_context \<Rightarrow> bool" where
  "nic_ok V W ctx \<longleftrightarrow>
     sends_complete V W (qp ctx) (send_cq ctx) \<and> registers V W (pd ctx) \<and> deregisters V W"

definition session_ok ::
  "('w, 'z) verbs_scheme \<Rightarrow> 'w nic_view \<Rightarrow> KVHandle \<Rightarrow> pingpong_context \<Rightarrow> 'w pstate \<Rightarrow> bool" where
  "session_ok V W h ctx s \<longleftrightarrow>
     handle_ctx h = Some ctx \<and> ctx_ok W ctx s \<and> nic_ok V W ctx \<and>
     mr_control_send_size ctx = int sizeof_ControlMessage"

text \<open>One control message was sent, and it is \<open>msg\<close>, padded to the size of the buffer.\<close>

definition replied :: "'w nic_view \<Rightarrow> 'w pstate \<Rightarrow> 'w pstate \<Rightarrow> message \<Rightarrow> bool" where
  "replied W s s' msg \<longleftrightarrow>
     (\<exists>wr rest. nic_log W (world s') = nic_log W (world s) @ [(wr, message_bytes msg @ rest)])"

text \<open>Memory that was live stays live, with its size: nothing is freed.\<close>

definition keeps_blocks :: "'w pstate \<Rightarrow> 'w pstate \<Rightarrow> bool" where
  "keeps_blocks s s' \<longleftrightarrow> next_blk (pmem s) \<le> next_blk (pmem s') \<and>
     (\<forall>b < next_blk (pmem s). map_option length (blocks (pmem s') b) = map_option length (blocks (pmem s) b))"

lemma keeps_blocks_refl [simp]: "keeps_blocks s s"
  by (simp add: keeps_blocks_def)

lemma keeps_blocks_trans: "keeps_blocks s s1 \<Longrightarrow> keeps_blocks s1 s2 \<Longrightarrow> keeps_blocks s s2"
  by (simp add: keeps_blocks_def)

lemma keeps_blocks_frame: "server_frame W B D s s' \<Longrightarrow> keeps_blocks s s'"
  by (simp add: keeps_blocks_def server_frame_def)

lemma keeps_blocks_bytes:
  assumes "keeps_blocks s s'" and "mem_ok (pmem s)" and "bytes_from p (pmem s) = Some bs"
  obtains cs where "bytes_from p (pmem s') = Some cs" and "length cs = length bs"
proof -
  have "pblk p < next_blk (pmem s)" using bytes_from_below assms(2,3) by blast
  with assms(1) have "map_option length (blocks (pmem s') (pblk p)) = map_option length (blocks (pmem s) (pblk p))"
    by (simp add: keeps_blocks_def)
  with assms(3) show ?thesis
    by (cases p; cases "blocks (pmem s') (pblk p)"; cases "blocks (pmem s) (pblk p)")
      (auto simp: bytes_from_def split: if_splits intro: that)
qed

text \<open>
  An address and a key in a reply are those of the value of the request's key, as the client
  will read them: the value is registered, as a whole, for the access that the client needs.
\<close>

definition exposes ::
  "'w nic_view \<Rightarrow> KeyValueAddressArray \<Rightarrow> 'w pstate \<Rightarrow> byte list \<Rightarrow> ibv_access \<Rightarrow> u64 \<Rightarrow> u32 \<Rightarrow> bool" where
  "exposes W A s k acc va rk \<longleftrightarrow>
     (\<exists>e mr accs. array_map A (pmem s) k = Some e \<and>
        block_regions W (world s) (pblk (value_address e)) = {(mr, accs)} \<and> acc \<in> set accs \<and>
        mr_addr mr = value_address e \<and> mr_length mr = value_size e \<and>
        bswap_64 va = uintptr (pmem s) (value_address e) \<and> ntohl rk = rkey mr)"

fun target_ok :: "'w nic_view \<Rightarrow> KeyValueAddressArray \<Rightarrow> 'w pstate \<Rightarrow> message \<Rightarrow> message \<Rightarrow> bool" where
  "target_ok W A s req (Set_Target va rk) \<longleftrightarrow> exposes W A s (msg_key req) IBV_ACCESS_REMOTE_WRITE va rk"
| "target_ok W A s req (Get_Target n va rk) \<longleftrightarrow> exposes W A s (msg_key req) IBV_ACCESS_REMOTE_READ va rk"
| "target_ok W A s req _ \<longleftrightarrow> True"

text \<open>A handler's promise for the request \<open>req\<close>.\<close>

definition serves ::
  "('w, 'z) verbs_scheme \<Rightarrow> 'w nic_view \<Rightarrow> KVHandle \<Rightarrow> pingpong_context \<Rightarrow> KeyValueAddressArray \<Rightarrow>
   'w pstate \<Rightarrow> message \<Rightarrow> KeyValueAddressArray \<Rightarrow> 'w pstate \<Rightarrow> bool" where
  "serves V W h ctx A s req A' s' \<longleftrightarrow>
     server_ok W A' s' \<and> session_ok V W h ctx s' \<and> keeps_blocks s s' \<and>
     (\<exists>reply. store_step (store_of W A s) req reply (store_of W A' s') \<and> replied W s s' reply \<and>
        target_ok W A' s' req reply)"

lemma ctx_ok_frame:
  assumes fr: "server_frame W B D s s'" and ok: "mem_ok (pmem s)" and ctx: "ctx_ok W ctx s"
    and B: "pblk (mr_control_send_start_ptr ctx) \<notin> B"
  shows "ctx_ok W ctx s'"
proof -
  from ctx obtain mr acc bs where mr: "mr_control_send ctx = Some mr" "(mr, acc) \<in> nic_mrs W (world s)"
    "mr_addr mr = mr_control_send_start_ptr ctx"
    and bs: "bytes_from (mr_control_send_start_ptr ctx) (pmem s) = Some bs"
      "unat (of_int (mr_control_send_size ctx) :: u32) \<le> length bs"
    unfolding ctx_ok_def by blast
  from bytes_from_frame_live [OF fr ok bs(1)] obtain cs where
    "bytes_from (mr_control_send_start_ptr ctx) (pmem s') = Some cs" "length cs = length bs" by blast
  moreover have "(mr, acc) \<in> nic_mrs W (world s')"
    using server_frameD(9) [OF fr, of mr acc] mr B by simp
  ultimately show ?thesis
    using ctx mr bs server_frameD(8) [OF fr] unfolding ctx_ok_def by auto
qed

lemma session_ok_frame:
  "server_frame W B D s s' \<Longrightarrow> mem_ok (pmem s) \<Longrightarrow> session_ok V W h ctx s \<Longrightarrow>
   nic_work W \<inter> B = {} \<Longrightarrow> session_ok V W h ctx s'"
  unfolding session_ok_def
  by (metis (no_types, lifting) ctx_ok_frame ctx_ok_def disjoint_iff)

text \<open>
  Writing a message and sending it: what goes out are the first bytes of the send buffer, as
  many as it is registered with, even when the message is longer and runs into what follows
  the buffer in its block.
\<close>

lemma send_control_message_image:
  assumes S: "session_ok V W h ctx s" and ok: "mem_ok (pmem s)"
    and srcs: "message_srcs msg srcs (pmem s)" "srcs_blocks srcs \<inter> nic_work W = {}"
    and bs: "bytes_from (mr_control_send_start_ptr ctx) (pmem s) = Some bs"
    and fits: "length (message_bytes msg) \<le> length bs"
  obtains s' wr where "send_control_message V h (message_op msg) srcs s = Some (0, s')"
    and "server_frame W {} {} s s'" and "session_ok V W h ctx s'"
    and "nic_log W (world s') = nic_log W (world s) @
      [(wr, take sizeof_ControlMessage (message_bytes msg @ drop (length (message_bytes msg)) bs))]"
proof -
  let ?p = "mr_control_send_start_ptr ctx"
  from S have h: "handle_ctx h = Some ctx" and ctx: "ctx_ok W ctx s"
    and size: "mr_control_send_size ctx = int sizeof_ControlMessage"
    and send: "sends_complete V W (qp ctx) (send_cq ctx)"
    by (auto simp: session_ok_def nic_ok_def)
  have size32: "unat (of_int (int sizeof_ControlMessage) :: u32) = sizeof_ControlMessage"
    by (simp add: sizeof_ControlMessage_def CONTROL_MESSAGE_BUFFER_SIZE_def)
  from ctx bs have len: "sizeof_ControlMessage \<le> length bs" and work: "pblk ?p \<in> nic_work W"
    unfolding ctx_ok_def size size32 by auto
  have disj: "srcs_blocks srcs \<inter> {pblk ?p} = {}" using srcs(2) work by auto
  from set_control_message_bytes [OF h bs fits srcs(1) disj] obtain m where
    set: "set_control_message h (message_op msg) srcs s = Some (s\<lparr>pmem := m\<rparr>)"
    and m: "bytes_from ?p m = Some (message_bytes msg @ drop (length (message_bytes msg)) bs)"
      "mem_frame {pblk ?p} (pmem s) m" by auto
  have frm: "nic_call W s (s\<lparr>pmem := m\<rparr>)"
    using mem_frame_mono [OF m(2)] work nic_work_dma [of W "world s"] ctx
    by (auto simp: nic_call_def ctx_ok_def)
  then have fr1: "server_frame W {} {} s (s\<lparr>pmem := m\<rparr>)" by (rule server_frame_call) simp
  have ctx1: "ctx_ok W ctx (s\<lparr>pmem := m\<rparr>)" by (rule ctx_ok_frame [OF fr1 ok ctx]) simp
  define img where "img = take sizeof_ControlMessage (message_bytes msg @ drop (length (message_bytes msg)) bs)"
  have "sizeof_ControlMessage \<le> length (message_bytes msg @ drop (length (message_bytes msg)) bs)"
    using len fits by simp
  from load_bytes_eq [OF m(1) this] have "control_image ctx m = Some img"
    unfolding control_image_def size img_def by simp
  with post_send_and_poll [OF send ctx1] obtain s1 s2 wr where
    sent: "pp_post_send V ctx (s\<lparr>pmem := m\<rparr>) = Some (0, s1)" "poll_n_send_wc V ctx 1 s1 = Some (0, s2)"
    and call: "nic_call W (s\<lparr>pmem := m\<rparr>) s2" and mrs: "nic_mrs W (world s2) = nic_mrs W (world s)"
    and log: "nic_log W (world s2) = nic_log W (world s) @ [(wr, img)]"
    by auto
  have "server_frame W {} {} (s\<lparr>pmem := m\<rparr>) s2" using call mrs by (intro server_frame_call) simp_all
  from server_frame_trans [OF fr1 this] have fr: "server_frame W {} {} s s2" by simp
  show ?thesis
  proof (rule that)
    show "send_control_message V h (message_op msg) srcs s = Some (0, s2)"
      using set h sent by (simp add: send_control_message_def)
    show "session_ok V W h ctx s2" using session_ok_frame [OF fr ok S] by simp
  qed (use fr log in \<open>simp_all add: img_def\<close>)
qed

lemma send_control_message_sends:
  assumes S: "session_ok V W h ctx s" and ok: "mem_ok (pmem s)"
    and srcs: "message_srcs msg srcs (pmem s)" "srcs_blocks srcs \<inter> nic_work W = {}"
    and fits: "length (message_bytes msg) \<le> sizeof_ControlMessage"
  obtains s' where "send_control_message V h (message_op msg) srcs s = Some (0, s')"
    and "server_frame W {} {} s s'" and "session_ok V W h ctx s'" and "replied W s s' msg"
proof -
  have size32: "unat (of_int (int sizeof_ControlMessage) :: u32) = sizeof_ControlMessage"
    by (simp add: sizeof_ControlMessage_def CONTROL_MESSAGE_BUFFER_SIZE_def)
  from S have ctx: "ctx_ok W ctx s" and size: "mr_control_send_size ctx = int sizeof_ControlMessage"
    by (auto simp: session_ok_def)
  from ctx obtain bs where bs: "bytes_from (mr_control_send_start_ptr ctx) (pmem s) = Some bs"
    "sizeof_ControlMessage \<le> length bs"
    unfolding ctx_ok_def size size32 by blast
  with fits have "length (message_bytes msg) \<le> length bs" by simp
  from send_control_message_image [OF S ok srcs bs(1) this] obtain s' wr where
    s': "send_control_message V h (message_op msg) srcs s = Some (0, s')" "server_frame W {} {} s s'"
      "session_ok V W h ctx s'"
      "nic_log W (world s') = nic_log W (world s) @
        [(wr, take sizeof_ControlMessage (message_bytes msg @ drop (length (message_bytes msg)) bs))]" .
  moreover have "replied W s s' msg" using s'(4) fits by (auto simp: replied_def)
  ultimately show ?thesis using that by blast
qed

text \<open>The last step of a handler: the database is updated, the reply goes out.\<close>

lemma reply_after:
  assumes S: "session_ok V W h ctx s1" and ok: "server_ok W A1 s1"
    and step: "store_step (store_of W A s) req reply (store_of W A1 s1)"
    and log: "nic_log W (world s1) = nic_log W (world s)" and keep: "keeps_blocks s s1"
    and plain: "\<And>A s. target_ok W A s req reply"
    and srcs: "message_srcs reply srcs (pmem s1)" "srcs_blocks srcs \<inter> nic_work W = {}"
    and fits: "length (message_bytes reply) \<le> sizeof_ControlMessage"
  obtains s' where "send_control_message V h (message_op reply) srcs s1 = Some (0, s')"
    and "serves V W h ctx A s req A1 s'"
proof -
  from send_control_message_sends [OF S server_okD(2) [OF ok] srcs fits] obtain s' where
    s': "send_control_message V h (message_op reply) srcs s1 = Some (0, s')"
    "server_frame W {} {} s1 s'" "session_ok V W h ctx s'" "replied W s1 s' reply" .
  with server_quiet_call [OF ok s'(2)] step log keeps_blocks_trans [OF keep keeps_blocks_frame [OF s'(2)]] plain
  have "serves V W h ctx A s req A1 s'"
    by (auto simp: serves_def replied_def)
  with s'(1) show ?thesis using that by blast
qed

lemma in_progress_busy:
  assumes ok: "server_ok W A s" and key: "c_string p (pmem s) = Some k"
  obtains r where "get_KeyValueAddressPair A p (pmem s) = Some r"
    and "in_progress A r = Some (key_busy (store_of W A s) k)"
    and "Option.bind r (entry_at A) = array_map A (pmem s) k" and "r = None \<longleftrightarrow> array_map A (pmem s) k = None"
proof -
  from get_KeyValueAddressPair_map [OF server_okD(1) [OF ok] key] obtain r where
    r: "get_KeyValueAddressPair A p (pmem s) = Some r" "Option.bind r (entry_at A) = array_map A (pmem s) k"
    "r = None \<longleftrightarrow> array_map A (pmem s) k = None" by (elim exE conjE) (rule that)
  have "in_progress A r = Some (key_busy (store_of W A s) k)"
    using r(2,3) by (cases r; cases "array_map A (pmem s) k") (simp_all add: in_progress_def key_busy_store)
  from that [OF r(1) this r(2,3)] show ?thesis .
qed

lemmas short_reply = length_message_bytes sizeof_ControlMessage_def CONTROL_MESSAGE_BUFFER_SIZE_def srcs_blocks_def

lemma reply_in_progress:
  assumes "session_ok V W h ctx s" and "server_ok W A s"
    and "store_step (store_of W A s) req In_Progress (store_of W A s)"
  obtains s' where "send_control_message V h SERVER_IN_PROGRESS [] s = Some (0, s')"
    and "serves V W h ctx A s req A s'"
  using reply_after [OF assms refl keeps_blocks_refl, of "[]"] by (auto simp: short_reply)

section \<open>The eager set\<close>

text \<open>Objects allocated after \<open>s\<close> are unknown to the adapter.\<close>

lemma fresh_block:
  assumes "server_ok W A s" and "next_blk (pmem s) \<le> b"
  shows "b \<notin> nic_work W" "block_regions W (world s) b = {}" "b \<notin> nic_dma W (world s)"
proof -
  show dma: "b \<notin> nic_dma W (world s)" using nic_dma_live [OF assms(1), of b] assms(2) by auto
  then show "b \<notin> nic_work W" using nic_work_dma [of W "world s"] by blast
  show "block_regions W (world s) b = {}"
    using server_okD(6) [OF assms(1)] assms(2) by (fastforce simp: block_regions_def)
qed

lemma value_below:
  "server_ok W A s \<Longrightarrow> array_map A (pmem s) k = Some e \<Longrightarrow> pblk (value_address e) < next_blk (pmem s)"
  using server_okD(2,8) value_live by blast

lemma c_strlen_string: "c_string p m = Some k \<Longrightarrow> c_strlen p m = Some (length k)"
  by (simp add: c_strlen_def)

lemma eager_set_stores:
  assumes S: "session_ok V W h ctx s" and ok: "server_ok W A s"
    and req: "message_at p (Set_Eager k n v) (pmem s)" and size: "length v < unat n"
    and bound: "unat (total_length A) < 2 ^ 58"
  shows "\<exists>A' s'. handle_EAGER_KV_SET V A p h s = Some (0, A', s') \<and>
    serves V W h ctx A s (Set_Eager k n v) A' s'"
proof -
  from req obtain q1 q2 where
    dec: "decode_control_message_buffer CLIENT_KV_SET_EAGER (message_buf p) (pmem s) =
      Some [message_buf p, q1, q2]" and key: "c_string (message_buf p) (pmem s) = Some k"
    and len: "load_u64 q1 (pmem s) = Some n" and val: "c_string q2 (pmem s) = Some v"
    by (rule decode_Set_Eager)
  from in_progress_busy [OF ok key] obtain r where
    r: "get_KeyValueAddressPair A (message_buf p) (pmem s) = Some r"
      "in_progress A r = Some (key_busy (store_of W A s) k)" .
  note D = server_okD [OF ok]
  show ?thesis
  proof (cases "key_busy (store_of W A s) k")
    case True
    from reply_in_progress [OF S ok eager_set_busy [OF True, of n v]] obtain s' where
      "send_control_message V h SERVER_IN_PROGRESS [] s = Some (0, s')"
      "serves V W h ctx A s (Set_Eager k n v) A s'" .
    with dec r True show ?thesis by (simp add: handle_EAGER_KV_SET_def)
  next
    case False
    let ?b = "next_blk (pmem s)" and ?c = "Suc (next_blk (pmem s))"
    from malloc_strcpy [OF D(2,3) key less_add_one] obtain m1 m2 pad1 where
      k1: "c_malloc (length k + 1) (pmem s) = (Ptr ?b 0, m1)" "mem_grow (pmem s) m1"
        "c_strcpy (Ptr ?b 0) (message_buf p) m1 = Some m2"
      and g2: "mem_grow (pmem s) m2" and kb: "bytes_from (Ptr ?b 0) m2 = Some (k @ 0 # pad1)"
        "length (k @ 0 # pad1) = length k + 1" and n2: "next_blk m2 = ?c" .
    have ok2: "mem_ok m2" "mem_avail m2" using g2 D(2,3) by (simp_all add: mem_grow_def)
    from malloc_strcpy [OF ok2 mem_grow_string [OF g2 D(2) val] size, unfolded n2] obtain m3 m4 pad where
      v1: "c_malloc (unat n) m2 = (Ptr ?c 0, m3)" "mem_grow m2 m3"
        "c_strcpy (Ptr ?c 0) q2 m3 = Some m4"
      and g4: "mem_grow m2 m4" and vb: "bytes_from (Ptr ?c 0) m4 = Some (v @ 0 # pad)"
      and vl: "length (v @ 0 # pad) = unat n" and "next_blk m4 = Suc ?c" .
    let ?e = "\<lparr>key_address = Ptr ?b 0, value_address = Ptr ?c 0, value_size = n, pair_mr_rdma = None\<rparr>"
    let ?s = "s\<lparr>pmem := m4\<rparr>"
    have fr: "server_frame W {} {} s ?s" by (rule server_frame_grow [OF mem_grow_trans [OF g2 g4]])
    note ok4 = server_quiet_call [OF ok fr]
    have "0 \<notin> set k" using req by (simp add: message_at_def message_wf_def)
    with mem_grow_bytes [OF g4 ok2(1) kb(1)] have key4: "c_string (key_address ?e) (pmem ?s) = Some k"
      by (simp add: c_string_at)
    have "value_ok W ?s ?e" "key_ok W ?s ?e"
      using vb vl fresh_block [OF ok, of ?c] fresh_block [OF ok, of ?b]
      by (simp_all add: value_ok_def key_ok_def)
    moreover have "pblk (value_address e') \<noteq> pblk (value_address ?e)"
      if "array_map A (pmem ?s) k' = Some e'" for k' e'
      using that value_below [OF ok] array_frame(2) [OF ok fr] by fastforce
    ultimately obtain A' where ins: "insert_to_array (kv_malloc ?s) A ?e (pmem ?s) = Some (A', pmem ?s)"
      and A': "server_ok W A' ?s" "store_of W A' ?s = (store_of W A ?s)(k \<mapsto> slot_of W ?s ?e)"
      using server_insert [OF ok4(1) key4 _ _ bound] by metis
    have "slot_of W ?s ?e = Ready (v @ 0 # pad)" using vb by (simp add: slot_of_def)
    with A'(2) ok4(2) eager_set [OF False vl]
    have step: "store_step (store_of W A s) (Set_Eager k n v) Set_Successful (store_of W A' ?s)" by simp
    have S4: "session_ok V W h ctx ?s" by (rule session_ok_frame [OF fr D(2) S]) simp
    from reply_after [OF S4 A'(1) step _ keeps_blocks_frame [OF fr], of "[]"] obtain s' where
      "send_control_message V h SERVER_KV_SET_SUCCESSFUL [] ?s = Some (0, s')"
      "serves V W h ctx A s (Set_Eager k n v) A' s'" by (auto simp: short_reply)
    with dec r False k1 v1 ins c_strlen_string [OF key] mem_grow_load_u64 [OF g2 D(2) len]
    show ?thesis by (simp add: handle_EAGER_KV_SET_def)
  qed
qed

section \<open>The get\<close>

text \<open>
  The rendezvous answer: the value is registered for reading, its address and key are sent,
  and the entry is marked. The database changes after the message is out.
\<close>

lemma register_value:
  assumes reg: "registers V W pdom" and up: "nic_up W (world s)"
    and bs: "bytes_from q (pmem s) = Some bs" "length bs = unat n" "bs \<noteq> []"
    and none: "block_regions W (world s) (pblk q) = {}"
  obtains mr s' where "ibv_reg_mr V pdom q n acc s = (Some mr, s')" "mr_addr mr = q" "mr_length mr = n"
    "server_frame W {pblk q} (if IBV_ACCESS_REMOTE_WRITE \<in> set acc then {pblk q} else {}) s s'"
    "block_regions W (world s') (pblk q) = {(mr, acc)}" "nic_log W (world s') = nic_log W (world s)"
proof -
  have "0 < n" using bs(2,3) by (cases "n = 0") (simp_all add: word_neq_0_conv)
  with reg up bs obtain mr s' where r: "ibv_reg_mr V pdom q n acc s = (Some mr, s')" "mr_addr mr = q"
    "nic_mrs W (world s') = insert (mr, acc) (nic_mrs W (world s))" "nic_call W s s'"
    "nic_log W (world s') = nic_log W (world s)" "mr_length mr = n"
    unfolding registers_def by (metis order_refl)
  have "block_regions W (world s') (pblk q) = {(mr, acc)}"
    using none r(2,3) by (auto simp: block_regions_def)
  with r server_frame_register [OF r(4,3)] show ?thesis using that by auto
qed

text \<open>Registering a value and sending the peer the message \<open>msg\<close> that names the region.\<close>

lemma register_and_send:
  assumes S: "session_ok V W h ctx s" and ok: "mem_ok (pmem s)"
    and bs: "bytes_from q (pmem s) = Some bs" "length bs = unat n" "bs \<noteq> []"
    and none: "block_regions W (world s) (pblk q) = {}" and nwork: "pblk q \<notin> nic_work W"
    and srcs: "\<And>mr m. message_srcs (msg mr) (srcs mr) m" "\<And>mr. srcs_blocks (srcs mr) = {}"
    and fits: "\<And>mr. length (message_bytes (msg mr)) \<le> sizeof_ControlMessage"
  obtains mr s1 s2 where "ibv_reg_mr V (pd ctx) q n acc s = (Some mr, s1)"
    "uintptr (pmem s1) q = uintptr (pmem s) q"
    "send_control_message V h (message_op (msg mr)) (srcs mr) s1 = Some (0, s2)"
    "server_frame W {pblk q} (if IBV_ACCESS_REMOTE_WRITE \<in> set acc then {pblk q} else {}) s s1"
    "server_frame W {} {} s1 s2" "block_regions W (world s2) (pblk q) = {(mr, acc)}"
    "session_ok V W h ctx s2" "replied W s s2 (msg mr)" "mr_addr mr = q" "mr_length mr = n"
    "uintptr (pmem s2) q = uintptr (pmem s) q"
proof -
  let ?D = "if IBV_ACCESS_REMOTE_WRITE \<in> set acc then {pblk q} else {}"
  from S have nic: "registers V W (pd ctx)" and up: "nic_up W (world s)"
    by (auto simp: session_ok_def nic_ok_def ctx_ok_def)
  from register_value [OF nic up bs none, of acc] obtain mr s1 where
    r: "ibv_reg_mr V (pd ctx) q n acc s = (Some mr, s1)" "mr_addr mr = q" "mr_length mr = n"
    and fr1: "server_frame W {pblk q} ?D s s1" and regs: "block_regions W (world s1) (pblk q) = {(mr, acc)}"
    and log: "nic_log W (world s1) = nic_log W (world s)" .
  have S1: "session_ok V W h ctx s1" by (rule session_ok_frame [OF fr1 ok S]) (use nwork in simp)
  have "srcs_blocks (srcs mr) \<inter> nic_work W = {}" using srcs(2) by simp
  from send_control_message_sends [OF S1 server_frameD(4) [OF fr1 ok] srcs(1) this fits] obtain s2 where
    snd: "send_control_message V h (message_op (msg mr)) (srcs mr) s1 = Some (0, s2)"
    and fr2: "server_frame W {} {} s1 s2" and S2: "session_ok V W h ctx s2" and rep: "replied W s1 s2 (msg mr)" .
  have "uintptr (pmem s1) q = uintptr (pmem s) q" using server_frameD(6) [OF fr1] by (cases q) simp_all
  moreover have "block_regions W (world s2) (pblk q) = {(mr, acc)}" using block_regions_frame [OF fr2] regs by simp
  moreover have "replied W s s2 (msg mr)" using rep log by (simp add: replied_def)
  moreover have "uintptr (pmem s2) q = uintptr (pmem s) q"
    using server_frameD(6) [OF fr1] server_frameD(6) [OF fr2] by (cases q) simp_all
  ultimately show ?thesis using that [OF r(1) _ snd fr1 fr2 _ S2] r(2,3) by blast
qed

lemma get_large_value:
  assumes S: "session_ok V W h ctx s" and ok: "server_ok W A s"
    and req: "message_at p (Get k) (pmem s)"
    and e: "array_map A (pmem s) k = Some e" "pair_mr_rdma e = None"
    and large: "4096 \<le> unat (value_size e)"
  shows "\<exists>A' s'. handle_CLIENT_KV_GET V A p h s = Some (0, A', s') \<and> serves V W h ctx A s (Get k) A' s'"
proof -
  note D = server_okD [OF ok]
  let ?q = "value_address e" and ?acc = "[IBV_ACCESS_LOCAL_WRITE, IBV_ACCESS_REMOTE_READ]"
  from decode_one_string [OF req] have
    dec: "decode_control_message_buffer CLIENT_KV_GET (message_buf p) (pmem s) = Some [message_buf p]"
    and key: "c_string (message_buf p) (pmem s) = Some k" by simp_all
  from find_key_Some [OF D(1) key e(1)] obtain i where
    i: "get_KeyValueAddressPair A (message_buf p) (pmem s) = Some (Some i)" "i < unat (used_length A)"
      "entry_at A i = Some e" "entry_list A ! i = e" "key_string (pmem s) e = Some k"
    by (auto simp: get_KeyValueAddressPair_def)
  from D(8) [OF e(1)] e(2) obtain bs where
    bs: "bytes_from ?q (pmem s) = Some bs" "length bs = unat (value_size e)" "bs \<noteq> []"
    and none: "block_regions W (world s) (pblk ?q) = {}" and nwork: "pblk ?q \<notin> nic_work W"
    by (auto simp: value_ok_def)
  from S have h: "handle_ctx h = Some ctx" by (simp add: session_ok_def)
  define va where "va = bswap_64 (uintptr (pmem s) ?q)"
  define srcs where "srcs mr = [Var (bytes64 (value_size e)), Var (bytes64 va), Var (bytes32 (htonl (rkey mr)))]"
    for mr :: ibv_mr
  define msg where "msg mr = Get_Target (value_size e) va (htonl (rkey mr))" for mr :: ibv_mr
  from register_and_send [OF S D(2) bs none nwork, of msg srcs ?acc] obtain mr s1 s2 where
    r: "ibv_reg_mr V (pd ctx) ?q (value_size e) ?acc s = (Some mr, s1)"
      "uintptr (pmem s1) ?q = uintptr (pmem s) ?q"
    and snd: "send_control_message V h SERVER_KV_GET_RENDEZVOUS (srcs mr) s1 = Some (0, s2)"
    and fr1: "server_frame W {pblk ?q} {} s s1" and fr2: "server_frame W {} {} s1 s2"
    and regs: "block_regions W (world s2) (pblk ?q) = {(mr, ?acc)}"
    and S2: "session_ok V W h ctx s2" and rep: "replied W s s2 (msg mr)"
    and mr: "mr_addr mr = ?q" "mr_length mr = value_size e" "uintptr (pmem s2) ?q = uintptr (pmem s) ?q"
    by (auto simp: short_reply srcs_def msg_def)
  from server_frame_trans [OF fr1 fr2] have fr: "server_frame W {pblk ?q} {} s s2" by simp
  define info where "info = \<lparr>info_mr = Some mr, mr_start_ptr = ?q, mr_size = value_size e, mr_status = RDMA\<rparr>"
  define e' where "e' = e\<lparr>pair_mr_rdma := Some info\<rparr>"
  define A' where "A' = A\<lparr>head := (head A)[i := Some e']\<rparr>"
  have handled: "handle_CLIENT_KV_GET V A p h s = Some (0, A', s2)"
    using dec i(1,3) e(2) large h r snd
    by (simp add: handle_CLIENT_KV_GET_def CONTROL_MESSAGE_BUFFER_SIZE_def A'_def e'_def info_def
        srcs_def va_def)
  have quiet: "pblk ?q \<notin> nic_dma W (world s2)" using nwork regs by (simp add: nic_dma_regions)
  from bytes_from_frame_live [OF fr D(2) bs(1)] value_idle_dma [OF D(8) [OF e(1)] e(2)]
  have bs2: "bytes_from ?q (pmem s2) = Some bs" by auto
  have new: "value_ok W s2 e'" "key_ok W s2 e'"
    using bs2 bs regs nwork D(9) [OF e(1)] server_frameD(10) [OF fr]
    by (auto simp: value_ok_def key_ok_def e'_def info_def)
  have ks: "key_string (pmem s2) e' = Some k" "key_string (pmem s2) (entry_list A ! i) = Some k"
    using key_string_frame [OF ok fr e(1)] i(4,5) by (simp_all add: e'_def key_string_def)
  from array_ok_replace [OF array_frame(1) [OF ok fr] i(2), of e'] ks array_frame(2) [OF ok fr]
  have A': "array_ok A' (pmem s2)" "array_map A' (pmem s2) = (array_map A (pmem s))(k \<mapsto> e')"
    by (simp_all add: A'_def)
  have other: "pblk (value_address e1) \<notin> insert (pblk (value_address e')) {pblk ?q} \<and>
      pblk (key_address e1) \<notin> {}" if "array_map A (pmem s) k' = Some e1" "k' \<noteq> k" for k' e1
    using D(10) [OF that(1) e(1) that(2)] by (simp add: e'_def)
  have live: "\<forall>b \<in> {pblk ?q}. b < next_blk (pmem s2)"
    using value_below [OF ok e(1)] server_frameD(3) [OF fr] by simp
  have upd: "server_ok W A' s2" "store_of W A' s2 = (store_of W A s)(k \<mapsto> slot_of W s2 e')"
    using server_update [OF ok fr A' new] other live by blast+
  have sl: "slot_of W s2 e' = Reading bs" and st: "store_of W A s k = Some (Ready bs)"
    using quiet bs2 bs(1) e by (simp_all add: slot_of_def e'_def store_of_def)
  have "store_step (store_of W A s) (Get k) (msg mr) (store_of W A' s2)"
    unfolding upd(2) sl msg_def by (rule get_rendezvous [where st = "store_of W A s", OF st])
      (use large bs(2) in simp_all)
  moreover have "target_ok W A' s2 (Get k) (msg mr)"
    using A'(2) regs mr by (auto simp: msg_def exposes_def e'_def va_def)
  ultimately show ?thesis using handled upd(1) S2 rep keeps_blocks_frame [OF fr] by (auto simp: serves_def)
qed

lemma get_serves:
  assumes S: "session_ok V W h ctx s" and ok: "server_ok W A s"
    and req: "message_at p (Get k) (pmem s)"
    and short: "\<And>bs. store_of W A s k = Some (Ready bs) \<Longrightarrow> length bs < 4096 \<Longrightarrow> cstr bs \<noteq> None"
  shows "\<exists>A' s'. handle_CLIENT_KV_GET V A p h s = Some (0, A', s') \<and> serves V W h ctx A s (Get k) A' s'"
proof -
  note D = server_okD [OF ok]
  from decode_one_string [OF req] have
    dec: "decode_control_message_buffer CLIENT_KV_GET (message_buf p) (pmem s) = Some [message_buf p]"
    and key: "c_string (message_buf p) (pmem s) = Some k" by simp_all
  show ?thesis
  proof (cases "array_map A (pmem s) k")
    case None
    with find_key_None [OF D(1) key] have f: "get_KeyValueAddressPair A (message_buf p) (pmem s) = Some None"
      by (simp add: get_KeyValueAddressPair_def)
    have "store_step (store_of W A s) (Get k) Get_Key_Not_Found (store_of W A s)"
      using None by (intro get_none) (simp add: store_of_def)
    from reply_after [OF S ok this refl keeps_blocks_refl, of "[]"] obtain s' where
      "send_control_message V h SERVER_KV_GET_KEY_NOT_FOUND [] s = Some (0, s')"
      "serves V W h ctx A s (Get k) A s'" by (auto simp: short_reply)
    with dec f show ?thesis by (simp add: handle_CLIENT_KV_GET_def)
  next
    case (Some e)
    from find_key_Some [OF D(1) key Some] obtain i where
      f: "get_KeyValueAddressPair A (message_buf p) (pmem s) = Some (Some i)" "entry_at A i = Some e"
      by (auto simp: get_KeyValueAddressPair_def)
    consider (busy) "pair_mr_rdma e \<noteq> None" | (small) "pair_mr_rdma e = None" "unat (value_size e) < 4096"
      | (large) "pair_mr_rdma e = None" "4096 \<le> unat (value_size e)" by linarith
    then show ?thesis
    proof cases
      case busy
      then have "key_busy (store_of W A s) k" using Some by (simp add: key_busy_store)
      from reply_in_progress [OF S ok get_busy [OF this]] obtain s' where
        "send_control_message V h SERVER_IN_PROGRESS [] s = Some (0, s')"
        "serves V W h ctx A s (Get k) A s'" .
      with dec f busy show ?thesis by (auto simp: handle_CLIENT_KV_GET_def)
    next
      case small
      from D(8) [OF Some] obtain bs where
        bs: "bytes_from (value_address e) (pmem s) = Some bs" "length bs = unat (value_size e)"
        and nwork: "pblk (value_address e) \<notin> nic_work W"
        by (auto simp: value_ok_def)
      then have st: "store_of W A s k = Some (Ready bs)"
        using Some small by (simp add: store_of_def slot_of_def)
      with short bs(2) small obtain v where v: "cstr bs = Some v" by fastforce
      then have str: "c_string (value_address e) (pmem s) = Some v" using bs by (simp add: c_string_def)
      have "store_step (store_of W A s) (Get k) (Get_Eager v) (store_of W A s)"
        using get_eager [where st = "store_of W A s", OF st _ v] bs(2) small by simp
      from reply_after [OF S ok this refl keeps_blocks_refl, of "[At (value_address e)]"] str nwork cstr_length [OF v] bs(2) small
      obtain s' where
        "send_control_message V h SERVER_KV_GET_EAGER [At (value_address e)] s = Some (0, s')"
        "serves V W h ctx A s (Get k) A s'" by (auto simp: short_reply)
      with dec f small c_strlen_string [OF str] show ?thesis
        by (simp add: handle_CLIENT_KV_GET_def CONTROL_MESSAGE_BUFFER_SIZE_def)
    next
      case large
      with get_large_value [OF S ok req Some] show ?thesis by simp
    qed
  qed
qed

section \<open>The rendezvous set\<close>

text \<open>
  The key is copied, an object for the value is allocated and registered for the client to
  write, its address is sent, and only then is the entry inserted.
\<close>

lemma insert_open_value:
  assumes ok: "server_ok W A s" and fr: "server_frame W {c} {c} s s2"
    and c: "next_blk (pmem s) \<le> c" "c < next_blk (pmem s2)"
    and key: "c_string kp (pmem s2) = Some k" "pblk kp \<notin> nic_dma W (world s2)"
    and cs: "bytes_from (Ptr c 0) (pmem s2) = Some cs" "length cs = unat n" "0 < n"
    and regs: "block_regions W (world s2) c = {(mr, acc)}" "IBV_ACCESS_REMOTE_WRITE \<in> set acc"
    and bound: "unat (total_length A) < 2 ^ 58" and info: "info_mr info = Some mr"
  obtains A' where "insert_to_array (kv_malloc s2) A
      \<lparr>key_address = kp, value_address = Ptr c 0, value_size = n, pair_mr_rdma = Some info\<rparr> (pmem s2) =
      Some (A', pmem s2)"
    "server_ok W A' s2" "store_of W A' s2 = (store_of W A s)(k \<mapsto> Writing (unat n))"
    "\<exists>e. array_map A' (pmem s2) k = Some e \<and> value_address e = Ptr c 0 \<and> value_size e = n"
proof -
  let ?e = "\<lparr>key_address = kp, value_address = Ptr c 0, value_size = n, pair_mr_rdma = Some info\<rparr>"
  have apart: "pblk (value_address e) \<notin> {c} \<and> pblk (key_address e) \<notin> {c}"
    if "array_map A (pmem s) k' = Some e" for k' e
    using value_below [OF ok that] key_live [OF ok that] c by simp
  have live: "\<forall>b \<in> {c}. b < next_blk (pmem s2)" using c by simp
  have ok2: "server_ok W A s2" by (rule server_quiet(1) [OF ok fr live apart])
  have st2: "store_of W A s2 = store_of W A s" by (rule server_quiet(2) [OF ok fr live apart])
  have "unat n \<noteq> 0" using cs(3) by (simp add: unat_eq_0 word_neq_0_conv)
  then have new: "value_ok W s2 ?e" "key_ok W s2 ?e"
    using cs(1,2) regs fresh_block(1) [OF ok c(1)] key(2) info by (auto simp: value_ok_def key_ok_def)
  have other: "pblk (value_address e') \<noteq> pblk (value_address ?e)"
    if "array_map A (pmem s2) k' = Some e'" for k' e'
    using that apart array_frame(2) [OF ok fr] by fastforce
  have sl: "slot_of W s2 ?e = Writing (unat n)"
    using regs by (auto simp: slot_of_def nic_dma_regions)
  have key': "c_string (key_address ?e) (pmem s2) = Some k" using key(1) by simp
  from server_insert [OF ok2 key' new bound other] obtain A' where
    "insert_to_array (kv_malloc s2) A ?e (pmem s2) = Some (A', pmem s2)" "server_ok W A' s2"
    "store_of W A' s2 = (store_of W A s2)(k \<mapsto> slot_of W s2 ?e)"
    and map: "array_map A' (pmem s2) k = Some (stored_entry (array_map A (pmem s2) k) ?e)" .
  moreover have "\<exists>e. array_map A' (pmem s2) k = Some e \<and> value_address e = Ptr c 0 \<and> value_size e = n"
    unfolding map by (auto simp: stored_entry_def split: option.splits)
  ultimately show ?thesis using that unfolding sl st2 by blast
qed

lemma rendezvous_set_opens:
  assumes S: "session_ok V W h ctx s" and ok: "server_ok W A s"
    and req: "message_at p (Set_Rendezvous k n) (pmem s)" and size: "0 < n"
    and bound: "unat (total_length A) < 2 ^ 58"
  shows "\<exists>A' s'. handle_RENDEZVOUS_KV_SET_KEY V A p h s = Some (0, A', s') \<and>
    serves V W h ctx A s (Set_Rendezvous k n) A' s'"
proof -
  from req obtain q1 where
    dec: "decode_control_message_buffer CLIENT_KV_SET_RENDEZVOUS (message_buf p) (pmem s) =
      Some [message_buf p, q1]" and key: "c_string (message_buf p) (pmem s) = Some k"
    and len: "load_u64 q1 (pmem s) = Some n"
    by (rule decode_Set_Rendezvous)
  from in_progress_busy [OF ok key] obtain r where
    r: "get_KeyValueAddressPair A (message_buf p) (pmem s) = Some r"
      "in_progress A r = Some (key_busy (store_of W A s) k)" .
  note D = server_okD [OF ok]
  show ?thesis
  proof (cases "key_busy (store_of W A s) k")
    case True
    from reply_in_progress [OF S ok rendezvous_set_busy [OF True, of n]] obtain s' where
      "send_control_message V h SERVER_IN_PROGRESS [] s = Some (0, s')"
      "serves V W h ctx A s (Set_Rendezvous k n) A s'" .
    with dec r True show ?thesis by (simp add: handle_RENDEZVOUS_KV_SET_KEY_def)
  next
    case False
    let ?b = "next_blk (pmem s)" and ?c = "Suc (next_blk (pmem s))"
    let ?acc = "[IBV_ACCESS_LOCAL_WRITE, IBV_ACCESS_REMOTE_WRITE]"
    from malloc_strcpy [OF D(2,3) key less_add_one] obtain m1 m2 pad1 where
      k1: "c_malloc (length k + 1) (pmem s) = (Ptr ?b 0, m1)" "mem_grow (pmem s) m1"
        "c_strcpy (Ptr ?b 0) (message_buf p) m1 = Some m2"
      and g2: "mem_grow (pmem s) m2" and kb: "bytes_from (Ptr ?b 0) m2 = Some (k @ 0 # pad1)"
        "length (k @ 0 # pad1) = length k + 1" and n2: "next_blk m2 = ?c" .
    have ok2: "mem_ok m2" "mem_avail m2" using g2 D(2,3) by (simp_all add: mem_grow_def)
    from malloc_block [OF ok2(2), of "unat n", unfolded n2] obtain m3 where
      v1: "c_malloc (unat n) m2 = (Ptr ?c 0, m3)" and g3: "mem_grow m2 m3"
      and vb: "bytes_from (Ptr ?c 0) m3 = Some (map (junk m2 ?c) [0..<unat n])" and n3: "next_blk m3 = Suc ?c" .
    let ?s = "s\<lparr>pmem := m3\<rparr>"
    have fr0: "server_frame W {} {} s ?s" by (rule server_frame_grow [OF mem_grow_trans [OF g2 g3]])
    have S3: "session_ok V W h ctx ?s" by (rule session_ok_frame [OF fr0 D(2) S]) simp
    have okm3: "mem_ok (pmem ?s)" using server_frameD(4) [OF fr0 D(2)] .
    have h: "handle_ctx h = Some ctx" using S by (simp add: session_ok_def)
    have prem: "bytes_from (Ptr ?c 0) (pmem ?s) = Some (map (junk m2 ?c) [0..<unat n])"
      "length (map (junk m2 ?c) [0..<unat n]) = unat n" "map (junk m2 ?c) [0..<unat n] \<noteq> []"
      "block_regions W (world ?s) (pblk (Ptr ?c 0)) = {}" "pblk (Ptr ?c 0) \<notin> nic_work W"
      using vb size fresh_block [OF ok, of ?c] by (simp_all add: unat_gt_0 word_neq_0_conv)
    define va where "va = bswap_64 (uintptr m3 (Ptr ?c 0))"
    define srcs where "srcs mr = [Var (bytes64 va), Var (bytes32 (htonl (rkey mr)))]" for mr :: ibv_mr
    define msg where "msg mr = Set_Target va (htonl (rkey mr))" for mr :: ibv_mr
    from register_and_send [OF S3 okm3 prem, of msg srcs ?acc] obtain mr s1 s2 where
      reg: "ibv_reg_mr V (pd ctx) (Ptr ?c 0) n ?acc ?s = (Some mr, s1)"
        "uintptr (pmem s1) (Ptr ?c 0) = uintptr m3 (Ptr ?c 0)"
      and snd: "send_control_message V h SERVER_KV_SET_RENDEZVOUS (srcs mr) s1 = Some (0, s2)"
      and fr1: "server_frame W {?c} {?c} ?s s1" and fr2: "server_frame W {} {} s1 s2"
      and regs: "block_regions W (world s2) ?c = {(mr, ?acc)}"
      and S2: "session_ok V W h ctx s2" and rep': "replied W ?s s2 (msg mr)"
      and mr: "mr_addr mr = Ptr ?c 0" "mr_length mr = n" "uintptr (pmem s2) (Ptr ?c 0) = uintptr m3 (Ptr ?c 0)"
      by (auto simp: short_reply srcs_def msg_def)
    have rep: "replied W s s2 (msg mr)" using rep' by (simp add: replied_def)
    from server_frame_trans [OF server_frame_trans [OF fr0 fr1] fr2]
    have fr: "server_frame W {?c} {?c} s s2" by simp
    have c: "next_blk (pmem s) \<le> ?c" "?c < next_blk (pmem s2)"
      using server_frameD(3) [OF fr1] server_frameD(3) [OF fr2] n3 by simp_all
    have bdma: "?b \<notin> nic_dma W (world s)" "?b \<notin> nic_dma W (world s1)" "?b \<notin> nic_dma W (world s2)"
      using server_frameD(10) [OF fr1] server_frameD(10) [OF fr] fresh_block(3) [OF ok, of ?b] by auto
    have "blocks (pmem s2) ?b = blocks (pmem ?s) ?b"
      using server_frameD(1) [OF fr1, of ?b] server_frameD(1) [OF fr2, of ?b] server_frameD(3) [OF fr1] n3 bdma
      by simp
    with bytes_from_cong [of "pmem s2" "Ptr ?b 0" "pmem ?s"] mem_grow_bytes [OF g3 ok2(1) kb(1)]
    have "bytes_from (Ptr ?b 0) (pmem s2) = Some (k @ 0 # pad1)" by simp
    moreover have "0 \<notin> set k" using req by (simp add: message_at_def message_wf_def)
    ultimately have key2: "c_string (Ptr ?b 0) (pmem s2) = Some k" by (simp add: c_string_at)
    from bytes_from_frame_live [OF fr1 okm3 prem(1)] obtain cs1 where
      cs1: "bytes_from (Ptr ?c 0) (pmem s1) = Some cs1" "length cs1 = unat n" by auto
    from bytes_from_frame_live [OF fr2 server_frameD(4) [OF fr1 okm3] cs1(1)] obtain cs where
      cs: "bytes_from (Ptr ?c 0) (pmem s2) = Some cs" "length cs = unat n" using cs1(2) by auto
    let ?info = "\<lparr>info_mr = Some mr, mr_start_ptr = Ptr ?c 0, mr_size = n, mr_status = RDMA\<rparr>"
    let ?e = "\<lparr>key_address = Ptr ?b 0, value_address = Ptr ?c 0, value_size = n, pair_mr_rdma = Some ?info\<rparr>"
    from insert_open_value [OF ok fr c key2 _ cs size regs, of ?info] bdma(3) bound obtain A' where
      ins: "insert_to_array (kv_malloc s2) A ?e (pmem s2) = Some (A', pmem s2)"
      and A': "server_ok W A' s2" "store_of W A' s2 = (store_of W A s)(k \<mapsto> Writing (unat n))"
        "\<exists>e. array_map A' (pmem s2) k = Some e \<and> value_address e = Ptr ?c 0 \<and> value_size e = n" by auto
    have step: "store_step (store_of W A s) (Set_Rendezvous k n) (msg mr) (store_of W A' s2)"
      unfolding A'(2) msg_def by (rule rendezvous_set [OF False])
    have "handle_RENDEZVOUS_KV_SET_KEY V A p h s = Some (0, A', s2)"
      using dec r False k1 v1 c_strlen_string [OF key] mem_grow_load_u64 [OF g2 D(2) len] h reg snd ins
      by (simp add: handle_RENDEZVOUS_KV_SET_KEY_def srcs_def va_def)
    moreover have "target_ok W A' s2 (Set_Rendezvous k n) (msg mr)"
      using A'(3) regs mr by (auto simp: msg_def exposes_def va_def)
    ultimately show ?thesis using A'(1) S2 rep step keeps_blocks_frame [OF fr] by (auto simp: serves_def)
  qed
qed

section \<open>The end of a transfer\<close>

text \<open>Deregistration makes the value of the key available again, as it then is in memory.\<close>

text \<open>
  A client that has sent its FIN writes no more, so deregistering finds the memory at rest. With
  this the value becomes what the client has written into it.
\<close>

definition at_rest :: "('w, 'z) verbs_scheme \<Rightarrow> bool" where
  "at_rest V \<longleftrightarrow> (\<forall>mr s r s'. ibv_dereg_mr V mr s = (r, s') \<longrightarrow> pmem s' = pmem s)"

lemma deregister_settles:
  assumes S: "session_ok V W h ctx s" and ok: "server_ok W A s"
    and key: "c_string p (pmem s) = Some k" and known: "store_of W A s k = Some x"
  obtains A' s' bs where "deregister_rdma_mr V A p s = Some (0, A', s')" "server_ok W A' s'"
    "session_ok V W h ctx s'" "nic_log W (world s') = nic_log W (world s)"
    "settles x bs" "store_of W A' s' = (store_of W A s)(k \<mapsto> Ready bs)" "keeps_blocks s s'"
    "\<forall>e. at_rest V \<and> array_map A (pmem s) k = Some e \<longrightarrow> bytes_from (value_address e) (pmem s) = Some bs"
proof -
  note D = server_okD [OF ok]
  from known obtain e where e: "array_map A (pmem s) k = Some e" and x: "x = slot_of W s e"
    by (auto simp: store_of_def)
  let ?q = "value_address e" and ?e = "e\<lparr>pair_mr_rdma := None\<rparr>"
  from D(8) [OF e] obtain bs where bs: "bytes_from ?q (pmem s) = Some bs"
    "length bs = unat (value_size e)" "bs \<noteq> []" "pblk ?q \<notin> nic_work W" by (auto simp: value_ok_def)
  show ?thesis
  proof (cases "pair_mr_rdma e")
    case None
    then have "x = Ready bs" using x bs by (simp add: slot_of_def)
    with that [OF deregister_rdma_mr_idle [OF D(1) key e None] ok S refl, of bs] known e bs(1)
    show ?thesis by (auto simp: fun_upd_idem)
  next
    case (Some info)
    with D(8) [OF e] obtain mr acc where info: "info_mr info = Some mr"
      and regs: "block_regions W (world s) (pblk ?q) = {(mr, acc)}" by (auto simp: value_ok_def)
    then have mr: "(mr, acc) \<in> nic_mrs W (world s)" "pblk (mr_addr mr) = pblk ?q"
      by (auto simp: block_regions_def set_eq_iff)
    from S D(5) mr(1) obtain s' where
      dereg: "ibv_dereg_mr V mr s = (0, s')" and log: "nic_log W (world s') = nic_log W (world s)"
      and mrs: "nic_mrs W (world s') = {(mr', acc') \<in> nic_mrs W (world s). mr' \<noteq> mr}"
      and call: "nic_call W s s'"
      unfolding session_ok_def nic_ok_def deregisters_def by meson
    from server_frame_deregister [OF call mrs] mr(2) have fr: "server_frame W {pblk ?q} {} s s'" by simp
    from deregister_rdma_mr_map [OF D(1) key e Some info dereg] obtain A' where
      run: "deregister_rdma_mr V A p s = Some (0, A', s')" and A': "array_ok A' (pmem s)"
        "array_map A' (pmem s) = (array_map A (pmem s))(k \<mapsto> ?e)"
        "set (entry_list A') \<subseteq> insert ?e (set (entry_list A))" by blast
    have "key_string (pmem s') a = key_string (pmem s) a" if "a \<in> set (entry_list A')" for a
      using that A'(3) key_string_frame [OF ok fr entry_list_map [OF D(1)]] key_string_frame [OF ok fr e]
      by (auto simp: key_string_def)
    from array_cong [OF this] A'(1,2) have arr: "array_ok A' (pmem s')"
      "array_map A' (pmem s') = (array_map A (pmem s))(k \<mapsto> ?e)" by simp_all
    from bytes_from_frame_live [OF fr D(2) bs(1)] obtain cs where
      cs: "bytes_from ?q (pmem s') = Some cs" "length cs = length bs"
        "pblk ?q \<notin> nic_dma W (world s) \<longrightarrow> cs = bs" by blast
    have "block_regions W (world s') (pblk ?q) = {}"
      using regs mrs by (auto simp: block_regions_def)
    then have new: "value_ok W s' ?e" "key_ok W s' ?e"
      using cs bs D(9) [OF e] server_frameD(10) [OF fr] by (auto simp: value_ok_def key_ok_def)
    have other: "pblk (value_address a) \<notin> insert (pblk (value_address ?e)) {pblk ?q} \<and>
        pblk (key_address a) \<notin> {}" if "array_map A (pmem s) k' = Some a" "k' \<noteq> k" for k' a
      using D(10) [OF that(1) e that(2)] by simp
    have live: "\<forall>b \<in> {pblk ?q}. b < next_blk (pmem s')"
      using value_below [OF ok e] server_frameD(3) [OF fr] by simp
    note upd = server_update [OF ok fr arr new live other]
    have "slot_of W s' ?e = Ready cs" using cs(1) by (simp add: slot_of_def)
    moreover have "settles x cs" using x Some bs cs by (simp add: slot_of_def)
    moreover have "session_ok V W h ctx s'" by (rule session_ok_frame [OF fr D(2) S]) (use bs(4) in simp)
    moreover have "bytes_from (value_address a) (pmem s) = Some cs"
      if "at_rest V" "array_map A (pmem s) k = Some a" for a
      using that e cs(1) dereg unfolding at_rest_def by fastforce
    ultimately show ?thesis using that [OF run upd(1) _ log] upd(2) keeps_blocks_frame [OF fr] by simp
  qed
qed

lemma set_fin_stores:
  assumes S: "session_ok V W h ctx s" and ok: "server_ok W A s"
    and req: "message_at p (Set_Fin k) (pmem s)" and known: "store_of W A s k = Some x"
  obtains A' s' bs where "handle_CLIENT_KV_SET_RENDEZVOUS_FIN V A p h s = Some (0, A', s')"
    "serves V W h ctx A s (Set_Fin k) A' s'" "store_of W A' s' = (store_of W A s)(k \<mapsto> Ready bs)"
    "\<forall>e. at_rest V \<and> array_map A (pmem s) k = Some e \<longrightarrow> bytes_from (value_address e) (pmem s) = Some bs"
proof -
  from decode_one_string [OF req] have
    dec: "decode_control_message_buffer CLIENT_KV_SET_RENDEZVOUS_FIN (message_buf p) (pmem s) = Some [message_buf p]"
    and key: "c_string (message_buf p) (pmem s) = Some k" by simp_all
  from deregister_settles [OF S ok key known] obtain A' s1 bs where
    run: "deregister_rdma_mr V A (message_buf p) s = Some (0, A', s1)" and ok1: "server_ok W A' s1"
    and S1: "session_ok V W h ctx s1" and log: "nic_log W (world s1) = nic_log W (world s)"
    and st: "settles x bs" "store_of W A' s1 = (store_of W A s)(k \<mapsto> Ready bs)" and keep: "keeps_blocks s s1"
    and rest: "\<forall>e. at_rest V \<and> array_map A (pmem s) k = Some e \<longrightarrow> bytes_from (value_address e) (pmem s) = Some bs" .
  have "message_srcs Set_Successful [] (pmem s1)" "srcs_blocks [] \<inter> nic_work W = {}"
    "length (message_bytes Set_Successful) \<le> sizeof_ControlMessage" by (simp_all add: short_reply)
  from send_control_message_sends [OF S1 server_okD(2) [OF ok1] this] obtain s' where
    s': "send_control_message V h SERVER_KV_SET_SUCCESSFUL [] s1 = Some (0, s')" "server_frame W {} {} s1 s'"
      "session_ok V W h ctx s'" "replied W s1 s' Set_Successful" by auto
  note quiet = server_quiet_call [OF ok1 s'(2)]
  have "store_step (store_of W A s) (Set_Fin k) Set_Successful (store_of W A' s')"
    unfolding quiet(2) st(2) by (rule set_fin [where st = "store_of W A s", OF known st(1)])
  then have "serves V W h ctx A s (Set_Fin k) A' s'"
    using quiet(1) s'(3,4) keeps_blocks_trans [OF keep keeps_blocks_frame [OF s'(2)]] log
    by (auto simp: serves_def replied_def)
  with that [of A' s' bs] dec run s'(1) rest quiet(2) st(2) show ?thesis
    by (simp add: handle_CLIENT_KV_SET_RENDEZVOUS_FIN_def)
qed

lemma set_fin_settles:
  assumes "session_ok V W h ctx s" and "server_ok W A s" and "message_at p (Set_Fin k) (pmem s)"
    and "store_of W A s k = Some x"
  shows "\<exists>A' s'. handle_CLIENT_KV_SET_RENDEZVOUS_FIN V A p h s = Some (0, A', s') \<and>
    serves V W h ctx A s (Set_Fin k) A' s'"
  using set_fin_stores [OF assms] by metis

lemma get_fin_stores:
  assumes S: "session_ok V W h ctx s" and ok: "server_ok W A s"
    and req: "message_at p (Get_Fin k) (pmem s)" and known: "store_of W A s k = Some x"
  obtains A' s' bs where "handle_CLIENT_KV_GET_RENDEZVOUS_FIN V A p h s = Some (0, A', s')"
    "serves V W h ctx A s (Get_Fin k) A' s'" "store_of W A' s' = (store_of W A s)(k \<mapsto> Ready bs)"
    "settles x bs"
proof -
  from decode_one_string [OF req] have
    dec: "decode_control_message_buffer CLIENT_KV_GET_RENDEZVOUS_FIN (message_buf p) (pmem s) = Some [message_buf p]"
    and key: "c_string (message_buf p) (pmem s) = Some k" by simp_all
  from deregister_settles [OF S ok key known] obtain A' s1 bs where
    run: "deregister_rdma_mr V A (message_buf p) s = Some (0, A', s1)" and ok1: "server_ok W A' s1"
    and S1: "session_ok V W h ctx s1" and log: "nic_log W (world s1) = nic_log W (world s)"
    and st: "settles x bs" "store_of W A' s1 = (store_of W A s)(k \<mapsto> Ready bs)" and keep: "keeps_blocks s s1"
    by metis
  have "message_srcs Get_Successful [] (pmem s1)" "srcs_blocks [] \<inter> nic_work W = {}"
    "length (message_bytes Get_Successful) \<le> sizeof_ControlMessage" by (simp_all add: short_reply)
  from send_control_message_sends [OF S1 server_okD(2) [OF ok1] this] obtain s' where
    s': "send_control_message V h SERVER_KV_GET_SUCCESSFUL [] s1 = Some (0, s')" "server_frame W {} {} s1 s'"
      "session_ok V W h ctx s'" "replied W s1 s' Get_Successful" by auto
  note quiet = server_quiet_call [OF ok1 s'(2)]
  have "store_step (store_of W A s) (Get_Fin k) Get_Successful (store_of W A' s')"
    unfolding quiet(2) st(2) by (rule get_fin [where st = "store_of W A s", OF known st(1)])
  then have "serves V W h ctx A s (Get_Fin k) A' s'"
    using quiet(1) s'(3,4) keeps_blocks_trans [OF keep keeps_blocks_frame [OF s'(2)]] log
    by (auto simp: serves_def replied_def)
  with that [of A' s' bs] dec run s'(1) quiet(2) st show ?thesis
    by (simp add: handle_CLIENT_KV_GET_RENDEZVOUS_FIN_def)
qed

lemma get_fin_settles:
  assumes "session_ok V W h ctx s" and "server_ok W A s" and "message_at p (Get_Fin k) (pmem s)"
    and "store_of W A s k = Some x"
  shows "\<exists>A' s'. handle_CLIENT_KV_GET_RENDEZVOUS_FIN V A p h s = Some (0, A', s') \<and>
    serves V W h ctx A s (Get_Fin k) A' s'"
  using get_fin_stores [OF assms] by metis

section \<open>When the client is not to be trusted\<close>

text \<open>A FIN for a key that is not in the table dereferences a null pointer.\<close>

lemma fin_unknown_crashes:
  assumes ok: "array_ok A (pmem s)" and none: "array_map A (pmem s) k = None"
  shows "message_at p (Set_Fin k) (pmem s) \<Longrightarrow> handle_CLIENT_KV_SET_RENDEZVOUS_FIN V A p h s = None"
    and "message_at p (Get_Fin k) (pmem s) \<Longrightarrow> handle_CLIENT_KV_GET_RENDEZVOUS_FIN V A p h s = None"
proof -
  assume req: "message_at p (Set_Fin k) (pmem s)"
  from decode_one_string [OF req] deregister_rdma_mr_unknown [OF ok _ none, of "message_buf p" V]
  show "handle_CLIENT_KV_SET_RENDEZVOUS_FIN V A p h s = None"
    by (simp add: handle_CLIENT_KV_SET_RENDEZVOUS_FIN_def)
next
  assume req: "message_at p (Get_Fin k) (pmem s)"
  from decode_one_string [OF req] deregister_rdma_mr_unknown [OF ok _ none, of "message_buf p" V]
  show "handle_CLIENT_KV_GET_RENDEZVOUS_FIN V A p h s = None"
    by (simp add: handle_CLIENT_KV_GET_RENDEZVOUS_FIN_def)
qed

text \<open>
  A value at least as long as the size announced for it is copied past the end of the object
  that was allocated for it.
\<close>

lemma eager_oversize_crashes:
  assumes ok: "server_ok W A s" and req: "message_at p (Set_Eager k n v) (pmem s)"
    and idle: "\<not> key_busy (store_of W A s) k" and size: "unat n \<le> length v"
  shows "handle_EAGER_KV_SET V A p h s = None"
proof -
  from req obtain q1 q2 where
    dec: "decode_control_message_buffer CLIENT_KV_SET_EAGER (message_buf p) (pmem s) =
      Some [message_buf p, q1, q2]" and key: "c_string (message_buf p) (pmem s) = Some k"
    and len: "load_u64 q1 (pmem s) = Some n" and val: "c_string q2 (pmem s) = Some v"
    by (rule decode_Set_Eager)
  from in_progress_busy [OF ok key] obtain r where
    r: "get_KeyValueAddressPair A (message_buf p) (pmem s) = Some r"
      "in_progress A r = Some (key_busy (store_of W A s) k)" .
  note D = server_okD [OF ok]
  from malloc_strcpy [OF D(2,3) key less_add_one] obtain m1 m2 pad1 where
    k1: "c_malloc (length k + 1) (pmem s) = (Ptr (next_blk (pmem s)) 0, m1)" "mem_grow (pmem s) m1"
      "c_strcpy (Ptr (next_blk (pmem s)) 0) (message_buf p) m1 = Some m2"
    and g2: "mem_grow (pmem s) m2" and "bytes_from (Ptr (next_blk (pmem s)) 0) m2 = Some (k @ 0 # pad1)"
      "length (k @ 0 # pad1) = length k + 1" and n2: "next_blk m2 = Suc (next_blk (pmem s))" .
  have ok2: "mem_ok m2" "mem_avail m2" using g2 D(2,3) by (simp_all add: mem_grow_def)
  from malloc_block [OF ok2(2), of "unat n"] obtain m3 where
    v1: "c_malloc (unat n) m2 = (Ptr (next_blk m2) 0, m3)" and g3: "mem_grow m2 m3"
    and vb: "bytes_from (Ptr (next_blk m2) 0) m3 = Some (map (junk m2 (next_blk m2)) [0..<unat n])"
    and "next_blk m3 = Suc (next_blk m2)" .
  have "store_bytes (Ptr (next_blk m2) 0) (v @ [0]) m3 = None"
    using vb size by (auto simp: store_bytes_def bytes_from_def split: option.splits)
  then have "c_strcpy (Ptr (next_blk m2) 0) q2 m3 = None"
    using mem_grow_string [OF g3 ok2(1) mem_grow_string [OF g2 D(2) val]] by (simp add: c_strcpy_def)
  with dec r idle k1 v1 c_strlen_string [OF key] mem_grow_load_u64 [OF g2 D(2) len]
  show ?thesis by (simp add: handle_EAGER_KV_SET_def)
qed

section \<open>One pass of the server loop\<close>

text \<open>What the code trusts its clients to send.\<close>

fun request_ok :: "store \<Rightarrow> message \<Rightarrow> bool" where
  "request_ok st (Set_Eager k n v) \<longleftrightarrow> length v < unat n"
| "request_ok st (Set_Rendezvous k n) \<longleftrightarrow> 0 < n"
| "request_ok st (Get k) \<longleftrightarrow>
     (case st k of Some (Ready bs) \<Rightarrow> length bs < 4096 \<longrightarrow> cstr bs \<noteq> None | _ \<Rightarrow> True)"
| "request_ok st (Set_Fin k) \<longleftrightarrow> st k \<noteq> None"
| "request_ok st (Get_Fin k) \<longleftrightarrow> st k \<noteq> None"
| "request_ok st _ \<longleftrightarrow> False"

lemma serve_message_serves:
  assumes S: "session_ok V W h ctx s" and ok: "server_ok W A s"
    and req: "message_at p req (pmem s)" and trust: "request_ok (store_of W A s) req"
    and bound: "unat (total_length A) < 2 ^ 58"
  shows "\<exists>A' s'. serve_message V p h A c s = Some (False, True, A', c, s') \<and> serves V W h ctx A s req A' s'"
proof (cases req)
  case (Set_Eager k n v)
  with eager_set_stores [OF S ok _ _ bound] req trust obtain A' s' where
    "handle_EAGER_KV_SET V A p h s = Some (0, A', s')" "serves V W h ctx A s req A' s'" by fastforce
  with message_at_operation [OF req] Set_Eager show ?thesis by (simp add: serve_message_def)
next
  case (Set_Rendezvous k n)
  with rendezvous_set_opens [OF S ok _ _ bound] req trust obtain A' s' where
    "handle_RENDEZVOUS_KV_SET_KEY V A p h s = Some (0, A', s')" "serves V W h ctx A s req A' s'" by fastforce
  with message_at_operation [OF req] Set_Rendezvous show ?thesis by (simp add: serve_message_def)
next
  case (Get k)
  with trust have "\<And>bs. store_of W A s k = Some (Ready bs) \<Longrightarrow> length bs < 4096 \<Longrightarrow> cstr bs \<noteq> None" by simp
  with get_serves [OF S ok] req Get obtain A' s' where
    "handle_CLIENT_KV_GET V A p h s = Some (0, A', s')" "serves V W h ctx A s req A' s'" by blast
  with message_at_operation [OF req] Get show ?thesis by (simp add: serve_message_def)
next
  case (Set_Fin k)
  with set_fin_settles [OF S ok] req trust obtain A' s' where
    "handle_CLIENT_KV_SET_RENDEZVOUS_FIN V A p h s = Some (0, A', s')" "serves V W h ctx A s req A' s'"
    by fastforce
  with message_at_operation [OF req] Set_Fin show ?thesis by (simp add: serve_message_def)
next
  case (Get_Fin k)
  with get_fin_settles [OF S ok] req trust obtain A' s' where
    "handle_CLIENT_KV_GET_RENDEZVOUS_FIN V A p h s = Some (0, A', s')" "serves V W h ctx A s req A' s'"
    by fastforce
  with message_at_operation [OF req] Get_Fin show ?thesis by (simp add: serve_message_def)
qed (use trust in simp_all)

text \<open>What \<open>print_dynamic_array\<close> can print without reading past the end of a value.\<close>

fun printable_slot :: "slot \<Rightarrow> bool" where
  "printable_slot (Ready bs) \<longleftrightarrow> printable bs"
| "printable_slot (Reading bs) \<longleftrightarrow> printable bs"
| "printable_slot (Writing n) \<longleftrightarrow> 10 \<le> n"

definition printable_store :: "store \<Rightarrow> bool" where
  "printable_store st \<longleftrightarrow> (\<forall>k x. st k = Some x \<longrightarrow> printable_slot x)"

lemma server_prints:
  assumes ok: "server_ok W A s" and st: "printable_store (store_of W A s)"
  shows "print_dynamic_array A (pmem s) \<noteq> None"
proof (rule print_dynamic_array_defined [OF server_okD(1) [OF ok]])
  fix e assume "e \<in> set (entry_list A)"
  from entry_list_map [OF server_okD(1) [OF ok] this] obtain k where e: "array_map A (pmem s) k = Some e" by blast
  from server_okD(8) [OF ok e] obtain bs where
    bs: "bytes_from (value_address e) (pmem s) = Some bs" "length bs = unat (value_size e)"
    by (auto simp: value_ok_def)
  have "printable_slot (slot_of W s e)" using st e by (auto simp: printable_store_def store_of_def)
  with bs have "printable bs" by (auto simp: slot_of_def printable_def split: if_splits)
  with bs(1) show "\<exists>bs. bytes_from (value_address e) (pmem s) = Some bs \<and> printable bs" by blast
qed

lemma serve_client_serves:
  assumes recv: "get_remote_control_message V (h\<lparr>ctx_index := i\<rparr>) 0 s = Some (0, Some p, h', s1)"
    and S: "session_ok V W h' ctx s1" and ok: "server_ok W A s1"
    and req: "message_at p req (pmem s1)" and trust: "request_ok (store_of W A s1) req"
    and bound: "unat (total_length A) < 2 ^ 58"
  shows "\<exists>A' s'. serves V W h' ctx A s1 req A' s' \<and>
    ((print_database = 1 \<longrightarrow> printable_store (store_of W A' s')) \<longrightarrow>
      serve_client V print_database i h A c s = Some (False, h', A', c, s'))"
proof -
  from serve_message_serves [OF S ok req trust bound, of c] obtain A' s' where
    run: "serve_message V p h' A c s1 = Some (False, True, A', c, s')" and srv: "serves V W h' ctx A s1 req A' s'"
    by blast
  have "serve_client V print_database i h A c s = Some (False, h', A', c, s')"
    if "print_database = 1 \<longrightarrow> printable_store (store_of W A' s')"
    using recv run that server_prints [of W A' s'] srv
    by (auto simp: serve_client_def show_database_def serves_def)
  with srv show ?thesis by blast
qed

end
