(* ===== verification/Loopback.thy ===== *)
theory Loopback
  imports IB_Functions
begin

text \<open>
  A concrete adapter, to run the modelled programs on and to show that the documented
  behaviour the theorems assume can be met. Its state is the list of registered regions,
  the log of executed sends and the messages that are still to arrive. Queue 1 reports one
  send completion per poll, queue 2 delivers the next message into the receive buffer
  (block 1). Blocks 0 and 1 are the message buffers. The peer exposes the byte 42 and can be
  written everywhere.
\<close>

record loop_world =
  loop_mrs :: "(ibv_mr \<times> ibv_access list) list"
  loop_log :: "(ibv_send_wr \<times> byte list) list"
  loop_inbox :: "byte list list"
  loop_last :: ibv_wr_opcode

definition loop_view :: "loop_world nic_view" where
  "loop_view = \<lparr>nic_mrs = (\<lambda>w. set (loop_mrs w)), nic_work = {0, 1}, nic_up = (\<lambda>w. True), nic_log = loop_log,
     nic_remote = (\<lambda>w va rk n. Some (replicate n 42)), nic_target = (\<lambda>w va rk n. True)\<rparr>"

definition loop_executed :: "ibv_send_wr \<Rightarrow> byte list \<Rightarrow> loop_world pstate \<Rightarrow> loop_world pstate" where
  "loop_executed wr bs s =
     s\<lparr>world := (world s)\<lparr>loop_log := loop_log (world s) @ [(wr, bs)], loop_last := send_opcode wr\<rparr>\<rparr>"

definition loop_post_send :: "handle \<Rightarrow> ibv_send_wr \<Rightarrow> loop_world pstate \<Rightarrow> int \<times> loop_world pstate" where
  "loop_post_send qpair wr s =
     (if send_opcode wr = IBV_WR_RDMA_READ then
        (let bs = replicate (unat (sge_length (send_sge wr))) 42
         in case store_bytes (sge_addr (send_sge wr)) bs (pmem s) of
              None \<Rightarrow> (22, s)
            | Some m \<Rightarrow> (0, loop_executed wr bs (s\<lparr>pmem := m\<rparr>)))
      else
        (case load_bytes (sge_addr (send_sge wr)) (unat (sge_length (send_sge wr))) (pmem s) of
           None \<Rightarrow> (22, s)
         | Some bs \<Rightarrow> (0, loop_executed wr bs s)))"

definition loop_wc :: "ibv_wc_opcode \<Rightarrow> ibv_wc" where
  "loop_wc opcode = \<lparr>wc_status = IBV_WC_SUCCESS, wc_opcode = opcode, wc_wr_id = 0\<rparr>"

definition loop_poll_cq :: "handle \<Rightarrow> int \<Rightarrow> loop_world pstate \<Rightarrow> (int \<times> ibv_wc list) \<times> loop_world pstate" where
  "loop_poll_cq cq k s =
     (if cq = 2 then
        (case loop_inbox (world s) of
           [] \<Rightarrow> ((0, []), s)
         | msg # rest \<Rightarrow>
             (case store_bytes (Ptr 1 0) msg (pmem s) of
                None \<Rightarrow> ((-1, []), s)
              | Some m \<Rightarrow> ((1, [loop_wc IBV_WC_RECV]),
                           s\<lparr>pmem := m, world := (world s)\<lparr>loop_inbox := rest\<rparr>\<rparr>)))
      else if k < 1 then ((0, []), s) else ((1, [loop_wc (wc_opcode_of (loop_last (world s)))]), s))"

definition loop_reg_mr ::
  "handle \<Rightarrow> ptr \<Rightarrow> size_t \<Rightarrow> ibv_access list \<Rightarrow> loop_world pstate \<Rightarrow> ibv_mr option \<times> loop_world pstate" where
  "loop_reg_mr pdom p n acc s =
     (let mr = \<lparr>mr_addr = p, mr_length = n, lkey = 7, rkey = 9\<rparr>
      in (Some mr, s\<lparr>world := (world s)\<lparr>loop_mrs := (mr, acc) # loop_mrs (world s)\<rparr>\<rparr>))"

definition loop_dereg_mr :: "ibv_mr \<Rightarrow> loop_world pstate \<Rightarrow> int \<times> loop_world pstate" where
  "loop_dereg_mr mr s =
     (0, s\<lparr>world := (world s)\<lparr>loop_mrs := filter (\<lambda>(mr', acc'). mr' \<noteq> mr) (loop_mrs (world s))\<rparr>\<rparr>)"

definition loop_verbs :: "loop_world verbs" where
  "loop_verbs = \<lparr>ibv_post_recv = (\<lambda>q wr s. (0, s)), ibv_post_send = loop_post_send,
     ibv_poll_cq = loop_poll_cq, ibv_reg_mr = loop_reg_mr, ibv_dereg_mr = loop_dereg_mr\<rparr>"

text \<open>
  The same adapter for a client: polling queue 3 always delivers the peer's answer to what
  has been sent so far.
\<close>

definition loop_peer_poll ::
  "((ibv_send_wr \<times> byte list) list \<Rightarrow> byte list) \<Rightarrow> handle \<Rightarrow> int \<Rightarrow> loop_world pstate \<Rightarrow>
   (int \<times> ibv_wc list) \<times> loop_world pstate" where
  "loop_peer_poll answer cq k s =
     (if cq = 3 then
        (case store_bytes (Ptr 1 0) (answer (loop_log (world s))) (pmem s) of
           None \<Rightarrow> ((-1, []), s)
         | Some m \<Rightarrow> ((1, [loop_wc IBV_WC_RECV]), s\<lparr>pmem := m\<rparr>))
      else loop_poll_cq cq k s)"

definition loop_peer_verbs :: "((ibv_send_wr \<times> byte list) list \<Rightarrow> byte list) \<Rightarrow> loop_world verbs" where
  "loop_peer_verbs answer = loop_verbs\<lparr>ibv_poll_cq := loop_peer_poll answer\<rparr>"

lemmas loop_defs = loop_view_def loop_executed_def loop_post_send_def loop_wc_def loop_poll_cq_def
  loop_reg_mr_def loop_dereg_mr_def loop_verbs_def

lemma loop_sends_complete_if:
  assumes "ibv_post_send V = loop_post_send" and "ibv_poll_cq V 1 = loop_poll_cq 1"
  shows "sends_complete V loop_view q 1"
  unfolding sends_complete_def
proof (intro allI impI, elim conjE)
  fix wr :: ibv_send_wr and s :: "loop_world pstate" and bs and mr :: ibv_mr and acc
  assume load: "load_bytes (sge_addr (send_sge wr)) (unat (sge_length (send_sge wr))) (pmem s) = Some bs"
    and op: "send_opcode wr \<noteq> IBV_WR_RDMA_READ"
  let ?s = "loop_executed wr bs s"
  have "polls_one V 1 ?s (loop_wc (wc_opcode_of (send_opcode wr))) ?s"
    by (rule polls_now) (unfold assms(2), simp add: loop_defs)
  then show "\<exists>s1 s2 wc. ibv_post_send V q wr s = (0, s1) \<and> polls_one V 1 s1 wc s2 \<and>
      wc_status wc = IBV_WC_SUCCESS \<and> wc_opcode wc = wc_opcode_of (send_opcode wr) \<and> nic_call loop_view s s2 \<and>
      nic_mrs loop_view (world s2) = nic_mrs loop_view (world s) \<and>
      nic_log loop_view (world s2) = nic_log loop_view (world s) @ [(wr, bs)]"
    using load op by (intro exI [of _ ?s] exI [of _ "loop_wc (wc_opcode_of (send_opcode wr))"])
      (simp add: loop_defs nic_call_def assms(1))
qed

lemma loop_reads_complete_if:
  assumes "ibv_post_send V = loop_post_send" and "ibv_poll_cq V 1 = loop_poll_cq 1"
  shows "reads_complete V loop_view q 1"
  unfolding reads_complete_def
proof (intro allI impI, elim conjE)
  fix wr :: ibv_send_wr and s :: "loop_world pstate" and bs cs and mr :: ibv_mr and acc
  assume load: "load_bytes (sge_addr (send_sge wr)) (unat (sge_length (send_sge wr))) (pmem s) = Some cs"
    and op: "send_opcode wr = IBV_WR_RDMA_READ"
    and remote: "nic_remote loop_view (world s) (rdma_remote_addr wr) (rdma_rkey wr)
      (unat (sge_length (send_sge wr))) = Some bs" and len: "length bs = unat (sge_length (send_sge wr))"
  from load obtain xs where xs: "bytes_from (sge_addr (send_sge wr)) (pmem s) = Some xs" "length bs \<le> length xs"
    using len by (auto simp: load_bytes_def bind_eq_Some_conv split: if_splits)
  then obtain m where m: "store_bytes (sge_addr (send_sge wr)) bs (pmem s) = Some m"
    using store_bytes_defined by blast
  let ?s = "loop_executed wr bs (s\<lparr>pmem := m\<rparr>)"
  have "polls_one V 1 ?s (loop_wc IBV_WC_RDMA_READ) ?s"
    by (rule polls_now) (unfold assms(2), simp add: loop_defs op)
  moreover have "load_bytes (sge_addr (send_sge wr)) (length bs) m = Some bs"
    using bytes_from_store [OF m xs(1)] by (simp add: load_bytes_def)
  moreover have "mem_frame (insert (pblk (sge_addr (send_sge wr))) (nic_dma loop_view (world s))) (pmem s) m"
    using store_bytes_frame [OF m] by (rule mem_frame_mono) simp
  moreover have "bs = replicate (unat (sge_length (send_sge wr))) 42" using remote by (simp add: loop_view_def)
  ultimately show "\<exists>s1 s2 wc. ibv_post_send V q wr s = (0, s1) \<and> polls_one V 1 s1 wc s2 \<and>
      wc_status wc = IBV_WC_SUCCESS \<and> wc_opcode wc = IBV_WC_RDMA_READ \<and>
      mem_frame (insert (pblk (sge_addr (send_sge wr))) (nic_dma loop_view (world s))) (pmem s) (pmem s2) \<and>
      load_bytes (sge_addr (send_sge wr)) (length bs) (pmem s2) = Some bs \<and>
      nic_up loop_view (world s2) \<and> max_inline s2 = max_inline s \<and> page_size s2 = page_size s \<and>
      kv_malloc s2 = kv_malloc s \<and> nic_mrs loop_view (world s2) = nic_mrs loop_view (world s) \<and>
      nic_log loop_view (world s2) = nic_log loop_view (world s) @ [(wr, bs)]"
    using op m by (intro exI [of _ ?s] exI [of _ "loop_wc IBV_WC_RDMA_READ"])
      (simp add: loop_post_send_def loop_executed_def loop_wc_def loop_view_def assms(1))
qed

lemma loop_registers_if: "ibv_reg_mr V = loop_reg_mr \<Longrightarrow> registers V loop_view pdom"
  by (auto simp: registers_def loop_defs nic_call_def Let_def)

lemma loop_deregisters_if: "ibv_dereg_mr V = loop_dereg_mr \<Longrightarrow> deregisters V loop_view"
  by (auto simp: deregisters_def loop_defs nic_call_def)

lemma loop_sends_complete: "sends_complete loop_verbs loop_view q 1"
  by (rule loop_sends_complete_if) (simp_all add: loop_verbs_def)

lemma loop_registers: "registers loop_verbs loop_view pdom"
  by (rule loop_registers_if) (simp add: loop_verbs_def)

lemma loop_deregisters: "deregisters loop_verbs loop_view"
  by (rule loop_deregisters_if) (simp add: loop_verbs_def)

lemma loop_peer_sends_complete: "sends_complete (loop_peer_verbs answer) loop_view q 1"
  by (rule loop_sends_complete_if) (simp_all add: loop_peer_verbs_def loop_verbs_def loop_peer_poll_def fun_eq_iff)

lemma loop_peer_reads_complete: "reads_complete (loop_peer_verbs answer) loop_view q 1"
  by (rule loop_reads_complete_if) (simp_all add: loop_peer_verbs_def loop_verbs_def loop_peer_poll_def fun_eq_iff)

lemma loop_peer_registers: "registers (loop_peer_verbs answer) loop_view pdom"
  by (rule loop_registers_if) (simp add: loop_peer_verbs_def loop_verbs_def)

lemma loop_peer_deregisters: "deregisters (loop_peer_verbs answer) loop_view"
  by (rule loop_deregisters_if) (simp add: loop_peer_verbs_def loop_verbs_def)

lemma loop_poll_bounded: "poll_bounded loop_verbs"
  by (auto simp: poll_bounded_def loop_defs split: if_splits list.splits option.splits)

end
