(* ===== verification/Demo_Server.thy ===== *)
theory Demo_Server
  imports KV_Refinement Loopback
begin

text \<open>
  Concrete servers on the loopback adapter: a connection with its two message buffers, a
  received message, and a table with the one key "a", idle or in progress. They show that
  the hypotheses of the server's theorems can hold together, and each theorem is applied to
  one of them.
\<close>

definition demo_key :: "byte list" where "demo_key = [97]"

definition demo_image :: "message \<Rightarrow> byte list" where
  "demo_image msg = message_bytes msg @ replicate (4100 - length (message_bytes msg)) 0"

definition demo_mem :: "byte list \<Rightarrow> byte list \<Rightarrow> mem" where
  "demo_mem inbuf value =
     \<lparr>blocks = [0 \<mapsto> replicate 4100 0, 1 \<mapsto> inbuf, 2 \<mapsto> demo_key @ [0], 3 \<mapsto> value],
      next_blk = 4, junk = (\<lambda>b i. 0), vaddr = (\<lambda>b. of_nat b * 65536), oom = (\<lambda>b. False)\<rparr>"

definition demo_send_mr :: ibv_mr where
  "demo_send_mr = \<lparr>mr_addr = Ptr 0 0, mr_length = 4100, lkey = 1, rkey = 1\<rparr>"

definition demo_receive_mr :: ibv_mr where
  "demo_receive_mr = \<lparr>mr_addr = Ptr 1 0, mr_length = 4100, lkey = 2, rkey = 2\<rparr>"

definition demo_mrs :: "(ibv_mr \<times> ibv_access list) list" where
  "demo_mrs = [(demo_send_mr, [IBV_ACCESS_LOCAL_WRITE]), (demo_receive_mr, [IBV_ACCESS_LOCAL_WRITE])]"

definition demo_state ::
  "byte list \<Rightarrow> byte list \<Rightarrow> (ibv_mr \<times> ibv_access list) list \<Rightarrow> byte list list \<Rightarrow> loop_world pstate" where
  "demo_state inbuf value mrs inbox =
     \<lparr>pmem = demo_mem inbuf value,
      world = \<lparr>loop_mrs = mrs @ demo_mrs, loop_log = [], loop_inbox = inbox, loop_last = IBV_WR_SEND\<rparr>,
      max_inline = 0, page_size = 4096, kv_malloc = 0\<rparr>"

definition demo_ctx :: "int \<Rightarrow> pingpong_context" where
  "demo_ctx credit =
     \<lparr>dev_context = 1, channel = 0, pd = 1, send_cq = 1, receive_cq = 2, portinfo = \<lparr>port_lid = 1, link_layer = IBV_LINK_LAYER_INFINIBAND\<rparr>, qp = 1,
      mr_control_send = Some demo_send_mr, mr_control_send_start_ptr = Ptr 0 0, mr_control_send_size = 4100,
      mr_control_receive = Some demo_receive_mr, mr_control_receive_start_ptr = Ptr 1 0,
      mr_control_receive_size = 4100,
      rx_depth = 100, routs = credit, mr_rdma = None, mr_rdma_start_ptr = NULL, mr_rdma_size = 0,
      remote_buf_va = 0, remote_buf_rkey = 0\<rparr>"

definition demo_handle :: "int \<Rightarrow> KVHandle" where
  "demo_handle credit =
     \<lparr>dev_list = [1], ib_dev = 1, ctx_index = 0,
      my_dest = \<lparr>lid = 1, qpn = 1, psn = 1, gid = replicate 16 0\<rparr>, rem_dest = None, ib_devname = None,
      port = 12345, ib_port = 1, mtu = 3, handle_rx_depth = 100, handle_tx_depth = 100, use_event = 0,
      mr_control_size = 4100, sl = 0, gidx = -1, num_remote_host = 1,
      array_ctx_ptr = [demo_ctx credit], array_remote_dest = []\<rparr>"

definition demo_array :: "size_t \<Rightarrow> MRInfo option \<Rightarrow> KeyValueAddressArray" where
  "demo_array n info =
     \<lparr>head = Some \<lparr>key_address = Ptr 2 0, value_address = Ptr 3 0, value_size = n, pair_mr_rdma = info\<rparr>
             # replicate 19 None,
      used_length = 1, total_length = 20\<rparr>"

definition demo_mr :: ibv_mr where
  "demo_mr = \<lparr>mr_addr = Ptr 3 0, mr_length = 2, lkey = 3, rkey = 3\<rparr>"

definition demo_info :: MRInfo where
  "demo_info = \<lparr>info_mr = Some demo_mr, mr_start_ptr = Ptr 3 0, mr_size = 2, mr_status = RDMA\<rparr>"

lemmas demo_defs = demo_key_def demo_mem_def demo_send_mr_def demo_receive_mr_def demo_mrs_def demo_state_def
  demo_ctx_def demo_handle_def demo_array_def demo_mr_def demo_info_def

lemma demo_session_ok:
  "session_ok loop_verbs loop_view (demo_handle credit) (demo_ctx credit) (demo_state inbuf value mrs inbox)"
proof -
  have "nic_ok loop_verbs loop_view (demo_ctx credit)"
    using loop_sends_complete loop_registers loop_deregisters by (simp add: nic_ok_def demo_ctx_def)
  moreover have "ctx_ok loop_view (demo_ctx credit) (demo_state inbuf value mrs inbox)"
    unfolding ctx_ok_def
    by (auto simp: demo_defs loop_view_def bytes_from_def intro!: exI [of _ "[IBV_ACCESS_LOCAL_WRITE]"])
  ultimately show ?thesis
    by (simp add: session_ok_def handle_ctx_def demo_handle_def demo_ctx_def
        sizeof_ControlMessage_def CONTROL_MESSAGE_BUFFER_SIZE_def)
qed

lemma length_demo_image: "length (message_bytes msg) \<le> 4100 \<Longrightarrow> length (demo_image msg) = 4100"
  by (simp add: demo_image_def)

lemma demo_message_at:
  "message_wf msg \<Longrightarrow> message_at (Ptr 1 0) msg (pmem (demo_state (demo_image msg) value mrs inbox))"
  by (simp add: message_at_def demo_state_def demo_mem_def bytes_from_def demo_image_def)

lemma demo_entry_list:
  "entry_list (demo_array n info) =
    [\<lparr>key_address = Ptr 2 0, value_address = Ptr 3 0, value_size = n, pair_mr_rdma = info\<rparr>]"
  by (simp add: entry_list_def demo_array_def)

lemma demo_array_map:
  "array_map (demo_array n info) (pmem (demo_state inbuf value mrs inbox)) =
    [demo_key \<mapsto> \<lparr>key_address = Ptr 2 0, value_address = Ptr 3 0, value_size = n, pair_mr_rdma = info\<rparr>]"
  unfolding array_map_def demo_entry_list
  by (simp add: key_string_def c_string_def demo_key_def demo_state_def demo_mem_def bytes_from_def)

lemma demo_array_ok: "array_ok (demo_array n info) (pmem (demo_state inbuf value mrs inbox))"
  unfolding array_ok_def demo_entry_list
  by (simp add: key_string_def c_string_def demo_defs bytes_from_def)

lemma demo_server_ok:
  assumes "value \<noteq> []" and "length value = unat n"
    and "(case info of None \<Rightarrow> mrs = []
          | Some i \<Rightarrow> \<exists>mr acc. info_mr i = Some mr \<and> mr_addr mr = Ptr 3 0 \<and> mrs = [(mr, acc)])"
  shows "server_ok loop_view (demo_array n info) (demo_state inbuf value mrs inbox)"
proof -
  let ?s = "demo_state inbuf value mrs inbox"
  have regs: "block_regions loop_view (world ?s) 3 = set mrs" "\<forall>(mr, acc) \<in> set mrs. pblk (mr_addr mr) = 3"
    using assms(3) by (auto simp: block_regions_def loop_view_def demo_defs split: option.splits)
  have "value_ok loop_view ?s \<lparr>key_address = Ptr 2 0, value_address = Ptr 3 0, value_size = n, pair_mr_rdma = info\<rparr>"
    using assms regs(1)
    by (auto simp: value_ok_def bytes_from_def demo_state_def demo_mem_def loop_view_def split: option.splits)
  moreover have "2 \<notin> nic_dma loop_view (world ?s)"
    using regs(2) by (auto simp: nic_dma_def loop_view_def demo_defs)
  moreover have "pblk (mr_addr mr) < 4" if "(mr, acc) \<in> nic_mrs loop_view (world ?s)" for mr acc
    using that regs(2) by (auto simp: loop_view_def demo_defs)
  ultimately show ?thesis
    using demo_array_ok demo_array_map
    by (auto simp: server_ok_def mem_ok_def mem_avail_def key_ok_def demo_state_def demo_mem_def loop_view_def
        split: if_splits)
qed

end
