(* ===== verification/Server_Properties.thy ===== *)
theory Server_Properties
  imports Demo_Server
begin

text \<open>
  The properties of the server of LowLatencyProtocols/kv_api.c: each handler, and one pass of
  the loop of \<open>run_server\<close>, implements the abstract store of \<open>KV_Store\<close>; what follows for
  keys in progress and for a get after a set; what the server does when its trust in the
  client is broken; and that it stops when its clients ask it to.
\<close>

section \<open>Facts for the applications\<close>

definition demo_table :: KeyValueAddressArray where
  "demo_table = demo_array 2 None"

definition demo_table_busy :: KeyValueAddressArray where
  "demo_table_busy = demo_array 2 (Some demo_info)"

definition demo_idle :: "message \<Rightarrow> loop_world pstate" where
  "demo_idle msg = demo_state (demo_image msg) [118, 0] [] []"

definition demo_busy :: "message \<Rightarrow> loop_world pstate" where
  "demo_busy msg = demo_state (demo_image msg) [118, 0] [(demo_mr, [IBV_ACCESS_REMOTE_WRITE])] []"

lemma demo_idle_ok: "server_ok loop_view demo_table (demo_idle msg)"
  unfolding demo_table_def demo_idle_def by (rule demo_server_ok) simp_all

lemma demo_busy_ok: "server_ok loop_view demo_table_busy (demo_busy msg)"
  unfolding demo_table_busy_def demo_busy_def
  by (rule demo_server_ok) (simp_all add: demo_info_def demo_mr_def)

lemma demo_idle_session: "session_ok loop_verbs loop_view (demo_handle c) (demo_ctx c) (demo_idle msg)"
  unfolding demo_idle_def by (rule demo_session_ok)

lemma demo_busy_session: "session_ok loop_verbs loop_view (demo_handle c) (demo_ctx c) (demo_busy msg)"
  unfolding demo_busy_def by (rule demo_session_ok)

lemma demo_idle_at: "message_wf msg \<Longrightarrow> message_at (Ptr 1 0) msg (pmem (demo_idle msg))"
  unfolding demo_idle_def by (rule demo_message_at)

lemma demo_busy_at: "message_wf msg \<Longrightarrow> message_at (Ptr 1 0) msg (pmem (demo_busy msg))"
  unfolding demo_busy_def by (rule demo_message_at)

lemma demo_idle_store: "store_of loop_view demo_table (demo_idle msg) = [demo_key \<mapsto> Ready [118, 0]]"
  using demo_array_map [of 2 None]
  by (auto simp: store_of_def demo_table_def demo_idle_def slot_of_def demo_state_def demo_mem_def
      bytes_from_def fun_eq_iff)

lemma demo_busy_store: "store_of loop_view demo_table_busy (demo_busy msg) = [demo_key \<mapsto> Writing 2]"
proof -
  have "(demo_mr, [IBV_ACCESS_REMOTE_WRITE]) \<in> block_regions loop_view (world (demo_busy msg)) 3"
    by (simp add: block_regions_def loop_view_def demo_busy_def demo_state_def demo_mr_def)
  then have "3 \<in> nic_dma loop_view (world (demo_busy msg))"
    unfolding nic_dma_regions by (intro disjI2 exI conjI) (assumption, simp)
  then show ?thesis
    using demo_array_map [of 2 "Some demo_info"]
    by (auto simp: store_of_def demo_table_busy_def demo_busy_def slot_of_def fun_eq_iff)
qed

lemma demo_size: "unat (total_length demo_table) < 2 ^ 58" "unat (total_length demo_table_busy) < 2 ^ 58"
  by (simp_all add: demo_table_def demo_table_busy_def demo_array_def)

section \<open>The handlers implement the store\<close>

text \<open>
  C5. The eager set: on a well-formed server and an established connection, for a request
  whose value is shorter than its announced size, \<open>handle_EAGER_KV_SET\<close> returns 0, keeps the
  server well formed, sends exactly one reply, and reply and new store are a step of the
  abstract store: the key has the value of the message, or it is in progress, nothing is
  changed and the reply says so.
\<close>

theorem eager_set_refines:
  assumes "session_ok V W h ctx s" and "server_ok W A s"
    and "message_at p (Set_Eager k n v) (pmem s)" and "length v < unat n"
    and "unat (total_length A) < 2 ^ 58"
  shows "\<exists>A' s'. handle_EAGER_KV_SET V A p h s = Some (0, A', s') \<and>
    serves V W h ctx A s (Set_Eager k n v) A' s'"
  using assms by (rule eager_set_stores)

theorem eager_set_refines_witness:
  "\<exists>A' s'. handle_EAGER_KV_SET loop_verbs demo_table (Ptr 1 0) (demo_handle 50)
      (demo_idle (Set_Eager [98] 2 [120])) = Some (0, A', s') \<and>
    serves loop_verbs loop_view (demo_handle 50) (demo_ctx 50) demo_table
      (demo_idle (Set_Eager [98] 2 [120])) (Set_Eager [98] 2 [120]) A' s'"
  by (rule eager_set_refines [OF demo_idle_session demo_idle_ok demo_idle_at _ demo_size(1)])
    (simp_all add: message_wf_def)

text \<open>
  C6. The get: when a short value the server holds is a terminated string, \<open>handle_CLIENT_KV_GET\<close>
  returns 0, keeps the server well formed and answers as the abstract store does: not found,
  in progress, the value itself when it is shorter than a control message, and otherwise its
  size and the address and key under which exactly this value is registered for remote reading,
  the entry being in progress from then on.
\<close>

theorem get_refines:
  assumes "session_ok V W h ctx s" and "server_ok W A s" and "message_at p (Get k) (pmem s)"
    and "\<And>bs. store_of W A s k = Some (Ready bs) \<Longrightarrow> length bs < 4096 \<Longrightarrow> cstr bs \<noteq> None"
  shows "\<exists>A' s'. handle_CLIENT_KV_GET V A p h s = Some (0, A', s') \<and> serves V W h ctx A s (Get k) A' s'"
  using assms by (rule get_serves)

theorem get_refines_witness:
  "\<exists>A' s'. handle_CLIENT_KV_GET loop_verbs demo_table (Ptr 1 0) (demo_handle 50)
      (demo_idle (Get demo_key)) = Some (0, A', s') \<and>
    serves loop_verbs loop_view (demo_handle 50) (demo_ctx 50) demo_table
      (demo_idle (Get demo_key)) (Get demo_key) A' s'"
  by (rule get_refines [OF demo_idle_session demo_idle_ok demo_idle_at])
    (auto simp: message_wf_def demo_key_def demo_idle_store)

text \<open>
  C7. The rendezvous set: for a key that is not in progress, \<open>handle_RENDEZVOUS_KV_SET_KEY\<close>
  registers an object of the announced size for remote writing, sends exactly its address and key
  (as the client decodes them), and enters the key as being written; a key in progress is left alone and the client told so.
\<close>

theorem rendezvous_set_refines:
  assumes "session_ok V W h ctx s" and "server_ok W A s"
    and "message_at p (Set_Rendezvous k n) (pmem s)" and "0 < n"
    and "unat (total_length A) < 2 ^ 58"
  shows "\<exists>A' s'. handle_RENDEZVOUS_KV_SET_KEY V A p h s = Some (0, A', s') \<and>
    serves V W h ctx A s (Set_Rendezvous k n) A' s'"
  using assms by (rule rendezvous_set_opens)

theorem rendezvous_set_refines_witness:
  "\<exists>A' s'. handle_RENDEZVOUS_KV_SET_KEY loop_verbs demo_table (Ptr 1 0) (demo_handle 50)
      (demo_idle (Set_Rendezvous demo_key 5000)) = Some (0, A', s') \<and>
    serves loop_verbs loop_view (demo_handle 50) (demo_ctx 50) demo_table
      (demo_idle (Set_Rendezvous demo_key 5000)) (Set_Rendezvous demo_key 5000) A' s'"
  by (rule rendezvous_set_refines [OF demo_idle_session demo_idle_ok demo_idle_at _ demo_size(1)])
    (simp_all add: message_wf_def demo_key_def)

text \<open>
  C8. The end of a rendezvous set: \<open>handle_CLIENT_KV_SET_RENDEZVOUS_FIN\<close> deregisters the
  region of a known key and confirms. The key is served again, with a value of the same
  size, and no other key has changed. When the client writes no more once it has sent the
  FIN, the value is exactly the bytes that the memory held when the FIN arrived.
\<close>

theorem set_fin_refines:
  assumes "session_ok V W h ctx s" and "server_ok W A s" and "message_at p (Set_Fin k) (pmem s)"
    and e: "array_map A (pmem s) k = Some e"
  shows "\<exists>A' s' bs. handle_CLIENT_KV_SET_RENDEZVOUS_FIN V A p h s = Some (0, A', s') \<and>
    serves V W h ctx A s (Set_Fin k) A' s' \<and> store_of W A' s' = (store_of W A s)(k \<mapsto> Ready bs) \<and>
    (at_rest V \<longrightarrow> bytes_from (value_address e) (pmem s) = Some bs)"
proof -
  have "store_of W A s k = Some (slot_of W s e)" using e by (simp add: store_of_def)
  from set_fin_stores [OF assms(1-3) this] obtain A' s' bs where
    "handle_CLIENT_KV_SET_RENDEZVOUS_FIN V A p h s = Some (0, A', s')" "serves V W h ctx A s (Set_Fin k) A' s'"
    "store_of W A' s' = (store_of W A s)(k \<mapsto> Ready bs)"
    "\<forall>e. at_rest V \<and> array_map A (pmem s) k = Some e \<longrightarrow> bytes_from (value_address e) (pmem s) = Some bs" .
  with e show ?thesis by blast
qed

theorem set_fin_refines_witness:
  "\<exists>A' s' bs. handle_CLIENT_KV_SET_RENDEZVOUS_FIN loop_verbs demo_table_busy (Ptr 1 0) (demo_handle 50)
      (demo_busy (Set_Fin demo_key)) = Some (0, A', s') \<and>
    serves loop_verbs loop_view (demo_handle 50) (demo_ctx 50) demo_table_busy
      (demo_busy (Set_Fin demo_key)) (Set_Fin demo_key) A' s' \<and>
    store_of loop_view A' s' =
      (store_of loop_view demo_table_busy (demo_busy (Set_Fin demo_key)))(demo_key \<mapsto> Ready bs) \<and> bs = [118, 0]"
proof -
  have rest: "at_rest loop_verbs" by (auto simp: at_rest_def loop_verbs_def loop_dereg_mr_def)
  have map: "array_map demo_table_busy (pmem (demo_busy (Set_Fin demo_key))) demo_key =
      Some \<lparr>key_address = Ptr 2 0, value_address = Ptr 3 0, value_size = 2, pair_mr_rdma = Some demo_info\<rparr>"
    unfolding demo_busy_def demo_table_busy_def demo_array_map by simp
  have held: "bytes_from (Ptr 3 0) (pmem (demo_busy (Set_Fin demo_key))) = Some [118, 0]"
    by (simp add: demo_busy_def demo_state_def demo_mem_def bytes_from_def)
  have "message_wf (Set_Fin demo_key)" by (simp add: message_wf_def demo_key_def)
  from set_fin_refines [OF demo_busy_session demo_busy_ok demo_busy_at [OF this] map, of 50] rest held
  show ?thesis by auto
qed

text \<open>
  C9. The end of a rendezvous get: \<open>handle_CLIENT_KV_GET_RENDEZVOUS_FIN\<close> deregisters the
  region of a known key and confirms. The key is served again and no other key has changed; a
  value that was ready or being read is the same as before (one that was being written keeps
  its size).
\<close>

theorem get_fin_refines:
  assumes "session_ok V W h ctx s" and "server_ok W A s" and "message_at p (Get_Fin k) (pmem s)"
    and "store_of W A s k = Some x"
  shows "\<exists>A' s' bs. handle_CLIENT_KV_GET_RENDEZVOUS_FIN V A p h s = Some (0, A', s') \<and>
    serves V W h ctx A s (Get_Fin k) A' s' \<and> store_of W A' s' = (store_of W A s)(k \<mapsto> Ready bs) \<and>
    (x = Ready cs \<or> x = Reading cs \<longrightarrow> bs = cs) \<and> (x = Writing n \<longrightarrow> length bs = n)"
proof -
  from get_fin_stores [OF assms] obtain A' s' bs where
    "handle_CLIENT_KV_GET_RENDEZVOUS_FIN V A p h s = Some (0, A', s')" "serves V W h ctx A s (Get_Fin k) A' s'"
    "store_of W A' s' = (store_of W A s)(k \<mapsto> Ready bs)" "settles x bs" .
  moreover from this(4) have "(x = Ready cs \<or> x = Reading cs \<longrightarrow> bs = cs) \<and> (x = Writing n \<longrightarrow> length bs = n)"
    by (cases x) auto
  ultimately show ?thesis by blast
qed

text \<open>The value of the key "a" is being read.\<close>

definition demo_reading :: "loop_world pstate" where
  "demo_reading = demo_state (demo_image (Get_Fin demo_key)) [118, 0] [(demo_mr, [IBV_ACCESS_REMOTE_READ])] []"

lemma demo_reading_store: "store_of loop_view demo_table_busy demo_reading = [demo_key \<mapsto> Reading [118, 0]]"
proof -
  have "3 \<notin> nic_dma loop_view (world demo_reading)"
    by (auto simp: nic_dma_def loop_view_def demo_reading_def demo_state_def demo_mrs_def demo_mr_def
        demo_send_mr_def demo_receive_mr_def)
  then show ?thesis
    using demo_array_map [of 2 "Some demo_info"]
    by (auto simp: store_of_def demo_table_busy_def demo_reading_def slot_of_def fun_eq_iff demo_state_def
        demo_mem_def bytes_from_def)
qed

theorem get_fin_refines_witness:
  "\<exists>A' s' bs. handle_CLIENT_KV_GET_RENDEZVOUS_FIN loop_verbs demo_table_busy (Ptr 1 0) (demo_handle 50)
      demo_reading = Some (0, A', s') \<and>
    serves loop_verbs loop_view (demo_handle 50) (demo_ctx 50) demo_table_busy demo_reading (Get_Fin demo_key) A' s' \<and>
    store_of loop_view A' s' = (store_of loop_view demo_table_busy demo_reading)(demo_key \<mapsto> Ready bs) \<and>
    bs = [118, 0]"
proof -
  have S: "session_ok loop_verbs loop_view (demo_handle 50) (demo_ctx 50) demo_reading"
    unfolding demo_reading_def by (rule demo_session_ok)
  have ok: "server_ok loop_view demo_table_busy demo_reading"
    unfolding demo_reading_def demo_table_busy_def
    by (rule demo_server_ok) (simp_all add: demo_info_def demo_mr_def)
  have msg: "message_at (Ptr 1 0) (Get_Fin demo_key) (pmem demo_reading)"
    unfolding demo_reading_def by (rule demo_message_at) (simp add: message_wf_def demo_key_def)
  have "store_of loop_view demo_table_busy demo_reading demo_key = Some (Reading [118, 0])"
    by (simp add: demo_reading_store)
  from get_fin_refines [OF S ok msg this, of "[118, 0]"] show ?thesis by simp
qed

section \<open>The server loop\<close>

lemma demo_receive:
  assumes "length (message_bytes msg) \<le> 4100"
  shows "get_remote_control_message loop_verbs ((demo_handle 50)\<lparr>ctx_index := 0\<rparr>) 0
    (demo_state (replicate 4100 0) value mrs [demo_image msg]) =
    Some (0, Some (Ptr 1 0), demo_handle 49, demo_state (demo_image msg) value mrs [])"
proof -
  let ?s = "demo_state (replicate 4100 0) value mrs [demo_image msg]"
  have "splice_at 0 (demo_image msg) (replicate 4100 0) = demo_image msg"
    using length_demo_image [OF assms] by (simp add: splice_at_def)
  then have "store_bytes (Ptr 1 0) (demo_image msg) (pmem ?s) = Some (demo_mem (demo_image msg) value)"
    using length_demo_image [OF assms]
    by (simp add: store_bytes_def demo_state_def demo_mem_def fun_upd_twist)
  then have "ibv_poll_cq loop_verbs 2 1 ?s =
      ((1, [loop_wc IBV_WC_RECV]), demo_state (demo_image msg) value mrs [])"
    by (simp add: loop_verbs_def loop_poll_cq_def demo_state_def)
  then show ?thesis
    by (simp add: get_remote_control_message_def handle_ctx_def set_handle_ctx_def demo_handle_def demo_ctx_def
        poll_next_receive_wc_def loop_wc_def REFILL_RWR_THRES_def)
qed

lemma demo_receive_idle:
  "length (message_bytes msg) \<le> 4100 \<Longrightarrow>
   get_remote_control_message loop_verbs ((demo_handle 50)\<lparr>ctx_index := 0\<rparr>) 0
     (demo_state (replicate 4100 0) [118, 0] [] [demo_image msg]) =
     Some (0, Some (Ptr 1 0), demo_handle 49, demo_idle msg)"
  unfolding demo_idle_def by (rule demo_receive)

lemma demo_receive_busy:
  "length (message_bytes msg) \<le> 4100 \<Longrightarrow>
   get_remote_control_message loop_verbs ((demo_handle 50)\<lparr>ctx_index := 0\<rparr>) 0
     (demo_state (replicate 4100 0) [118, 0] [(demo_mr, [IBV_ACCESS_REMOTE_WRITE])] [demo_image msg]) =
     Some (0, Some (Ptr 1 0), demo_handle 49, demo_busy msg)"
  unfolding demo_busy_def by (rule demo_receive)

text \<open>
  C4. One pass of the loop of \<open>run_server\<close> for a client from whom a request arrived that the
  code trusts: the request is dispatched to its handler, the server goes on, and reply and new
  store are a step of the abstract store. This also holds for a server that prints its
  database, as long as every value has ten bytes or a NUL.
\<close>

theorem serve_client_refines:
  assumes "get_remote_control_message V (h\<lparr>ctx_index := i\<rparr>) 0 s = Some (0, Some p, h', s1)"
    and "session_ok V W h' ctx s1" and "server_ok W A s1"
    and "message_at p req (pmem s1)" and "request_ok (store_of W A s1) req"
    and "unat (total_length A) < 2 ^ 58"
  shows "\<exists>A' s'. serves V W h' ctx A s1 req A' s' \<and>
    ((print_database = 1 \<longrightarrow> printable_store (store_of W A' s')) \<longrightarrow>
      serve_client V print_database i h A c s = Some (False, h', A', c, s'))"
  using assms by (rule serve_client_serves)

theorem serve_client_refines_witness:
  "\<exists>A' s'. serves loop_verbs loop_view (demo_handle 49) (demo_ctx 49) demo_table (demo_idle (Get demo_key))
      (Get demo_key) A' s' \<and>
    ((0 = (1 :: int) \<longrightarrow> printable_store (store_of loop_view A' s')) \<longrightarrow>
      serve_client loop_verbs 0 0 (demo_handle 50) demo_table 0
        (demo_state (replicate 4100 0) [118, 0] [] [demo_image (Get demo_key)]) =
        Some (False, demo_handle 49, A', 0, s'))"
  by (rule serve_client_refines [OF demo_receive_idle demo_idle_session demo_idle_ok demo_idle_at _ demo_size(1)])
    (simp_all add: message_wf_def message_bytes_def demo_key_def demo_idle_store)

text \<open>
  C10. A key in progress is isolated: when the loop serves a request that the code trusts, of
  whatever client, which is not the FIN for that key, the server goes on and the slot of the key
  stays as it was. This also holds for a server that prints its database, as long as every value
  has ten bytes or a NUL.
\<close>

theorem busy_key_isolated:
  assumes "get_remote_control_message V (h\<lparr>ctx_index := i\<rparr>) 0 s = Some (0, Some p, h', s1)"
    and "session_ok V W h' ctx s1" and "server_ok W A s1"
    and "message_at p req (pmem s1)" and "request_ok (store_of W A s1) req"
    and "unat (total_length A) < 2 ^ 58"
    and "key_busy (store_of W A s1) k" and "req \<noteq> Set_Fin k" and "req \<noteq> Get_Fin k"
  shows "\<exists>A' s'. ((print_database = 1 \<longrightarrow> printable_store (store_of W A' s')) \<longrightarrow>
      serve_client V print_database i h A c s = Some (False, h', A', c, s')) \<and>
    server_ok W A' s' \<and> store_of W A' s' k = store_of W A s1 k"
proof -
  from serve_client_serves [OF assms(1-6), of print_database c] obtain A' s' where
    run: "(print_database = 1 \<longrightarrow> printable_store (store_of W A' s')) \<longrightarrow>
      serve_client V print_database i h A c s = Some (False, h', A', c, s')"
    and srv: "serves V W h' ctx A s1 req A' s'"
    by blast
  then obtain reply where "store_step (store_of W A s1) req reply (store_of W A' s')" "server_ok W A' s'"
    by (auto simp: serves_def)
  with run store_step_busy [OF _ assms(7-9)] show ?thesis by blast
qed

theorem busy_key_isolated_witness:
  "\<exists>A' s'. serve_client loop_verbs 0 0 (demo_handle 50) demo_table_busy 0
      (demo_state (replicate 4100 0) [118, 0] [(demo_mr, [IBV_ACCESS_REMOTE_WRITE])]
        [demo_image (Set_Eager demo_key 2 [120])]) = Some (False, demo_handle 49, A', 0, s') \<and>
    server_ok loop_view A' s' \<and>
    store_of loop_view A' s' demo_key =
      store_of loop_view demo_table_busy (demo_busy (Set_Eager demo_key 2 [120])) demo_key"
proof -
  let ?req = "Set_Eager demo_key 2 [120]"
  have wf: "message_wf ?req" and len: "length (message_bytes ?req) \<le> 4100"
    by (simp_all add: message_wf_def message_bytes_def demo_key_def)
  have trust: "request_ok (store_of loop_view demo_table_busy (demo_busy ?req)) ?req"
    and busy: "key_busy (store_of loop_view demo_table_busy (demo_busy ?req)) demo_key"
    by (simp_all add: demo_busy_store key_busy_def)
  show ?thesis
    using busy_key_isolated [OF demo_receive_busy [OF len] demo_busy_session demo_busy_ok demo_busy_at [OF wf] trust
        demo_size(2) busy, where print_database = 0 and c = 0] by simp
qed

section \<open>A get after a set\<close>

text \<open>
  A set is seen by the next get: after \<open>handle_EAGER_KV_SET\<close> has stored a value of less
  than 4096 bytes under a key not in progress, a get of that key that arrives next (receiving
  it changes only memory the adapter may write) is answered with exactly that value.
\<close>

theorem get_after_eager_set:
  assumes S: "session_ok V W h ctx s" and ok: "server_ok W A s"
    and set: "message_at p (Set_Eager k n v) (pmem s)" and "length v < unat n" and small: "unat n < 4096"
    and "unat (total_length A) < 2 ^ 58" and idle: "\<not> key_busy (store_of W A s) k"
  shows "\<exists>A' s'. handle_EAGER_KV_SET V A p h s = Some (0, A', s') \<and>
    (\<forall>h2 s2. server_frame W {} {} s' s2 \<and> session_ok V W h2 ctx s2 \<and> message_at p (Get k) (pmem s2) \<longrightarrow>
      (\<exists>A'' s''. handle_CLIENT_KV_GET V A' p h2 s2 = Some (0, A'', s'') \<and> replied W s2 s'' (Get_Eager v)))"
proof -
  from eager_set_stores [OF S ok set assms(4,6)] obtain A' s' where
    run: "handle_EAGER_KV_SET V A p h s = Some (0, A', s')" and srv: "serves V W h ctx A s (Set_Eager k n v) A' s'"
    by blast
  from srv idle obtain pad where ok': "server_ok W A' s'" and pad: "length (v @ 0 # pad) = unat n"
    and st: "store_of W A' s' k = Some (Ready (v @ 0 # pad))"
    by (auto simp: serves_def elim!: store_step_eagerE)
  have nz: "0 \<notin> set v" using set by (simp add: message_at_def message_wf_def)
  have "\<exists>A'' s''. handle_CLIENT_KV_GET V A' p h2 s2 = Some (0, A'', s'') \<and> replied W s2 s'' (Get_Eager v)"
    if fr: "server_frame W {} {} s' s2" and S2: "session_ok V W h2 ctx s2" and get: "message_at p (Get k) (pmem s2)"
    for h2 s2
  proof -
    have st2: "store_of W A' s2 k = Some (Ready (v @ 0 # pad))"
      using server_quiet_call(2) [OF ok' fr] st by simp
    have "\<And>bs. store_of W A' s2 k = Some (Ready bs) \<Longrightarrow> length bs < 4096 \<Longrightarrow> cstr bs \<noteq> None"
      using st2 nz by simp
    from get_serves [OF S2 server_quiet_call(1) [OF ok' fr] get this] obtain A'' s'' where
      "handle_CLIENT_KV_GET V A' p h2 s2 = Some (0, A'', s'')" "serves V W h2 ctx A' s2 (Get k) A'' s''" by blast
    then show ?thesis using st2 nz pad small by (auto simp: serves_def store_step_get_iff key_busy_def)
  qed
  with run show ?thesis by blast
qed

theorem get_after_eager_set_witness:
  "\<exists>A' s'. handle_EAGER_KV_SET loop_verbs demo_table (Ptr 1 0) (demo_handle 50)
      (demo_idle (Set_Eager demo_key 2 [120])) = Some (0, A', s') \<and>
    (\<forall>h2 s2. server_frame loop_view {} {} s' s2 \<and> session_ok loop_verbs loop_view h2 (demo_ctx 50) s2 \<and>
        message_at (Ptr 1 0) (Get demo_key) (pmem s2) \<longrightarrow>
      (\<exists>A'' s''. handle_CLIENT_KV_GET loop_verbs A' (Ptr 1 0) h2 s2 = Some (0, A'', s'') \<and>
        replied loop_view s2 s'' (Get_Eager [120])))"
  by (rule get_after_eager_set [OF demo_idle_session demo_idle_ok demo_idle_at _ _ demo_size(1)])
    (simp_all add: message_wf_def demo_key_def demo_idle_store key_busy_def)

section \<open>A get after a rendezvous set\<close>





section \<open>Broken trust\<close>

text \<open>
  C11. A FIN that names a key the database does not hold is undefined behaviour in both FIN
  handlers: \<open>deregister_rdma_mr\<close> dereferences the null pointer the search returned.
\<close>

theorem fin_for_unknown_key_is_undefined:
  assumes "array_ok A (pmem s)" and "array_map A (pmem s) k = None"
  shows "(message_at p (Set_Fin k) (pmem s) \<longrightarrow> handle_CLIENT_KV_SET_RENDEZVOUS_FIN V A p h s = None) \<and>
    (message_at p (Get_Fin k) (pmem s) \<longrightarrow> handle_CLIENT_KV_GET_RENDEZVOUS_FIN V A p h s = None)"
  using fin_unknown_crashes [OF assms] by blast

theorem fin_for_unknown_key_is_undefined_witness:
  "handle_CLIENT_KV_SET_RENDEZVOUS_FIN loop_verbs demo_table (Ptr 1 0) (demo_handle 50)
     (demo_idle (Set_Fin [98])) = None"
proof -
  have none: "array_map demo_table (pmem (demo_idle (Set_Fin [98]))) [98] = None"
    using demo_array_map [of 2 None] by (simp add: demo_table_def demo_idle_def demo_key_def)
  have "array_ok demo_table (pmem (demo_idle (Set_Fin [98])))" using demo_idle_ok by (rule server_okD)
  from fin_for_unknown_key_is_undefined [OF this none, of "Ptr 1 0" loop_verbs "demo_handle 50"] show ?thesis
    using demo_idle_at [of "Set_Fin [98]"] by (simp add: message_wf_def)
qed

text \<open>
  C12. \<open>handle_EAGER_KV_SET\<close> trusts the announced size: if the value of the message is not
  shorter than it, \<open>strcpy\<close> writes past the end of the object allocated for the value.
\<close>

theorem eager_set_trusts_size:
  assumes "server_ok W A s" and "message_at p (Set_Eager k n v) (pmem s)"
    and "\<not> key_busy (store_of W A s) k" and "unat n \<le> length v"
  shows "handle_EAGER_KV_SET V A p h s = None"
  using assms by (rule eager_oversize_crashes)

theorem eager_set_trusts_size_witness:
  "handle_EAGER_KV_SET loop_verbs demo_table (Ptr 1 0) (demo_handle 50)
     (demo_idle (Set_Eager demo_key 1 [120, 121])) = None"
  by (rule eager_set_trusts_size [OF demo_idle_ok demo_idle_at])
    (simp_all add: message_wf_def demo_key_def demo_idle_store key_busy_def)

section \<open>Shutting down\<close>

text \<open>
  C13. A SHUT_DOWN message counts: the pass ends the server exactly when it is the last of
  \<open>num_remote_host\<close>, otherwise the server goes on, unless it prints its database: then a
  SHUT_DOWN that is not the last makes it use the variable \<open>operation_to_print\<close>, which this pass
  has not assigned. And, \<open>kv_malloc\<close> not being 1, ending releases none of the memory of the keys
  and values.
\<close>

theorem shut_down_is_counted:
  assumes "get_remote_control_message V (h\<lparr>ctx_index := i\<rparr>) 0 s = Some (0, Some p, h', s1)"
    and "message_at p Shut_Down (pmem s1)" and "kv_malloc s1 \<noteq> 1"
  shows "serve_client V print_database i h A c s =
    (if c + 1 = num_remote_host h' then Some (True, h', A, c + 1, s1)
     else if print_database = 1 then None
     else Some (False, h', A, c + 1, s1))"
  using assms message_at_operation [OF assms(2)]
  by (simp add: serve_client_def serve_message_def free_array_def show_database_def)

theorem shut_down_is_counted_witness:
  "serve_client loop_verbs 0 0 (demo_handle 50) demo_table 0
     (demo_state (replicate 4100 0) [118, 0] [] [demo_image Shut_Down]) =
     Some (True, demo_handle 49, demo_table, 1, demo_idle Shut_Down) \<and>
   serve_client loop_verbs 1 0 (demo_handle 50) demo_table 1
     (demo_state (replicate 4100 0) [118, 0] [] [demo_image Shut_Down]) = None"
proof -
  have wf: "message_wf Shut_Down" and len: "length (message_bytes Shut_Down) \<le> 4100"
    and nomalloc: "kv_malloc (demo_idle Shut_Down) \<noteq> 1"
    by (simp_all add: message_wf_def message_bytes_def demo_idle_def demo_state_def)
  show ?thesis
    unfolding shut_down_is_counted [OF demo_receive_idle [OF len] demo_idle_at [OF wf] nomalloc]
    by (simp add: demo_handle_def)
qed

end
