(* ===== verification/KV_Client.thy ===== *)
theory KV_Client
  imports KV_Server
begin

text \<open>
  The client side of LowLatencyProtocols/kv_api.c: \<open>kv_set\<close>, \<open>kv_get\<close> and \<open>kv_release\<close>. The
  handle is passed and returned, because receiving changes the count of receive requests and
  the rendezvous protocols keep the region, the remote address and the key in the context.
  Sizes are naturals: strings in memory are shorter than \<open>2 ^ 64\<close>. The small structure
  \<open>MRInfo\<close> that \<open>kv_set\<close> allocates and frees is the value bound by \<open>let\<close>; its \<open>mr_status\<close>,
  which the code leaves uninitialised and never reads, is given a value.
\<close>

section \<open>Waiting for the server\<close>

text \<open>
  The blocking receive after a request: \<open>Inl\<close> when polling failed, else the address and the
  operation of the answer.
\<close>

definition await_reply ::
  "('w, 'z) verbs_scheme \<Rightarrow> KVHandle \<Rightarrow> 'w pstate \<Rightarrow>
   ((unit + ptr \<times> u32) \<times> KVHandle \<times> 'w pstate) option" where
  "await_reply V h s =
     do { (polled_message, msg, h, s) \<leftarrow> get_remote_control_message V h 1 s;
          if polled_message \<noteq> 0 then Some (Inl (), h, s)
          else do {
            remote_control_message \<leftarrow> msg;
            operation \<leftarrow> message_operation remote_control_message (pmem s);
            Some (Inr (remote_control_message, operation), h, s) } }"

section \<open>Set\<close>

definition kv_set_eager ::
  "('w, 'z) verbs_scheme \<Rightarrow> KVHandle \<Rightarrow> ptr \<Rightarrow> ptr \<Rightarrow> 'w pstate \<Rightarrow> (int \<times> KVHandle \<times> 'w pstate) option" where
  "kv_set_eager V h key value s =
     do { len \<leftarrow> c_strlen value (pmem s);
          let value_size = (of_nat (len + 1) :: size_t);
          (r, s) \<leftarrow> send_control_message V h CLIENT_KV_SET_EAGER
            [At key, Var (bytes64 value_size), At value] s;
          if r \<noteq> 0 then Some (1, h, s)
          else do {
            (reply, h, s) \<leftarrow> await_reply V h s;
            case reply of
              Inl _ \<Rightarrow> Some (1, h, s)
            | Inr (remote_control_message, operation) \<Rightarrow>
                if operation = op_code SERVER_IN_PROGRESS then Some (2, h, s)
                else if operation = op_code SERVER_KV_SET_SUCCESSFUL then Some (0, h, s)
                else Some (1, h, s) } }"

text \<open>The last phase of the rendezvous, from the RDMA write on.\<close>

definition kv_set_write ::
  "('w, 'z) verbs_scheme \<Rightarrow> KVHandle \<Rightarrow> ptr \<Rightarrow> ibv_mr \<Rightarrow> 'w pstate \<Rightarrow> (int \<times> KVHandle \<times> 'w pstate) option" where
  "kv_set_write V h key mr s =
     do { ctx \<leftarrow> handle_ctx h;
          (posted, s) \<leftarrow> pp_post_rdma V ctx IBV_WR_RDMA_WRITE s;
          (r, s) \<leftarrow> poll_n_send_wc V ctx 1 s;
          if r \<noteq> 0 then Some (1, h, s)
          else do {
            (r, s) \<leftarrow> send_control_message V h CLIENT_KV_SET_RENDEZVOUS_FIN [At key] s;
            if r \<noteq> 0 then Some (1, h, s)
            else do {
              let (r, s) = ibv_dereg_mr V mr s;
              if r \<noteq> 0 then Some (1, h, s)
              else do {
                ctx \<leftarrow> handle_ctx h;
                let h = set_handle_ctx (ctx\<lparr>mr_rdma := None, mr_rdma_start_ptr := NULL, mr_rdma_size := 0,
                                            remote_buf_rkey := 0, remote_buf_va := 0\<rparr>) h;
                (reply, h, s) \<leftarrow> await_reply V h s;
                case reply of
                  Inl _ \<Rightarrow> Some (1, h, s)
                | Inr (remote_control_message, operation) \<Rightarrow>
                    if operation = op_code SERVER_KV_SET_SUCCESSFUL then Some (0, h, s)
                    else Some (1, h, s) } } } }"

definition kv_set_rendezvous ::
  "('w, 'z) verbs_scheme \<Rightarrow> KVHandle \<Rightarrow> ptr \<Rightarrow> ptr \<Rightarrow> 'w pstate \<Rightarrow> (int \<times> KVHandle \<times> 'w pstate) option" where
  "kv_set_rendezvous V h key value s =
     do { len \<leftarrow> c_strlen value (pmem s);
          let value_size = (of_nat (len + 1) :: size_t);
          (r, s) \<leftarrow> send_control_message V h CLIENT_KV_SET_RENDEZVOUS [At key, Var (bytes64 value_size)] s;
          if r \<noteq> 0 then Some (1, h, s)
          else do {
            ctx \<leftarrow> handle_ctx h;
            let (mr, s) = ibv_reg_mr V (pd ctx) value value_size
                  [IBV_ACCESS_LOCAL_WRITE, IBV_ACCESS_REMOTE_WRITE] s;
            let temp_mr_rdma = \<lparr>info_mr = mr, mr_start_ptr = value, mr_size = value_size, mr_status = FREE\<rparr>;
            (reply, h, s) \<leftarrow> await_reply V h s;
            case reply of
              Inl _ \<Rightarrow> Some (1, h, s)
            | Inr (remote_control_message, operation) \<Rightarrow>
                if operation = op_code SERVER_IN_PROGRESS then do {
                  region \<leftarrow> info_mr temp_mr_rdma;
                  let (r, s) = ibv_dereg_mr V region s;
                  if r \<noteq> 0 then Some (3, h, s) else Some (2, h, s) }
                else do {
                  array_ptr_to_fill \<leftarrow> decode_control_message_buffer SERVER_KV_SET_RENDEZVOUS
                    (message_buf remote_control_message) (pmem s);
                  va \<leftarrow> load_u64 (array_ptr_to_fill ! 0) (pmem s);
                  rk \<leftarrow> load_u32 (array_ptr_to_fill ! 1) (pmem s);
                  ctx \<leftarrow> handle_ctx h;
                  region \<leftarrow> info_mr temp_mr_rdma;
                  let h = set_handle_ctx (ctx\<lparr>mr_rdma := Some region, mr_rdma_size := mr_size temp_mr_rdma,
                                              mr_rdma_start_ptr := mr_start_ptr temp_mr_rdma,
                                              remote_buf_va := va, remote_buf_rkey := rk\<rparr>) h;
                  kv_set_write V h key region s } } }"

definition kv_set ::
  "('w, 'z) verbs_scheme \<Rightarrow> KVHandle \<Rightarrow> ptr \<Rightarrow> ptr \<Rightarrow> 'w pstate \<Rightarrow> (int \<times> KVHandle \<times> 'w pstate) option" where
  "kv_set V h key value s =
     do { key_len \<leftarrow> c_strlen key (pmem s);
          value_len \<leftarrow> c_strlen value (pmem s);
          if key_len + value_len + 2 \<le> CONTROL_MESSAGE_BUFFER_SIZE then kv_set_eager V h key value s
          else kv_set_rendezvous V h key value s }"

section \<open>Get\<close>

text \<open>
  The second component of the result is what the call assigned to \<open>*var\<close>, \<open>None\<close> when it
  returns before doing so. A region that could not be registered is a null pointer that
  \<open>pp_post_rdma\<close> dereferences.
\<close>

definition kv_get_read ::
  "('w, 'z) verbs_scheme \<Rightarrow> KVHandle \<Rightarrow> ptr \<Rightarrow> ptr \<Rightarrow> 'w pstate \<Rightarrow>
   (int \<times> ptr option \<times> KVHandle \<times> 'w pstate) option" where
  "kv_get_read V h key var s =
     do { ctx \<leftarrow> handle_ctx h;
          (posted, s) \<leftarrow> pp_post_rdma V ctx IBV_WR_RDMA_READ s;
          (r, s) \<leftarrow> poll_n_send_wc V ctx 1 s;
          if r \<noteq> 0 then Some (1, Some var, h, s)
          else do {
            (r, s) \<leftarrow> send_control_message V h CLIENT_KV_GET_RENDEZVOUS_FIN [At key] s;
            if r \<noteq> 0 then Some (1, Some var, h, s)
            else do {
              ctx \<leftarrow> handle_ctx h;
              mr \<leftarrow> mr_rdma ctx;
              let (r, s) = ibv_dereg_mr V mr s;
              if r \<noteq> 0 then Some (1, Some var, h, s)
              else do {
                let h = set_handle_ctx (ctx\<lparr>mr_rdma_start_ptr := NULL, mr_rdma_size := 0\<rparr>) h;
                (reply, h, s) \<leftarrow> await_reply V h s;
                case reply of
                  Inl _ \<Rightarrow> Some (1, Some var, h, s)
                | Inr (remote_control_message, operation) \<Rightarrow>
                    if operation = op_code SERVER_KV_GET_SUCCESSFUL then Some (0, Some var, h, s)
                    else Some (1, Some var, h, s) } } } }"

definition kv_get ::
  "('w, 'z) verbs_scheme \<Rightarrow> KVHandle \<Rightarrow> ptr \<Rightarrow> 'w pstate \<Rightarrow>
   (int \<times> ptr option \<times> KVHandle \<times> 'w pstate) option" where
  "kv_get V h key s =
     do { (r, s) \<leftarrow> send_control_message V h CLIENT_KV_GET [At key] s;
          if r \<noteq> 0 then Some (1, None, h, s)
          else do {
            (reply, h, s) \<leftarrow> await_reply V h s;
            case reply of
              Inl _ \<Rightarrow> Some (1, None, h, s)
            | Inr (remote_control_message, operation) \<Rightarrow>
                if operation = op_code SERVER_KV_GET_EAGER then do {
                  array_ptr_to_fill \<leftarrow> decode_control_message_buffer SERVER_KV_GET_EAGER
                    (message_buf remote_control_message) (pmem s);
                  let buf_value_address = array_ptr_to_fill ! 0;
                  len \<leftarrow> c_strlen buf_value_address (pmem s);
                  let (var, m) = c_malloc (len + 1) (pmem s);
                  m \<leftarrow> c_strcpy var buf_value_address m;
                  Some (0, Some var, h, s\<lparr>pmem := m\<rparr>) }
                else if operation = op_code SERVER_KV_GET_RENDEZVOUS then do {
                  array_ptr_to_fill \<leftarrow> decode_control_message_buffer SERVER_KV_GET_RENDEZVOUS
                    (message_buf remote_control_message) (pmem s);
                  size \<leftarrow> load_u64 (array_ptr_to_fill ! 0) (pmem s);
                  va \<leftarrow> load_u64 (array_ptr_to_fill ! 1) (pmem s);
                  rk \<leftarrow> load_u32 (array_ptr_to_fill ! 2) (pmem s);
                  let (var, m) = c_malloc (unat size) (pmem s);
                  ctx \<leftarrow> handle_ctx h;
                  let (mr, s) = ibv_reg_mr V (pd ctx) var size [IBV_ACCESS_LOCAL_WRITE] (s\<lparr>pmem := m\<rparr>);
                  let h = set_handle_ctx (ctx\<lparr>mr_rdma := mr, mr_rdma_size := size, mr_rdma_start_ptr := var,
                                              remote_buf_va := va, remote_buf_rkey := rk\<rparr>) h;
                  kv_get_read V h key var s }
                else Some (1, Some NULL, h, s) } }"

definition kv_release :: "ptr \<Rightarrow> 'w pstate \<Rightarrow> 'w pstate option" where
  "kv_release value s = do { m \<leftarrow> c_free value (pmem s); Some (s\<lparr>pmem := m\<rparr>) }"

end
