(* ===== verification/KV_Receive.thy ===== *)
theory KV_Receive
  imports KV_Refinement
begin

text \<open>
  Receiving a control message (poll_next_receive_wc in LowLatencyProtocols/ib_functions.c), for
  the blocking receive of the client and the non-blocking one of the server: a received message
  costs one receive request, and refilling the queue changes no memory.
\<close>

section \<open>What goes over the wire\<close>

type_synonym sent = "(ibv_send_wr \<times> byte list) list"

text \<open>An executed send whose bytes start with the message.\<close>

definition carries :: "ibv_send_wr \<times> byte list \<Rightarrow> message \<Rightarrow> bool" where
  "carries e msg \<longleftrightarrow> (\<exists>rest. snd e = message_bytes msg @ rest)"

section \<open>Receiving\<close>

text \<open>Posting a receive request succeeds and changes no memory.\<close>

definition posts_receives :: "('w, 'z) verbs_scheme \<Rightarrow> 'w nic_view \<Rightarrow> handle \<Rightarrow> bool" where
  "posts_receives V W q \<longleftrightarrow>
     (\<forall>wr s. nic_up W (world s) \<longrightarrow>
        (\<exists>s'. ibv_post_recv V q wr s = (0, s') \<and> pmem s' = pmem s \<and> nic_call W s s' \<and>
           nic_mrs W (world s') = nic_mrs W (world s) \<and> nic_log W (world s') = nic_log W (world s)))"

text \<open>Refilling the receive queue succeeds and leaves the memory alone.\<close>

lemma pp_post_recv_loop_ok:
  assumes post: "posts_receives V W (qp ctx)" and "nic_up W (world s)"
  shows "\<exists>s'. pp_post_recv_loop V ctx mr n s = (0, s') \<and> pmem s' = pmem s \<and> nic_up W (world s') \<and>
    server_frame W {} {} s s' \<and> nic_log W (world s') = nic_log W (world s)"
  using assms(2)
proof (induction n arbitrary: s)
  case 0
  then show ?case by simp
next
  case (Suc n)
  let ?wr = "\<lparr>recv_wr_id = PINGPONG_RECEIVE_WRID,
    recv_sge = \<lparr>sge_addr = mr_control_receive_start_ptr ctx,
                sge_length = of_int (mr_control_receive_size ctx), sge_lkey = lkey mr\<rparr>\<rparr>"
  from post Suc.prems obtain s1 where s1: "ibv_post_recv V (qp ctx) ?wr s = (0, s1)"
    "pmem s1 = pmem s" "nic_call W s s1" "nic_mrs W (world s1) = nic_mrs W (world s)"
    "nic_log W (world s1) = nic_log W (world s)" unfolding posts_receives_def by blast
  have fr: "server_frame W {} {} s s1" by (rule server_frame_call [OF s1(3,4)])
  from Suc.IH [OF nic_callD(8) [OF s1(3)]] obtain s2 where
    s2: "pp_post_recv_loop V ctx mr n s1 = (0, s2)" "pmem s2 = pmem s1" "nic_up W (world s2)"
      "server_frame W {} {} s1 s2" "nic_log W (world s2) = nic_log W (world s1)" by blast
  from server_frame_trans [OF fr s2(4)] have "server_frame W {} {} s s2" by simp
  with s1 s2 show ?case by simp
qed

text \<open>A polled message is received, and the receive queue refilled when it is time.\<close>

lemma poll_next_receive_wc_ok:
  assumes post: "posts_receives V W (qp ctx)" and mr: "mr_control_receive ctx = Some mr"
    and poll: "(if blocking \<noteq> 0 then poll_recv_blocking V (receive_cq ctx) s
       else Some (ibv_poll_cq V (receive_cq ctx) 1 s)) = Some ((1, [wc]), s1)"
    and wc: "wc_status wc = IBV_WC_SUCCESS" "wc_opcode wc = IBV_WC_RECV" and up: "nic_up W (world s1)"
  obtains r s2 where "poll_next_receive_wc V ctx blocking s = Some (0, ctx\<lparr>routs := r\<rparr>, s2)"
    "pmem s2 = pmem s1" "server_frame W {} {} s1 s2" "nic_log W (world s2) = nic_log W (world s1)"
proof (cases "routs ctx - 1 \<le> REFILL_RWR_THRES \<and> routs ctx - 1 < rx_depth ctx")
  case True
  have "posts_receives V W (qp (ctx\<lparr>routs := routs ctx - 1\<rparr>))" using post by simp
  from pp_post_recv_loop_ok [OF this up, of mr "nat (rx_depth ctx - (routs ctx - 1))"] obtain s2 where
    s2: "pp_post_recv_loop V (ctx\<lparr>routs := routs ctx - 1\<rparr>) mr
        (nat (rx_depth ctx - (routs ctx - 1))) s1 = (0, s2)" "pmem s2 = pmem s1" "server_frame W {} {} s1 s2"
        "nic_log W (world s2) = nic_log W (world s1)" by blast
  with True poll wc mr have "poll_next_receive_wc V ctx blocking s = Some (0, ctx\<lparr>routs := rx_depth ctx\<rparr>, s2)"
    by (simp add: poll_next_receive_wc_def pp_post_recv_def)
  with s2 that show ?thesis by blast
next
  case False
  with poll wc have "\<exists>r. poll_next_receive_wc V ctx blocking s = Some (0, ctx\<lparr>routs := r\<rparr>, s1)"
    by (auto simp: poll_next_receive_wc_def pp_post_recv_def Let_def)
  with that [of _ s1] show ?thesis by auto
qed

end
