(* ===== verification/KV_Client_Correct.thy ===== *)
theory KV_Client_Correct
  imports KV_Client KV_Receive
begin

text \<open>
  What the client calls of LowLatencyProtocols/kv_api.c do on an established connection: the
  requests they put on the wire, in order, and the result they return for each answer. The
  peer is arbitrary: a function \<open>answer\<close> from everything sent so far to its next message.
\<close>

section \<open>The peer\<close>

text \<open>
  The blocking receive gets the peer's answer to what was sent so far; beside the message
  buffers no memory changes. Posting a receive request succeeds and changes no memory.
\<close>

definition peer_answers ::
  "('w, 'z) verbs_scheme \<Rightarrow> 'w nic_view \<Rightarrow> pingpong_context \<Rightarrow> (sent \<Rightarrow> message) \<Rightarrow> bool" where
  "peer_answers V W ctx answer \<longleftrightarrow>
     (\<forall>s bs. nic_up W (world s) \<and> bytes_from (mr_control_receive_start_ptr ctx) (pmem s) = Some bs \<and>
        sizeof_ControlMessage \<le> length bs \<longrightarrow>
        (\<exists>wc s'. polls_one V (receive_cq ctx) s wc s' \<and>
           wc_status wc = IBV_WC_SUCCESS \<and> wc_opcode wc = IBV_WC_RECV \<and>
           nic_call W s s' \<and> mem_frame (nic_work W) (pmem s) (pmem s') \<and>
           nic_mrs W (world s') = nic_mrs W (world s) \<and> nic_log W (world s') = nic_log W (world s) \<and>
           message_at (mr_control_receive_start_ptr ctx) (answer (nic_log W (world s))) (pmem s'))) \<and>
     posts_receives V W (qp ctx)"

text \<open>A peer that answers a get with an address exposes the bytes \<open>content n\<close> there.\<close>

definition peer_exposes :: "'w nic_view \<Rightarrow> (sent \<Rightarrow> message) \<Rightarrow> (size_t \<Rightarrow> byte list) \<Rightarrow> bool" where
  "peer_exposes W answer content \<longleftrightarrow>
     (\<forall>w n va rk. answer (nic_log W w) = Get_Target n va rk \<longrightarrow>
        length (content n) = unat n \<and>
        nic_remote W w (bswap_64 va) (ntohl rk) (unat n) = Some (content n))"

text \<open>
  A peer that answers the announcement of \<open>n\<close> bytes with an address and a key lets \<open>n\<close> bytes be
  written there.
\<close>

definition peer_grants :: "'w nic_view \<Rightarrow> (sent \<Rightarrow> message) \<Rightarrow> bool" where
  "peer_grants W answer \<longleftrightarrow>
     (\<forall>w l e k n va rk.
        nic_log W w = l @ [e] \<and> carries e (Set_Rendezvous k n) \<and> answer (l @ [e]) = Set_Target va rk \<longrightarrow>
        nic_target W w (bswap_64 va) (ntohl rk) (unat n))"

lemma peer_grantsD:
  assumes "peer_grants W answer" and "nic_log W w = l @ [e]" and "carries e (Set_Rendezvous k n)"
    and "answer (l @ [e]) = Set_Target va rk"
  shows "nic_target W w (bswap_64 va) (ntohl rk) (unat n)"
  using assms unfolding peer_grants_def by blast

definition client_ok ::
  "('w, 'z) verbs_scheme \<Rightarrow> 'w nic_view \<Rightarrow> (sent \<Rightarrow> message) \<Rightarrow> KVHandle \<Rightarrow> pingpong_context \<Rightarrow>
   'w pstate \<Rightarrow> bool" where
  "client_ok V W answer h ctx s \<longleftrightarrow>
     session_ok V W h ctx s \<and> mem_ok (pmem s) \<and> mem_avail (pmem s) \<and>
     reads_complete V W (qp ctx) (send_cq ctx) \<and> peer_answers V W ctx answer \<and>
     mr_control_receive ctx \<noteq> None \<and> pblk (mr_control_receive_start_ptr ctx) \<in> nic_work W \<and>
     (\<exists>bs. bytes_from (mr_control_receive_start_ptr ctx) (pmem s) = Some bs \<and>
        sizeof_ControlMessage \<le> length bs) \<and>
     (\<forall>b \<in> nic_work W. b < next_blk (pmem s))"

lemma server_frame_mrs: "server_frame W {} D s s' \<Longrightarrow> nic_mrs W (world s') = nic_mrs W (world s)"
  using server_frameD(9) [of W "{}" D s s'] by auto

lemma client_okD:
  assumes "client_ok V W answer h ctx s"
  shows "session_ok V W h ctx s" "mem_ok (pmem s)" "mem_avail (pmem s)" "handle_ctx h = Some ctx"
    "nic_up W (world s)" "peer_answers V W ctx answer" "reads_complete V W (qp ctx) (send_cq ctx)"
    "sends_complete V W (qp ctx) (send_cq ctx)" "registers V W (pd ctx)" "deregisters V W"
  using assms by (auto simp: client_ok_def session_ok_def nic_ok_def ctx_ok_def)

lemma client_ok_frame:
  assumes ok: "client_ok V W answer h ctx s" and fr: "server_frame W B D s s'" and B: "nic_work W \<inter> B = {}"
  shows "client_ok V W answer h ctx s'"
proof -
  have S: "session_ok V W h ctx s'"
    by (rule session_ok_frame [OF fr client_okD(2,1) [OF ok]]) (use B in blast)
  from ok obtain bs where bs: "bytes_from (mr_control_receive_start_ptr ctx) (pmem s) = Some bs"
    "sizeof_ControlMessage \<le> length bs" by (auto simp: client_ok_def)
  from bytes_from_frame_live [OF fr client_okD(2) [OF ok] bs(1)] obtain cs where
    "bytes_from (mr_control_receive_start_ptr ctx) (pmem s') = Some cs" "length cs = length bs" by blast
  then show ?thesis
    using ok S bs server_frameD(3-5) [OF fr] unfolding client_ok_def by fastforce
qed

text \<open>Two states of one connection's context: only counts and the temporary RDMA fields differ.\<close>

definition same_conn :: "pingpong_context \<Rightarrow> pingpong_context \<Rightarrow> bool" where
  "same_conn c d \<longleftrightarrow>
     (\<exists>r mr p n va rk. d = c\<lparr>routs := r, mr_rdma := mr, mr_rdma_start_ptr := p, mr_rdma_size := n,
                            remote_buf_va := va, remote_buf_rkey := rk\<rparr>)"

lemma client_ok_set_ctx:
  assumes ok: "client_ok V W answer h ctx s" and same: "same_conn ctx ctx'"
  shows "client_ok V W answer (set_handle_ctx ctx' h) ctx' s"
proof -
  have "handle_ctx (set_handle_ctx ctx' h) = Some ctx'"
    using client_okD(4) [OF ok] by (auto simp: handle_ctx_def set_handle_ctx_def split: if_splits)
  then show ?thesis
    using ok same
    by (auto simp: client_ok_def session_ok_def nic_ok_def ctx_ok_def peer_answers_def same_conn_def)
qed

lemma same_conn_routs: "same_conn ctx (ctx\<lparr>routs := r\<rparr>)"
  unfolding same_conn_def
  by (intro exI [of _ r] exI [of _ "mr_rdma ctx"] exI [of _ "mr_rdma_start_ptr ctx"]
      exI [of _ "mr_rdma_size ctx"] exI [of _ "remote_buf_va ctx"] exI [of _ "remote_buf_rkey ctx"]) simp

section \<open>Receiving the answer\<close>

lemma await_reply_ok:
  assumes ok: "client_ok V W answer h ctx s"
  obtains p ctx' s' where
    "await_reply V h s =
      Some (Inr (p, op_code (message_op (answer (nic_log W (world s))))), set_handle_ctx ctx' h, s')"
    "client_ok V W answer (set_handle_ctx ctx' h) ctx' s'" "ctx' = ctx\<lparr>routs := routs ctx'\<rparr>"
    "message_at p (answer (nic_log W (world s))) (pmem s')" "pblk p \<in> nic_work W"
    "server_frame W {} {} s s'" "mem_frame (nic_work W) (pmem s) (pmem s')"
    "nic_log W (world s') = nic_log W (world s)"
proof -
  let ?p = "mr_control_receive_start_ptr ctx" and ?msg = "answer (nic_log W (world s))"
  note C = client_okD [OF ok]
  from ok obtain bs mr where "bytes_from ?p (pmem s) = Some bs" "sizeof_ControlMessage \<le> length bs"
    and mr: "mr_control_receive ctx = Some mr" and work: "pblk ?p \<in> nic_work W"
    by (auto simp: client_ok_def)
  with C(5,6) obtain wc s1 where poll: "polls_one V (receive_cq ctx) s wc s1"
    and wc: "wc_status wc = IBV_WC_SUCCESS" "wc_opcode wc = IBV_WC_RECV"
    and s1: "nic_call W s s1" "mem_frame (nic_work W) (pmem s) (pmem s1)"
      "nic_mrs W (world s1) = nic_mrs W (world s)" "nic_log W (world s1) = nic_log W (world s)"
    and at: "message_at ?p ?msg (pmem s1)"
    unfolding peer_answers_def by blast
  have fr1: "server_frame W {} {} s s1" by (rule server_frame_call [OF s1(1,3)])
  have "posts_receives V W (qp ctx)" using C(6) by (simp add: peer_answers_def)
  from poll_next_receive_wc_ok [OF this mr _ wc nic_callD(8) [OF s1(1)], where s = s and blocking = 1]
    poll_recv_blocking_polls_one [OF poll]
  obtain r s2 where run: "poll_next_receive_wc V ctx 1 s = Some (0, ctx\<lparr>routs := r\<rparr>, s2)"
    and s2: "pmem s2 = pmem s1" "server_frame W {} {} s1 s2" "nic_log W (world s2) = nic_log W (world s1)"
    by auto
  from server_frame_trans [OF fr1 s2(2)] have fr: "server_frame W {} {} s s2" by simp
  let ?ctx = "ctx\<lparr>routs := r\<rparr>"
  have ok2: "client_ok V W answer (set_handle_ctx ?ctx h) ?ctx s2"
    by (rule client_ok_set_ctx [OF client_ok_frame [OF ok fr] same_conn_routs]) simp
  have at2: "message_at ?p ?msg (pmem s2)" using at s2(1) by simp
  have "await_reply V h s = Some (Inr (?p, op_code (message_op ?msg)), set_handle_ctx ?ctx h, s2)"
    using C(4) run message_at_operation [OF at2]
    by (simp add: await_reply_def get_remote_control_message_def)
  from that [OF this ok2 _ at2 work fr] s1(2,4) s2 show ?thesis by simp
qed

text \<open>Sending a request.\<close>

lemma client_send:
  assumes ok: "client_ok V W answer h ctx s" and srcs: "message_srcs msg srcs (pmem s)"
    "srcs_blocks srcs \<inter> nic_work W = {}" and fits: "length (message_bytes msg) \<le> sizeof_ControlMessage"
  obtains s' e where "send_control_message V h (message_op msg) srcs s = Some (0, s')"
    "server_frame W {} {} s s'" "client_ok V W answer h ctx s'"
    "nic_log W (world s') = nic_log W (world s) @ [e]" "carries e msg"
proof -
  from send_control_message_sends [OF client_okD(1,2) [OF ok] srcs fits] obtain s' where
    s': "send_control_message V h (message_op msg) srcs s = Some (0, s')" "server_frame W {} {} s s'"
      "session_ok V W h ctx s'" "replied W s s' msg" .
  have "client_ok V W answer h ctx s'" by (rule client_ok_frame [OF ok s'(2)]) simp
  with s' that show ?thesis by (fastforce simp: replied_def carries_def)
qed

section \<open>Set\<close>

lemma c_string_server_frame:
  assumes "server_frame W B D s s'" and "mem_ok (pmem s)" and "c_string p (pmem s) = Some k"
    and "pblk p \<notin> nic_dma W (world s)"
  shows "c_string p (pmem s') = Some k"
proof -
  have "pblk p < next_blk (pmem s)" using c_string_live [OF assms(3)] mem_ok_live [OF assms(2)] by blast
  from server_frameD(1) [OF assms(1) this assms(4)] c_string_cong [of "pmem s'" p "pmem s"] assms(3)
  show ?thesis by simp
qed

text \<open>How the client reads the last answer.\<close>

fun set_result :: "message \<Rightarrow> int" where
  "set_result Set_Successful = 0"
| "set_result In_Progress = 2"
| "set_result _ = 1"

lemma set_result_op:
  "set_result msg =
    (if message_op msg = SERVER_IN_PROGRESS then 2
     else if message_op msg = SERVER_KV_SET_SUCCESSFUL then 0 else 1)"
  by (cases msg) simp_all

lemma kv_set_eager_run:
  assumes ok: "client_ok V W answer h ctx s"
    and strings: "c_string key (pmem s) = Some k" "c_string value (pmem s) = Some v"
    and apart: "pblk key \<notin> nic_work W" "pblk value \<notin> nic_work W"
    and small: "length k + length v + 10 \<le> CONTROL_MESSAGE_BUFFER_SIZE"
  shows "\<exists>e h' ctx' s'.
    kv_set V h key value s = Some (set_result (answer (nic_log W (world s) @ [e])), h', s') \<and>
    carries e (Set_Eager k (of_nat (length v + 1)) v) \<and>
    nic_log W (world s') = nic_log W (world s) @ [e] \<and>
    server_frame W {} {} s s' \<and> client_ok V W answer h' ctx' s'"
proof -
  let ?msg = "Set_Eager k (of_nat (length v + 1)) v"
  let ?srcs = "[At key, Var (bytes64 (of_nat (length v + 1))), At value]"
  have "message_srcs ?msg ?srcs (pmem s)" using strings by simp
  moreover have "srcs_blocks ?srcs \<inter> nic_work W = {}" using apart by (simp add: srcs_blocks_def)
  moreover have "length (message_bytes ?msg) \<le> sizeof_ControlMessage"
    using small by (simp add: short_reply)
  ultimately obtain s1 e where
    snd: "send_control_message V h (message_op ?msg) ?srcs s = Some (0, s1)" and fr1: "server_frame W {} {} s s1"
    and ok1: "client_ok V W answer h ctx s1" and log1: "nic_log W (world s1) = nic_log W (world s) @ [e]"
    and e: "carries e ?msg"
    by (rule client_send [OF ok])
  from await_reply_ok [OF ok1] obtain p ctx' s2 where
    rep: "await_reply V h s1 = Some (Inr (p, op_code (message_op (answer (nic_log W (world s1))))),
      set_handle_ctx ctx' h, s2)" and ok2: "client_ok V W answer (set_handle_ctx ctx' h) ctx' s2"
    and fr2: "server_frame W {} {} s1 s2" and log2: "nic_log W (world s2) = nic_log W (world s1)" by metis
  from server_frame_trans [OF fr1 fr2] have fr: "server_frame W {} {} s s2" by simp
  have "kv_set V h key value s = kv_set_eager V h key value s"
    using small c_strlen_string [OF strings(1)] c_strlen_string [OF strings(2)] by (simp add: kv_set_def)
  also have "\<dots> = Some (set_result (answer (nic_log W (world s) @ [e])), set_handle_ctx ctx' h, s2)"
    using c_strlen_string [OF strings(2)] snd rep log1
    by (simp add: kv_set_eager_def set_result_op del: of_nat_add)
  finally show ?thesis
    using e log1 log2 ok2 fr by metis
qed

text \<open>A set that is confirmed, and a get that follows it.\<close>

primrec follows_store :: "(sent \<Rightarrow> message) \<Rightarrow> message list \<Rightarrow> store \<Rightarrow> sent \<Rightarrow> bool" where
  "follows_store answer [] st l = True"
| "follows_store answer (req # reqs) st l =
     (\<forall>e. carries e req \<longrightarrow>
        (\<exists>st'. store_step st req (answer (l @ [e])) st' \<and> follows_store answer reqs st' (l @ [e])))"

lemma follows_eager_set:
  assumes "follows_store answer (Set_Eager k (of_nat (length v + 1)) v # reqs) st l"
    and "\<not> key_busy st k" and "length v < 4096" and "carries e (Set_Eager k (of_nat (length v + 1)) v)"
  shows "answer (l @ [e]) = Set_Successful" and "follows_store answer reqs (st(k \<mapsto> Ready (v @ [0]))) (l @ [e])"
proof -
  have n: "unat (of_nat (length v + 1) :: size_t) = length v + 1" using assms(3) by (simp add: unat_of_nat del: of_nat_add of_nat_Suc)
  from assms(1,4) obtain st' where
    st': "store_step st (Set_Eager k (of_nat (length v + 1)) v) (answer (l @ [e])) st'"
    "follows_store answer reqs st' (l @ [e])" unfolding follows_store.simps by blast
  from st'(1) have "answer (l @ [e]) = Set_Successful \<and> st' = st(k \<mapsto> Ready (v @ [0]))"
    by (rule store_step_eagerE) (use assms(2) n in auto)
  with st'(2) show "answer (l @ [e]) = Set_Successful"
    "follows_store answer reqs (st(k \<mapsto> Ready (v @ [0]))) (l @ [e])" by simp_all
qed

lemma follows_get_ready:
  assumes "follows_store answer (Get k # reqs) st l" and "st k = Some (Ready (v @ [0]))"
    and "length v + 1 < 4096" and "0 \<notin> set v" and "carries e (Get k)"
  shows "answer (l @ [e]) = Get_Eager v"
proof -
  from assms(1,5) obtain st' where "store_step st (Get k) (answer (l @ [e])) st'"
    unfolding follows_store.simps by blast
  then show ?thesis by (rule store_step_getE) (use assms(2-4) in \<open>auto simp: key_busy_def\<close>)
qed

text \<open>
  A message the guard of \<open>kv_set\<close> lets through although it is longer than the send buffer: the
  guard leaves the 8 bytes of the size out. The rest of the message lands behind the buffer.
\<close>

lemma set_control_message_overflows:
  assumes ok: "client_ok V W answer h ctx s"
    and strings: "c_string key (pmem s) = Some k" "c_string value (pmem s) = Some v"
    and apart: "pblk key \<notin> nic_work W" "pblk value \<notin> nic_work W"
    and long: "CONTROL_MESSAGE_BUFFER_SIZE < length k + length v + 10"
    and room: "bytes_from (mr_control_send_start_ptr ctx) (pmem s) = Some bs" "length k + length v + 14 \<le> length bs"
  defines "msg \<equiv> Set_Eager k (of_nat (length v + 1)) v"
  shows "\<exists>m. set_control_message h CLIENT_KV_SET_EAGER [At key, Var (bytes64 (of_nat (length v + 1))), At value] s =
      Some (s\<lparr>pmem := m\<rparr>) \<and> mr_control_send_size ctx < int (length (message_bytes msg)) \<and>
    bytes_from (mr_control_send_start_ptr ctx) m = Some (message_bytes msg @ drop (length (message_bytes msg)) bs)"
proof -
  let ?srcs = "[At key, Var (bytes64 (of_nat (length v + 1))), At value]"
  note C = client_okD [OF ok]
  from C(1) have "handle_ctx h = Some ctx" and ctx: "ctx_ok W ctx s"
    and size: "mr_control_send_size ctx = int sizeof_ControlMessage" by (auto simp: session_ok_def)
  moreover from ctx have "pblk (mr_control_send_start_ptr ctx) \<in> nic_work W" by (auto simp: ctx_ok_def)
  with apart have "srcs_blocks ?srcs \<inter> {pblk (mr_control_send_start_ptr ctx)} = {}" by (auto simp: srcs_blocks_def)
  moreover have "message_srcs msg ?srcs (pmem s)" using strings by (simp add: msg_def)
  moreover have len: "length (message_bytes msg) = length k + length v + 14" by (simp add: msg_def length_message_bytes)
  moreover have "length (message_bytes msg) \<le> length bs" using room(2) len by simp
  ultimately have "\<exists>m. set_control_message h (message_op msg) ?srcs s = Some (s\<lparr>pmem := m\<rparr>) \<and>
      bytes_from (mr_control_send_start_ptr ctx) m = Some (message_bytes msg @ drop (length (message_bytes msg)) bs)"
    using set_control_message_bytes [of h ctx s bs msg ?srcs] room(1) by blast
  moreover have "mr_control_send_size ctx < int (length (message_bytes msg))"
    using size long len by (simp add: sizeof_ControlMessage_def)
  moreover have "message_op msg = CLIENT_KV_SET_EAGER" by (simp add: msg_def)
  ultimately show ?thesis by auto
qed

lemma kv_set_eager_long:
  assumes ok: "client_ok V W answer h ctx s"
    and strings: "c_string key (pmem s) = Some k" "c_string value (pmem s) = Some v"
    and apart: "pblk key \<notin> nic_work W" "pblk value \<notin> nic_work W"
    and guard: "length k + length v + 2 \<le> CONTROL_MESSAGE_BUFFER_SIZE"
    and long: "CONTROL_MESSAGE_BUFFER_SIZE < length k + length v + 10"
    and room: "bytes_from (mr_control_send_start_ptr ctx) (pmem s) = Some bs" "length k + length v + 14 \<le> length bs"
  shows "\<exists>wr h' s'.
    kv_set V h key value s =
      Some (set_result (answer (nic_log W (world s) @
        [(wr, take sizeof_ControlMessage (message_bytes (Set_Eager k (of_nat (length v + 1)) v)))])), h', s') \<and>
    nic_log W (world s') = nic_log W (world s) @
      [(wr, take sizeof_ControlMessage (message_bytes (Set_Eager k (of_nat (length v + 1)) v)))]"
proof -
  let ?msg = "Set_Eager k (of_nat (length v + 1)) v"
  let ?srcs = "[At key, Var (bytes64 (of_nat (length v + 1))), At value]"
  note C = client_okD [OF ok]
  have len: "length (message_bytes ?msg) = length k + length v + 14" by (simp add: length_message_bytes)
  have "message_srcs ?msg ?srcs (pmem s)" using strings by simp
  moreover have "srcs_blocks ?srcs \<inter> nic_work W = {}" using apart by (simp add: srcs_blocks_def)
  moreover have "length (message_bytes ?msg) \<le> length bs" using room(2) len by simp
  ultimately obtain s1 wr where
    snd: "send_control_message V h (message_op ?msg) ?srcs s = Some (0, s1)" and fr1: "server_frame W {} {} s s1"
    and log1: "nic_log W (world s1) = nic_log W (world s) @
      [(wr, take sizeof_ControlMessage (message_bytes ?msg @ drop (length (message_bytes ?msg)) bs))]"
    by (rule send_control_message_image [OF C(1,2) _ _ room(1)])
  have ok1: "client_ok V W answer h ctx s1" by (rule client_ok_frame [OF ok fr1]) simp
  from await_reply_ok [OF ok1] obtain p ctx' s2 where
    rep: "await_reply V h s1 = Some (Inr (p, op_code (message_op (answer (nic_log W (world s1))))),
      set_handle_ctx ctx' h, s2)" and log2: "nic_log W (world s2) = nic_log W (world s1)" by metis
  have cut: "take sizeof_ControlMessage (message_bytes ?msg @ drop (length (message_bytes ?msg)) bs) =
      take sizeof_ControlMessage (message_bytes ?msg)"
    using long len by (simp add: sizeof_ControlMessage_def)
  have "kv_set V h key value s = kv_set_eager V h key value s"
    using guard c_strlen_string [OF strings(1)] c_strlen_string [OF strings(2)] by (simp add: kv_set_def)
  also have "\<dots> = Some (set_result (answer (nic_log W (world s1))), set_handle_ctx ctx' h, s2)"
    using c_strlen_string [OF strings(2)] snd rep
    by (simp add: kv_set_eager_def set_result_op del: of_nat_add)
  finally show ?thesis using log1 log2 cut by auto
qed

text \<open>Posting the RDMA request the context describes and waiting for its completion.\<close>

lemma rdma_write_run:
  assumes ok: "client_ok V W answer h ctx s"
    and mr: "mr_rdma ctx = Some mr" "(mr, acc) \<in> nic_mrs W (world s)" "mr_addr mr = mr_rdma_start_ptr ctx"
      "mr_length mr = mr_rdma_size ctx" "unat (mr_rdma_size ctx) < 2 ^ 32"
    and bs: "load_bytes (mr_rdma_start_ptr ctx) (unat (mr_rdma_size ctx)) (pmem s) = Some bs"
    and grant: "nic_target W (world s) (bswap_64 (remote_buf_va ctx)) (ntohl (remote_buf_rkey ctx))
      (unat (mr_rdma_size ctx))"
  obtains s1 s2 where "pp_post_rdma V ctx IBV_WR_RDMA_WRITE s = Some (0, s1)"
    "poll_n_send_wc V ctx 1 s1 = Some (0, s2)" "nic_call W s s2"
    "nic_mrs W (world s2) = nic_mrs W (world s)"
    "nic_log W (world s2) = nic_log W (world s) @ [(rdma_wr ctx mr IBV_WR_RDMA_WRITE, bs)]"
proof -
  let ?wr = "rdma_wr ctx mr IBV_WR_RDMA_WRITE"
  have len: "unat (sge_length (send_sge ?wr)) = unat (mr_rdma_size ctx)"
    using mr(5) by (simp add: rdma_wr_def unsigned_ucast_eq take_bit_nat_eq_self)
  have fields: "send_opcode ?wr = IBV_WR_RDMA_WRITE" "lkey mr = sge_lkey (send_sge ?wr)"
    "mr_addr mr = sge_addr (send_sge ?wr)"
    using mr(3) by (simp_all add: rdma_wr_def)
  moreover have "unat (sge_length (send_sge ?wr)) \<le> unat (mr_length mr)" using len mr(4) by simp
  moreover have "load_bytes (sge_addr (send_sge ?wr)) (unat (sge_length (send_sge ?wr))) (pmem s) = Some bs"
    using bs len by (simp add: rdma_wr_def)
  moreover have "nic_target W (world s) (rdma_remote_addr ?wr) (rdma_rkey ?wr) (unat (sge_length (send_sge ?wr)))"
    using grant unfolding len by (simp add: rdma_wr_def)
  moreover have "send_opcode ?wr \<noteq> IBV_WR_RDMA_READ" using fields by simp
  ultimately obtain s1 s2 wc where
    post: "ibv_post_send V (qp ctx) ?wr s = (0, s1)" and poll: "polls_one V (send_cq ctx) s1 wc s2"
    and wc: "wc_status wc = IBV_WC_SUCCESS" "wc_opcode wc = wc_opcode_of (send_opcode ?wr)"
    and fin: "nic_call W s s2" "nic_mrs W (world s2) = nic_mrs W (world s)"
      "nic_log W (world s2) = nic_log W (world s) @ [(?wr, bs)]"
    using client_okD(5,8) [OF ok] mr(2) unfolding sends_complete_def by blast
  have "poll_n_send_wc V ctx 1 s1 = Some (0, s2)"
    by (rule poll_n_send_wc_one [OF poll wc(1)]) (simp add: wc(2) fields)
  moreover have "pp_post_rdma V ctx IBV_WR_RDMA_WRITE s = Some (0, s1)"
    using post mr(1) by (simp add: pp_post_rdma_def)
  ultimately show ?thesis using that fin by blast
qed

text \<open>
  The last phase of a rendezvous set: the value goes to the address the server sent, under
  its key, then the FIN; the region is revoked and the temporary fields are cleared.
\<close>

lemma kv_set_write_run:
  assumes ok: "client_ok V W answer h ctx s"
    and mr: "mr_rdma ctx = Some mr" "(mr, acc) \<in> nic_mrs W (world s)" "mr_addr mr = mr_rdma_start_ptr ctx"
      "mr_length mr = mr_rdma_size ctx" "unat (mr_rdma_size ctx) < 2 ^ 32"
    and bs: "load_bytes (mr_rdma_start_ptr ctx) (unat (mr_rdma_size ctx)) (pmem s) = Some bs"
    and grant: "nic_target W (world s) (bswap_64 (remote_buf_va ctx)) (ntohl (remote_buf_rkey ctx))
      (unat (mr_rdma_size ctx))"
    and key: "c_string key (pmem s) = Some k" "pblk key \<notin> nic_dma W (world s)"
    and small: "length k + 1 \<le> CONTROL_MESSAGE_BUFFER_SIZE" and nbuf: "pblk (mr_rdma_start_ptr ctx) \<notin> nic_work W"
  shows "\<exists>e h' ctx' s'.
    kv_set_write V h key mr s =
      Some (if answer (nic_log W (world s) @ [(rdma_wr ctx mr IBV_WR_RDMA_WRITE, bs), e]) = Set_Successful
            then 0 else 1, h', s') \<and>
    carries e (Set_Fin k) \<and>
    nic_log W (world s') = nic_log W (world s) @ [(rdma_wr ctx mr IBV_WR_RDMA_WRITE, bs), e] \<and>
    nic_mrs W (world s') = {(mr', acc') \<in> nic_mrs W (world s). mr' \<noteq> mr} \<and>
    mr_rdma ctx' = None \<and> client_ok V W answer h' ctx' s'"
proof -
  let ?w = "(rdma_wr ctx mr IBV_WR_RDMA_WRITE, bs)"
  note C = client_okD [OF ok]
  from rdma_write_run [OF ok mr bs grant] obtain s1 s2 where
    post: "pp_post_rdma V ctx IBV_WR_RDMA_WRITE s = Some (0, s1)"
    and poll: "poll_n_send_wc V ctx 1 s1 = Some (0, s2)" and call: "nic_call W s s2"
    and mrs2: "nic_mrs W (world s2) = nic_mrs W (world s)"
    and log2: "nic_log W (world s2) = nic_log W (world s) @ [?w]" .
  have fr2: "server_frame W {} {} s s2" by (rule server_frame_call [OF call mrs2])
  have ok2: "client_ok V W answer h ctx s2" by (rule client_ok_frame [OF ok fr2]) simp
  have key2: "c_string key (pmem s2) = Some k" by (rule c_string_server_frame [OF fr2 C(2) key])
  have nwork: "pblk key \<notin> nic_work W" using key(2) nic_work_dma [of W "world s"] by blast
  have "message_srcs (Set_Fin k) [At key] (pmem s2)" "srcs_blocks [At key] \<inter> nic_work W = {}"
    "length (message_bytes (Set_Fin k)) \<le> sizeof_ControlMessage"
    using key2 nwork small by (simp_all add: short_reply)
  from client_send [OF ok2 this] obtain s3 e where
    snd: "send_control_message V h CLIENT_KV_SET_RENDEZVOUS_FIN [At key] s2 = Some (0, s3)"
    and fr3: "server_frame W {} {} s2 s3" and ok3: "client_ok V W answer h ctx s3"
    and log3: "nic_log W (world s3) = nic_log W (world s2) @ [e]" and e: "carries e (Set_Fin k)" by auto
  have mrs3: "nic_mrs W (world s3) = nic_mrs W (world s)" using server_frame_mrs [OF fr3] mrs2 by simp
  have "(mr, acc) \<in> nic_mrs W (world s3)" using mr(2) mrs3 by simp
  with client_okD(5,10) [OF ok3] obtain s4 where
    dereg: "ibv_dereg_mr V mr s3 = (0, s4)" and call4: "nic_call W s3 s4"
    and mrs4: "nic_mrs W (world s4) = {(mr', acc') \<in> nic_mrs W (world s3). mr' \<noteq> mr}"
    and log4: "nic_log W (world s4) = nic_log W (world s3)"
    unfolding deregisters_def by blast
  from server_frame_deregister [OF call4 mrs4] mr(3)
  have fr4: "server_frame W {pblk (mr_rdma_start_ptr ctx)} {} s3 s4" by simp
  let ?ctx = "ctx\<lparr>mr_rdma := None, mr_rdma_start_ptr := NULL, mr_rdma_size := 0,
    remote_buf_rkey := 0, remote_buf_va := 0\<rparr>"
  have "same_conn ctx ?ctx"
    unfolding same_conn_def by (rule exI [of _ "routs ctx"], intro exI) (rule pingpong_context.equality; simp)
  from client_ok_set_ctx [OF client_ok_frame [OF ok3 fr4] this] nbuf
  have ok4: "client_ok V W answer (set_handle_ctx ?ctx h) ?ctx s4" by simp
  from await_reply_ok [OF ok4] obtain p ctx' s5 where
    rep: "await_reply V (set_handle_ctx ?ctx h) s4 =
      Some (Inr (p, op_code (message_op (answer (nic_log W (world s4))))),
        set_handle_ctx ctx' (set_handle_ctx ?ctx h), s5)"
    and ok5: "client_ok V W answer (set_handle_ctx ctx' (set_handle_ctx ?ctx h)) ctx' s5"
    and ctx': "ctx' = ?ctx\<lparr>routs := routs ctx'\<rparr>"
    and fr5: "server_frame W {} {} s4 s5" and log5: "nic_log W (world s5) = nic_log W (world s4)" by metis
  have log: "nic_log W (world s4) = nic_log W (world s) @ [?w, e]" using log2 log3 log4 by simp
  have mrs: "nic_mrs W (world s5) = {(mr', acc') \<in> nic_mrs W (world s). mr' \<noteq> mr}"
    using server_frame_mrs [OF fr5] mrs3 mrs4 by simp
  have op: "message_op msg = SERVER_KV_SET_SUCCESSFUL \<longleftrightarrow> msg = Set_Successful" for msg by (cases msg) simp_all
  have run: "kv_set_write V h key mr s =
      Some (if answer (nic_log W (world s) @ [?w, e]) = Set_Successful then 0 else 1,
        set_handle_ctx ctx' (set_handle_ctx ?ctx h), s5)"
    using C(4) post poll snd dereg rep log by (simp add: kv_set_write_def op)
  have cleared: "mr_rdma ctx' = None" by (subst ctx') simp
  have "nic_log W (world s5) = nic_log W (world s) @ [?w, e]" using log log5 by simp
  then show ?thesis by (intro exI conjI) (rule run, rule e, assumption, rule mrs, rule cleared, rule ok5)
qed

text \<open>What a client hands to \<open>kv_set\<close>: two strings in objects of its own.\<close>

definition client_strings ::
  "'w nic_view \<Rightarrow> 'w pstate \<Rightarrow> ptr \<Rightarrow> byte list \<Rightarrow> ptr \<Rightarrow> byte list \<Rightarrow> bool" where
  "client_strings W s key k value v \<longleftrightarrow>
     c_string key (pmem s) = Some k \<and> c_string value (pmem s) = Some v \<and>
     pblk key \<noteq> pblk value \<and> pblk key \<notin> nic_dma W (world s) \<and> pblk value \<notin> nic_work W \<and>
     block_regions W (world s) (pblk value) = {}"

text \<open>The first phase: announcing the value, registering it and getting the answer.\<close>

lemma kv_set_announce:
  assumes ok: "client_ok V W answer h ctx s" and str: "client_strings W s key k value v"
    and key: "length k + 9 \<le> CONTROL_MESSAGE_BUFFER_SIZE" and len: "length v + 1 < 2 ^ 64"
  defines "n \<equiv> of_nat (length v + 1) :: size_t"
    and "acc \<equiv> [IBV_ACCESS_LOCAL_WRITE, IBV_ACCESS_REMOTE_WRITE]"
  obtains e s1 mr s2 p ctx' s3 where
    "send_control_message V h CLIENT_KV_SET_RENDEZVOUS [At key, Var (bytes64 n)] s = Some (0, s1)"
    "carries e (Set_Rendezvous k n)" "ibv_reg_mr V (pd ctx) value n acc s1 = (Some mr, s2)"
    "mr_addr mr = value" "mr_length mr = n"
    "await_reply V h s2 = Some (Inr (p, op_code (message_op (answer (nic_log W (world s) @ [e])))),
       set_handle_ctx ctx' h, s3)"
    "message_at p (answer (nic_log W (world s) @ [e])) (pmem s3)" "pblk p \<in> nic_work W"
    "client_ok V W answer (set_handle_ctx ctx' h) ctx' s3"
    "nic_log W (world s3) = nic_log W (world s) @ [e]"
    "nic_mrs W (world s3) = insert (mr, acc) (nic_mrs W (world s))"
    "c_string key (pmem s3) = Some k" "pblk key \<notin> nic_dma W (world s3)"
    "c_string value (pmem s3) = Some v"
proof -
  let ?msg = "Set_Rendezvous k n"
  note C = client_okD [OF ok]
  from str have strings: "c_string key (pmem s) = Some k" "c_string value (pmem s) = Some v"
    and apart: "pblk key \<noteq> pblk value" "pblk key \<notin> nic_dma W (world s)" "pblk value \<notin> nic_work W"
    and none: "block_regions W (world s) (pblk value) = {}" by (auto simp: client_strings_def)
  have kwork: "pblk key \<notin> nic_work W" using apart(2) nic_work_dma [of W "world s"] by blast
  have vdma: "pblk value \<notin> nic_dma W (world s)" using apart(3) none by (simp add: nic_dma_regions)
  have n: "unat n = length v + 1" using len unfolding n_def by (intro unat_size_of_nat) simp
  have "message_srcs ?msg [At key, Var (bytes64 n)] (pmem s)"
    "srcs_blocks [At key, Var (bytes64 n)] \<inter> nic_work W = {}"
    "length (message_bytes ?msg) \<le> sizeof_ControlMessage"
    using strings kwork key by (simp_all add: short_reply)
  from client_send [OF ok this] obtain s1 e where
    snd: "send_control_message V h (message_op ?msg) [At key, Var (bytes64 n)] s = Some (0, s1)"
    and fr1: "server_frame W {} {} s s1" and ok1: "client_ok V W answer h ctx s1"
    and log1: "nic_log W (world s1) = nic_log W (world s) @ [e]" and e: "carries e ?msg" .
  have v1: "c_string value (pmem s1) = Some v" by (rule c_string_server_frame [OF fr1 C(2) strings(2) vdma])
  have k1: "c_string key (pmem s1) = Some k" by (rule c_string_server_frame [OF fr1 C(2) strings(1) apart(2)])
  from c_string_bytes [OF v1] cstr_length obtain bs where bs: "bytes_from value (pmem s1) = Some bs"
    "length v < length bs" by fastforce
  have "0 < n" using n by (cases "n = 0") (simp_all add: word_neq_0_conv)
  moreover have "unat n \<le> length bs" using n bs(2) by simp
  ultimately obtain mr s2 where reg: "ibv_reg_mr V (pd ctx) value n acc s1 = (Some mr, s2)"
    "mr_addr mr = value" "mr_length mr = n"
    and mrs2: "nic_mrs W (world s2) = insert (mr, acc) (nic_mrs W (world s1))" and call2: "nic_call W s1 s2"
    and log2: "nic_log W (world s2) = nic_log W (world s1)"
    using client_okD(5,9) [OF ok1] bs(1) unfolding registers_def by blast
  from server_frame_register [OF call2 mrs2] reg(2)
  have fr2: "server_frame W {pblk value} {pblk value} s1 s2" by (simp add: acc_def)
  have ok2: "client_ok V W answer h ctx s2" by (rule client_ok_frame [OF ok1 fr2]) (use apart(3) in simp)
  have dma1: "nic_dma W (world s1) = nic_dma W (world s)" by (rule nic_dma_cong [OF server_frame_mrs [OF fr1]])
  have v2: "c_string value (pmem s2) = Some v"
    by (rule c_string_server_frame [OF fr2 client_okD(2) [OF ok1] v1]) (use vdma dma1 in simp)
  have k2: "c_string key (pmem s2) = Some k"
    by (rule c_string_server_frame [OF fr2 client_okD(2) [OF ok1] k1]) (use apart(2) dma1 in simp)
  have kdma2: "pblk key \<notin> nic_dma W (world s2)"
    using server_frameD(10) [OF fr2] apart(1,2) dma1 by auto
  from await_reply_ok [OF ok2] obtain p ctx' s3 where
    rep: "await_reply V h s2 = Some (Inr (p, op_code (message_op (answer (nic_log W (world s2))))),
      set_handle_ctx ctx' h, s3)" and ok3: "client_ok V W answer (set_handle_ctx ctx' h) ctx' s3"
    and "ctx' = ctx\<lparr>routs := routs ctx'\<rparr>" and at: "message_at p (answer (nic_log W (world s2))) (pmem s3)"
    and pw: "pblk p \<in> nic_work W"
    and fr3: "server_frame W {} {} s2 s3" and mf: "mem_frame (nic_work W) (pmem s2) (pmem s3)"
    and log3: "nic_log W (world s3) = nic_log W (world s2)" .
  have kdma3: "pblk key \<notin> nic_dma W (world s3)" using server_frameD(10) [OF fr3] kdma2 by auto
  have log: "nic_log W (world s2) = nic_log W (world s) @ [e]" using log2 log1 by simp
  show ?thesis
  proof (rule that)
    show "c_string value (pmem s3) = Some v" "c_string key (pmem s3) = Some k"
      using c_string_frame [OF mf] v2 k2 apart(3) kwork by simp_all
    show "nic_mrs W (world s3) = insert (mr, acc) (nic_mrs W (world s))"
      using server_frame_mrs [OF fr3] mrs2 server_frame_mrs [OF fr1] by simp
  qed (use snd e reg rep at pw ok3 log log3 kdma3 in simp_all)
qed

lemma kv_set_large:
  "client_strings W s key k value v \<Longrightarrow> CONTROL_MESSAGE_BUFFER_SIZE < length k + length v + 2 \<Longrightarrow>
   kv_set V h key value s = kv_set_rendezvous V h key value s"
  by (simp add: client_strings_def kv_set_def c_strlen_string)

lemma new_region:
  "block_regions W w b = {} \<Longrightarrow> pblk (mr_addr mr) = b \<Longrightarrow>
   {(mr', acc') \<in> insert (mr, acc) (nic_mrs W w). mr' \<noteq> mr} = nic_mrs W w"
  by (auto simp: block_regions_def)

text \<open>The key is in progress at the server: nothing is written, the region is revoked, 2 is returned.\<close>

lemma kv_set_rendezvous_busy:
  assumes ok: "client_ok V W answer h ctx s" and str: "client_strings W s key k value v"
    and large: "CONTROL_MESSAGE_BUFFER_SIZE < length k + length v + 2"
    and key: "length k + 9 \<le> CONTROL_MESSAGE_BUFFER_SIZE" and len: "length v + 1 < 2 ^ 64"
    and busy: "\<And>e. carries e (Set_Rendezvous k (of_nat (length v + 1))) \<Longrightarrow>
      answer (nic_log W (world s) @ [e]) = In_Progress"
  shows "\<exists>e h' s'. kv_set V h key value s = Some (2, h', s') \<and>
    carries e (Set_Rendezvous k (of_nat (length v + 1))) \<and>
    nic_log W (world s') = nic_log W (world s) @ [e] \<and> nic_mrs W (world s') = nic_mrs W (world s)"
proof -
  from kv_set_announce [OF ok str key len] obtain e s1 mr s2 p ctx' s3 where
    snd: "send_control_message V h CLIENT_KV_SET_RENDEZVOUS
      [At key, Var (bytes64 (of_nat (length v + 1)))] s = Some (0, s1)"
    and e: "carries e (Set_Rendezvous k (of_nat (length v + 1)))"
    and reg: "ibv_reg_mr V (pd ctx) value (of_nat (length v + 1))
      [IBV_ACCESS_LOCAL_WRITE, IBV_ACCESS_REMOTE_WRITE] s1 = (Some mr, s2)" "mr_addr mr = value"
      "mr_length mr = of_nat (length v + 1)"
    and rep: "await_reply V h s2 = Some (Inr (p, op_code (message_op (answer (nic_log W (world s) @ [e])))),
      set_handle_ctx ctx' h, s3)"
    and "message_at p (answer (nic_log W (world s) @ [e])) (pmem s3)" "pblk p \<in> nic_work W"
    and ok3: "client_ok V W answer (set_handle_ctx ctx' h) ctx' s3"
    and log3: "nic_log W (world s3) = nic_log W (world s) @ [e]"
    and mrs3: "nic_mrs W (world s3) =
      insert (mr, [IBV_ACCESS_LOCAL_WRITE, IBV_ACCESS_REMOTE_WRITE]) (nic_mrs W (world s))"
    and "c_string key (pmem s3) = Some k" "pblk key \<notin> nic_dma W (world s3)"
      "c_string value (pmem s3) = Some v" .
  have "(mr, [IBV_ACCESS_LOCAL_WRITE, IBV_ACCESS_REMOTE_WRITE]) \<in> nic_mrs W (world s3)" using mrs3 by simp
  with client_okD(5,10) [OF ok3] obtain s4 where dereg: "ibv_dereg_mr V mr s3 = (0, s4)"
    and mrs4: "nic_mrs W (world s4) = {(mr', acc') \<in> nic_mrs W (world s3). mr' \<noteq> mr}"
    and log4: "nic_log W (world s4) = nic_log W (world s3)"
    unfolding deregisters_def by blast
  have mrs: "nic_mrs W (world s4) = nic_mrs W (world s)"
    unfolding mrs4 mrs3 using str reg(2) by (intro new_region) (simp_all add: client_strings_def)
  have "c_strlen value (pmem s) = Some (length v)" using str by (simp add: client_strings_def c_strlen_string)
  then have "kv_set_rendezvous V h key value s = Some (2, set_handle_ctx ctx' h, s4)"
    using client_okD(4) [OF ok] snd reg(1) rep busy [OF e] dereg by (simp add: kv_set_rendezvous_def del: of_nat_add)
  then have "kv_set V h key value s = Some (2, set_handle_ctx ctx' h, s4)" by (simp add: kv_set_large [OF str large])
  moreover have "nic_log W (world s4) = nic_log W (world s) @ [e]" using log4 log3 by simp
  ultimately show ?thesis using e mrs by (intro exI conjI)
qed

text \<open>
  The server answers with an address and a key: exactly the value and its NUL are written
  there, the FIN follows, and the region is revoked.
\<close>

lemma kv_set_rendezvous_run:
  assumes ok: "client_ok V W answer h ctx s" and grants: "peer_grants W answer" and str: "client_strings W s key k value v"
    and large: "CONTROL_MESSAGE_BUFFER_SIZE < length k + length v + 2"
    and key: "length k + 9 \<le> CONTROL_MESSAGE_BUFFER_SIZE" and len: "length v + 1 < 2 ^ 32"
    and target: "\<And>e. carries e (Set_Rendezvous k (of_nat (length v + 1))) \<Longrightarrow>
      answer (nic_log W (world s) @ [e]) = Set_Target va rk"
  shows "\<exists>e1 wr e2 h' s'.
    kv_set V h key value s =
      Some (if answer (nic_log W (world s) @ [e1, (wr, v @ [0]), e2]) = Set_Successful then 0 else 1, h', s') \<and>
    carries e1 (Set_Rendezvous k (of_nat (length v + 1))) \<and> carries e2 (Set_Fin k) \<and>
    send_opcode wr = IBV_WR_RDMA_WRITE \<and> rdma_remote_addr wr = bswap_64 va \<and> rdma_rkey wr = ntohl rk \<and>
    nic_log W (world s') = nic_log W (world s) @ [e1, (wr, v @ [0]), e2] \<and>
    nic_mrs W (world s') = nic_mrs W (world s)"
proof -
  let ?n = "of_nat (length v + 1) :: size_t" and ?acc = "[IBV_ACCESS_LOCAL_WRITE, IBV_ACCESS_REMOTE_WRITE]"
  have len64: "length v + 1 < 2 ^ 64" and n: "unat ?n = length v + 1"
    using len by (simp, intro unat_size_of_nat, simp)
  from kv_set_announce [OF ok str key len64] obtain e s1 mr s2 p ctx1 s3 where
    snd: "send_control_message V h CLIENT_KV_SET_RENDEZVOUS [At key, Var (bytes64 ?n)] s = Some (0, s1)"
    and e: "carries e (Set_Rendezvous k ?n)"
    and reg: "ibv_reg_mr V (pd ctx) value ?n ?acc s1 = (Some mr, s2)" "mr_addr mr = value" "mr_length mr = ?n"
    and rep: "await_reply V h s2 = Some (Inr (p, op_code (message_op (answer (nic_log W (world s) @ [e])))),
      set_handle_ctx ctx1 h, s3)"
    and at: "message_at p (answer (nic_log W (world s) @ [e])) (pmem s3)" and "pblk p \<in> nic_work W"
    and ok3: "client_ok V W answer (set_handle_ctx ctx1 h) ctx1 s3"
    and log3: "nic_log W (world s3) = nic_log W (world s) @ [e]"
    and mrs3: "nic_mrs W (world s3) = insert (mr, ?acc) (nic_mrs W (world s))"
    and k3: "c_string key (pmem s3) = Some k" "pblk key \<notin> nic_dma W (world s3)"
    and v3: "c_string value (pmem s3) = Some v" .
  from at target [OF e] have "message_at p (Set_Target va rk) (pmem s3)" by simp
  then obtain q where dec: "decode_control_message_buffer SERVER_KV_SET_RENDEZVOUS (message_buf p) (pmem s3) =
      Some [message_buf p, q]" "load_u64 (message_buf p) (pmem s3) = Some va" "load_u32 q (pmem s3) = Some rk"
    by (rule decode_Set_Target)
  define ctx2 where "ctx2 = ctx1\<lparr>mr_rdma := Some mr, mr_rdma_size := ?n, mr_rdma_start_ptr := value,
    remote_buf_va := va, remote_buf_rkey := rk\<rparr>"
  define h2 where "h2 = set_handle_ctx ctx2 (set_handle_ctx ctx1 h)"
  have same: "same_conn ctx1 ctx2"
    unfolding same_conn_def ctx2_def by (rule exI [of _ "routs ctx1"], intro exI) (rule pingpong_context.equality; simp)
  have ok3': "client_ok V W answer h2 ctx2 s3" unfolding h2_def by (rule client_ok_set_ctx [OF ok3 same])
  have sz: "unat (mr_rdma_size ctx2) < 2 ^ 32" "mr_length mr = mr_rdma_size ctx2" "mr_addr mr = mr_rdma_start_ptr ctx2"
    "mr_rdma ctx2 = Some mr" using n len reg by (simp_all add: ctx2_def)
  have bs: "load_bytes (mr_rdma_start_ptr ctx2) (unat (mr_rdma_size ctx2)) (pmem s3) = Some (v @ [0])"
    using load_string [OF v3] n by (simp add: ctx2_def del: of_nat_add)
  let ?wr = "rdma_wr ctx2 mr IBV_WR_RDMA_WRITE"
  have mem: "(mr, ?acc) \<in> nic_mrs W (world s3)" using mrs3 by simp
  have grant: "nic_target W (world s3) (bswap_64 (remote_buf_va ctx2)) (ntohl (remote_buf_rkey ctx2))
      (unat (mr_rdma_size ctx2))"
    using peer_grantsD [OF grants log3 e target [OF e]] by (simp add: ctx2_def)
  from kv_set_write_run [OF ok3' sz(4) mem sz(3,2,1) bs grant k3] key str obtain e2 h' ctx' s' where
    fin: "kv_set_write V h2 key mr s3 =
      Some (if answer (nic_log W (world s3) @ [(?wr, v @ [0]), e2]) = Set_Successful then 0 else 1, h', s')"
      "carries e2 (Set_Fin k)" "nic_log W (world s') = nic_log W (world s3) @ [(?wr, v @ [0]), e2]"
      "nic_mrs W (world s') = {(mr', acc') \<in> nic_mrs W (world s3). mr' \<noteq> mr}"
    by (auto simp: ctx2_def client_strings_def)
  have mrs: "nic_mrs W (world s') = nic_mrs W (world s)"
    unfolding fin(4) mrs3 using str reg(2) by (intro new_region) (simp_all add: client_strings_def)
  have "c_strlen value (pmem s) = Some (length v)" using str by (simp add: client_strings_def c_strlen_string)
  then have "kv_set_rendezvous V h key value s = kv_set_write V h2 key mr s3"
    using client_okD(4) [OF ok] client_okD(4) [OF ok3] snd reg(1) rep target [OF e] dec
    by (simp add: kv_set_rendezvous_def h2_def ctx2_def del: of_nat_add)
  then have run: "kv_set V h key value s =
      Some (if answer (nic_log W (world s) @ [e, (?wr, v @ [0]), e2]) = Set_Successful then 0 else 1, h', s')"
    using fin(1) log3 by (simp add: kv_set_large [OF str large])
  have log: "nic_log W (world s') = nic_log W (world s) @ [e, (?wr, v @ [0]), e2]" using fin(3) log3 by simp
  have "send_opcode ?wr = IBV_WR_RDMA_WRITE" "rdma_remote_addr ?wr = bswap_64 va" "rdma_rkey ?wr = ntohl rk"
    by (simp_all add: rdma_wr_def ctx2_def)
  with run e fin(2) log mrs show ?thesis by (intro exI conjI)
qed

section \<open>Get\<close>

lemma kv_get_request:
  assumes ok: "client_ok V W answer h ctx s"
    and key: "c_string key (pmem s) = Some k" "pblk key \<notin> nic_dma W (world s)"
    and small: "length k + 1 \<le> CONTROL_MESSAGE_BUFFER_SIZE"
  obtains e s1 p ctx' s2 where
    "send_control_message V h CLIENT_KV_GET [At key] s = Some (0, s1)" "carries e (Get k)"
    "await_reply V h s1 = Some (Inr (p, op_code (message_op (answer (nic_log W (world s) @ [e])))),
       set_handle_ctx ctx' h, s2)"
    "message_at p (answer (nic_log W (world s) @ [e])) (pmem s2)" "pblk p \<in> nic_work W"
    "client_ok V W answer (set_handle_ctx ctx' h) ctx' s2" "server_frame W {} {} s s2"
    "nic_log W (world s2) = nic_log W (world s) @ [e]" "c_string key (pmem s2) = Some k"
proof -
  have "pblk key \<notin> nic_work W" using key(2) nic_work_dma [of W "world s"] by blast
  then have "message_srcs (Get k) [At key] (pmem s)" "srcs_blocks [At key] \<inter> nic_work W = {}"
    "length (message_bytes (Get k)) \<le> sizeof_ControlMessage"
    using key(1) small by (simp_all add: short_reply)
  from client_send [OF ok this] obtain s1 e where
    snd: "send_control_message V h (message_op (Get k)) [At key] s = Some (0, s1)"
    and fr1: "server_frame W {} {} s s1" and ok1: "client_ok V W answer h ctx s1"
    and log1: "nic_log W (world s1) = nic_log W (world s) @ [e]" and e: "carries e (Get k)" .
  from await_reply_ok [OF ok1] obtain p ctx' s2 where
    rep: "await_reply V h s1 = Some (Inr (p, op_code (message_op (answer (nic_log W (world s1))))),
      set_handle_ctx ctx' h, s2)" and ok2: "client_ok V W answer (set_handle_ctx ctx' h) ctx' s2"
    and "ctx' = ctx\<lparr>routs := routs ctx'\<rparr>" and at: "message_at p (answer (nic_log W (world s1))) (pmem s2)"
    and pw: "pblk p \<in> nic_work W" and fr2: "server_frame W {} {} s1 s2"
    and "mem_frame (nic_work W) (pmem s1) (pmem s2)" and log2: "nic_log W (world s2) = nic_log W (world s1)" .
  from server_frame_trans [OF fr1 fr2] have fr: "server_frame W {} {} s s2" by simp
  have "c_string key (pmem s2) = Some k" by (rule c_string_server_frame [OF fr client_okD(2) [OF ok] key])
  with that snd e rep at pw ok2 fr log1 log2 show ?thesis by simp
qed

text \<open>A short value arrives in the answer; the caller gets a copy of its own.\<close>

lemma kv_get_eager_run:
  assumes ok: "client_ok V W answer h ctx s"
    and key: "c_string key (pmem s) = Some k" "pblk key \<notin> nic_dma W (world s)"
    and small: "length k + 1 \<le> CONTROL_MESSAGE_BUFFER_SIZE"
    and eager: "\<And>e. carries e (Get k) \<Longrightarrow> answer (nic_log W (world s) @ [e]) = Get_Eager v"
  shows "\<exists>e var h' ctx' s'. kv_get V h key s = Some (0, Some var, h', s') \<and> carries e (Get k) \<and>
    bytes_from var (pmem s') = Some (v @ [0]) \<and> next_blk (pmem s) \<le> pblk var \<and>
    nic_log W (world s') = nic_log W (world s) @ [e] \<and> server_frame W {} {} s s' \<and>
    client_ok V W answer h' ctx' s'"
proof -
  from kv_get_request [OF ok key small] obtain e s1 p ctx' s2 where
    snd: "send_control_message V h CLIENT_KV_GET [At key] s = Some (0, s1)" and e: "carries e (Get k)"
    and rep: "await_reply V h s1 = Some (Inr (p, op_code (message_op (answer (nic_log W (world s) @ [e])))),
       set_handle_ctx ctx' h, s2)"
    and at: "message_at p (answer (nic_log W (world s) @ [e])) (pmem s2)" and "pblk p \<in> nic_work W"
    and ok2: "client_ok V W answer (set_handle_ctx ctx' h) ctx' s2" and fr: "server_frame W {} {} s s2"
    and log: "nic_log W (world s2) = nic_log W (world s) @ [e]" and "c_string key (pmem s2) = Some k" .
  from at eager [OF e] have msg: "message_at p (Get_Eager v) (pmem s2)" by simp
  from decode_one_string [OF this] have
    dec: "decode_control_message_buffer SERVER_KV_GET_EAGER (message_buf p) (pmem s2) = Some [message_buf p]"
    and v: "c_string (message_buf p) (pmem s2) = Some v" by simp_all
  from malloc_strcpy [OF client_okD(2,3) [OF ok2] v less_add_one] obtain m1 m' pad where
    cp: "c_malloc (length v + 1) (pmem s2) = (Ptr (next_blk (pmem s2)) 0, m1)" "mem_grow (pmem s2) m1"
      "c_strcpy (Ptr (next_blk (pmem s2)) 0) (message_buf p) m1 = Some m'" "mem_grow (pmem s2) m'"
    and b: "bytes_from (Ptr (next_blk (pmem s2)) 0) m' = Some (v @ 0 # pad)"
      "length (v @ 0 # pad) = length v + 1" and "next_blk m' = Suc (next_blk (pmem s2))" .
  have "kv_get V h key s = Some (0, Some (Ptr (next_blk (pmem s2)) 0), set_handle_ctx ctx' h, s2\<lparr>pmem := m'\<rparr>)"
    using snd rep eager [OF e] dec c_strlen_string [OF v] cp(1,3) by (simp add: kv_get_def)
  moreover have "bytes_from (Ptr (next_blk (pmem s2)) 0) (pmem (s2\<lparr>pmem := m'\<rparr>)) = Some (v @ [0])"
    using b by simp
  moreover have "next_blk (pmem s) \<le> pblk (Ptr (next_blk (pmem s2)) 0)" using server_frameD(3) [OF fr] by simp
  moreover have "nic_log W (world (s2\<lparr>pmem := m'\<rparr>)) = nic_log W (world s) @ [e]" using log by simp
  moreover have fr': "server_frame W {} {} s (s2\<lparr>pmem := m'\<rparr>)"
    using server_frame_trans [OF fr server_frame_grow [OF cp(4), of W]] by simp
  moreover have "client_ok V W answer (set_handle_ctx ctx' h) ctx' (s2\<lparr>pmem := m'\<rparr>)"
    by (rule client_ok_frame [OF ok2 server_frame_grow [OF cp(4)]]) simp
  ultimately show ?thesis using e by (intro exI conjI)
qed

text \<open>Not found or in progress: 1 is returned and \<open>*var\<close> is null.\<close>

lemma kv_get_refused:
  assumes ok: "client_ok V W answer h ctx s"
    and key: "c_string key (pmem s) = Some k" "pblk key \<notin> nic_dma W (world s)"
    and small: "length k + 1 \<le> CONTROL_MESSAGE_BUFFER_SIZE"
    and refused: "\<And>e. carries e (Get k) \<Longrightarrow>
      answer (nic_log W (world s) @ [e]) \<in> {Get_Key_Not_Found, In_Progress}"
  shows "\<exists>e h' ctx' s'. kv_get V h key s = Some (1, Some NULL, h', s') \<and> carries e (Get k) \<and>
    nic_log W (world s') = nic_log W (world s) @ [e] \<and> server_frame W {} {} s s' \<and>
    client_ok V W answer h' ctx' s'"
proof -
  from kv_get_request [OF ok key small] obtain e s1 p ctx' s2 where
    snd: "send_control_message V h CLIENT_KV_GET [At key] s = Some (0, s1)" and e: "carries e (Get k)"
    and rep: "await_reply V h s1 = Some (Inr (p, op_code (message_op (answer (nic_log W (world s) @ [e])))),
       set_handle_ctx ctx' h, s2)"
    and "message_at p (answer (nic_log W (world s) @ [e])) (pmem s2)" "pblk p \<in> nic_work W"
    and ok2: "client_ok V W answer (set_handle_ctx ctx' h) ctx' s2" and fr: "server_frame W {} {} s s2"
    and log: "nic_log W (world s2) = nic_log W (world s) @ [e]" and "c_string key (pmem s2) = Some k" .
  have "kv_get V h key s = Some (1, Some NULL, set_handle_ctx ctx' h, s2)"
    using snd rep refused [OF e] by (auto simp: kv_get_def)
  with e log fr ok2 show ?thesis by (intro exI conjI)
qed

text \<open>A read changes its own object and what the adapter may write anyway.\<close>

lemma server_frame_read:
  assumes fr: "server_frame W B {} s s3" and "mem_frame (insert c (nic_dma W (world s3))) (pmem s3) (pmem s4)"
    and c: "next_blk (pmem s) \<le> c"
    and rest: "nic_mrs W (world s4) = nic_mrs W (world s3)" "nic_up W (world s4)" "kv_malloc s4 = kv_malloc s3"
  shows "server_frame W B {} s s4"
proof -
  note F = server_frameD [OF fr]
  have dma: "nic_dma W (world s4) = nic_dma W (world s3)" by (rule nic_dma_cong [OF rest(1)])
  have "blocks (pmem s4) b = blocks (pmem s) b" if "b < next_blk (pmem s)" "b \<notin> nic_dma W (world s)" for b
  proof -
    have "b \<notin> insert c (nic_dma W (world s3))" using that F(10) c by auto
    from mem_frame_blocks [OF assms(2) this] F(1) [OF that] show ?thesis by simp
  qed
  moreover have "map_option length (blocks (pmem s4) b) = map_option length (blocks (pmem s) b)"
    if "b < next_blk (pmem s)" for b
    using F(2) [OF that] assms(2) by (simp add: mem_frame_def)
  moreover have "mem_ok (pmem s) \<longrightarrow> mem_ok (pmem s4)" "mem_avail (pmem s) \<longrightarrow> mem_avail (pmem s4)"
    using F(4,5) mem_frame_ok [OF assms(2)] mem_frame_avail [OF assms(2)] by blast+
  moreover have "next_blk (pmem s) \<le> next_blk (pmem s4)" "vaddr (pmem s4) = vaddr (pmem s)"
    using F(3,6) assms(2) by (simp_all add: mem_frame_def)
  ultimately show ?thesis
    using F(7,9,10) rest dma unfolding server_frame_def by simp
qed

lemma rdma_read_run:
  assumes reads: "reads_complete V W (qp ctx) (send_cq ctx)" and up: "nic_up W (world s)"
    and mr: "mr_rdma ctx = Some mr" "(mr, [IBV_ACCESS_LOCAL_WRITE]) \<in> nic_mrs W (world s)"
      "mr_addr mr = mr_rdma_start_ptr ctx" "mr_length mr = mr_rdma_size ctx" "unat (mr_rdma_size ctx) < 2 ^ 32"
    and cs: "load_bytes (mr_rdma_start_ptr ctx) (unat (mr_rdma_size ctx)) (pmem s) = Some cs"
    and remote: "nic_remote W (world s) (bswap_64 (remote_buf_va ctx)) (ntohl (remote_buf_rkey ctx))
      (unat (mr_rdma_size ctx)) = Some bs" "length bs = unat (mr_rdma_size ctx)"
  obtains s1 s2 where "pp_post_rdma V ctx IBV_WR_RDMA_READ s = Some (0, s1)"
    "poll_n_send_wc V ctx 1 s1 = Some (0, s2)"
    "mem_frame (insert (pblk (mr_rdma_start_ptr ctx)) (nic_dma W (world s))) (pmem s) (pmem s2)"
    "load_bytes (mr_rdma_start_ptr ctx) (unat (mr_rdma_size ctx)) (pmem s2) = Some bs"
    "nic_mrs W (world s2) = nic_mrs W (world s)" "nic_up W (world s2)" "kv_malloc s2 = kv_malloc s"
    "nic_log W (world s2) = nic_log W (world s) @ [(rdma_wr ctx mr IBV_WR_RDMA_READ, bs)]"
proof -
  let ?wr = "rdma_wr ctx mr IBV_WR_RDMA_READ"
  have fields: "send_opcode ?wr = IBV_WR_RDMA_READ" "lkey mr = sge_lkey (send_sge ?wr)"
    "mr_addr mr = sge_addr (send_sge ?wr)" "sge_addr (send_sge ?wr) = mr_rdma_start_ptr ctx"
    "rdma_remote_addr ?wr = bswap_64 (remote_buf_va ctx)" "rdma_rkey ?wr = ntohl (remote_buf_rkey ctx)"
    "unat (sge_length (send_sge ?wr)) = unat (mr_rdma_size ctx)"
    using mr(3,5) by (simp_all add: rdma_wr_def unsigned_ucast_eq take_bit_nat_eq_self)
  have prem: "nic_up W (world s) \<and> send_opcode ?wr = IBV_WR_RDMA_READ \<and>
    (mr, [IBV_ACCESS_LOCAL_WRITE]) \<in> nic_mrs W (world s) \<and> IBV_ACCESS_LOCAL_WRITE \<in> set [IBV_ACCESS_LOCAL_WRITE] \<and>
    lkey mr = sge_lkey (send_sge ?wr) \<and> mr_addr mr = sge_addr (send_sge ?wr) \<and>
    unat (sge_length (send_sge ?wr)) \<le> unat (mr_length mr) \<and>
    load_bytes (sge_addr (send_sge ?wr)) (unat (sge_length (send_sge ?wr))) (pmem s) = Some cs \<and>
    nic_remote W (world s) (rdma_remote_addr ?wr) (rdma_rkey ?wr) (unat (sge_length (send_sge ?wr))) = Some bs \<and>
    length bs = unat (sge_length (send_sge ?wr))"
    using up mr(2,4) cs remote fields by simp
  from reads [unfolded reads_complete_def, rule_format, OF prem] obtain s1 s2 wc where
    post: "ibv_post_send V (qp ctx) ?wr s = (0, s1)" and poll: "polls_one V (send_cq ctx) s1 wc s2"
    and wc: "wc_status wc = IBV_WC_SUCCESS" "wc_opcode wc = IBV_WC_RDMA_READ"
    and fin: "mem_frame (insert (pblk (mr_rdma_start_ptr ctx)) (nic_dma W (world s))) (pmem s) (pmem s2)"
      "load_bytes (mr_rdma_start_ptr ctx) (unat (mr_rdma_size ctx)) (pmem s2) = Some bs"
      "nic_mrs W (world s2) = nic_mrs W (world s)" "nic_up W (world s2)" "kv_malloc s2 = kv_malloc s"
      "nic_log W (world s2) = nic_log W (world s) @ [(?wr, bs)]"
    unfolding fields(4) remote(2) by auto
  have "poll_n_send_wc V ctx 1 s1 = Some (0, s2)" by (rule poll_n_send_wc_one [OF poll wc(1)]) (simp add: wc(2))
  moreover have "pp_post_rdma V ctx IBV_WR_RDMA_READ s = Some (0, s1)" using post mr(1) by (simp add: pp_post_rdma_def)
  ultimately show ?thesis using that fin by blast
qed

text \<open>
  The last phase of a rendezvous get: the bytes the server exposes are read into the object
  allocated for them, the FIN follows, and the region is revoked.
\<close>

lemma kv_get_read_run:
  assumes ok: "client_ok V W answer h ctx s" and fr: "server_frame W {c} {} s s3" and c: "next_blk (pmem s) \<le> c"
    and dma: "\<forall>b \<in> nic_dma W (world s). b < next_blk (pmem s)"
    and mr: "mr_rdma ctx = Some mr" "(mr, [IBV_ACCESS_LOCAL_WRITE]) \<in> nic_mrs W (world s3)"
      "mr_addr mr = mr_rdma_start_ptr ctx" "mr_length mr = mr_rdma_size ctx" "unat (mr_rdma_size ctx) < 2 ^ 32"
      "mr_rdma_start_ptr ctx = Ptr c 0"
    and cs: "bytes_from (Ptr c 0) (pmem s3) = Some cs" "length cs = unat (mr_rdma_size ctx)"
    and remote: "nic_remote W (world s3) (bswap_64 (remote_buf_va ctx)) (ntohl (remote_buf_rkey ctx))
      (unat (mr_rdma_size ctx)) = Some bs" "length bs = unat (mr_rdma_size ctx)"
    and key: "c_string key (pmem s) = Some k" "pblk key \<notin> nic_dma W (world s)"
    and small: "length k + 1 \<le> CONTROL_MESSAGE_BUFFER_SIZE"
  shows "\<exists>e h' s'.
    kv_get_read V h key (Ptr c 0) s3 =
      Some (if answer (nic_log W (world s3) @ [(rdma_wr ctx mr IBV_WR_RDMA_READ, bs), e]) = Get_Successful
            then 0 else 1, Some (Ptr c 0), h', s') \<and>
    carries e (Get_Fin k) \<and> bytes_from (Ptr c 0) (pmem s') = Some bs \<and>
    nic_log W (world s') = nic_log W (world s3) @ [(rdma_wr ctx mr IBV_WR_RDMA_READ, bs), e] \<and>
    nic_mrs W (world s') = {(mr', acc') \<in> nic_mrs W (world s3). mr' \<noteq> mr}"
proof -
  let ?w = "(rdma_wr ctx mr IBV_WR_RDMA_READ, bs)"
  note C = client_okD [OF ok]
  have nwork: "c \<notin> nic_work W" "pblk key \<notin> nic_work W" and cdma: "c \<notin> nic_dma W (world s3)"
    using dma c nic_work_dma [of W "world s"] key(2) server_frameD(10) [OF fr] by fastforce+
  have load: "load_bytes (mr_rdma_start_ptr ctx) (unat (mr_rdma_size ctx)) (pmem s3) = Some cs"
    using cs mr(6) by (simp add: load_bytes_def)
  from rdma_read_run [OF C(7) server_frameD(8) [OF fr C(5)] mr(1-5) load remote] obtain s4 s5 where
    post: "pp_post_rdma V ctx IBV_WR_RDMA_READ s3 = Some (0, s4)"
    and poll: "poll_n_send_wc V ctx 1 s4 = Some (0, s5)"
    and mf: "mem_frame (insert (pblk (mr_rdma_start_ptr ctx)) (nic_dma W (world s3))) (pmem s3) (pmem s5)"
    and got: "load_bytes (mr_rdma_start_ptr ctx) (unat (mr_rdma_size ctx)) (pmem s5) = Some bs"
    and mrs5: "nic_mrs W (world s5) = nic_mrs W (world s3)" and "nic_up W (world s5)" "kv_malloc s5 = kv_malloc s3"
    and log5: "nic_log W (world s5) = nic_log W (world s3) @ [?w]" .
  then have fr5: "server_frame W {c} {} s s5" using mr(6) by (intro server_frame_read [OF fr _ c]) simp_all
  have ok5: "client_ok V W answer h ctx s5" by (rule client_ok_frame [OF ok fr5]) (use nwork in simp)
  have key5: "c_string key (pmem s5) = Some k" by (rule c_string_server_frame [OF fr5 C(2) key])
  have cdma5: "c \<notin> nic_dma W (world s5)" using cdma nic_dma_cong [OF mrs5] by simp
  have "blocks (pmem s3) c = Some cs" using cs(1) by (auto simp: bytes_from_def split: option.splits)
  moreover have "map_option length (blocks (pmem s5) c) = map_option length (blocks (pmem s3) c)"
    using mf by (simp add: mem_frame_def)
  ultimately obtain xs where "blocks (pmem s5) c = Some xs" "length xs = length cs" by auto
  with got mr(6) cs(2) have b5: "bytes_from (Ptr c 0) (pmem s5) = Some bs"
    by (simp add: load_bytes_def bytes_from_def)
  have "message_srcs (Get_Fin k) [At key] (pmem s5)" "srcs_blocks [At key] \<inter> nic_work W = {}"
    "length (message_bytes (Get_Fin k)) \<le> sizeof_ControlMessage"
    using key5 nwork small by (simp_all add: short_reply)
  from client_send [OF ok5 this] obtain s6 e where
    snd: "send_control_message V h CLIENT_KV_GET_RENDEZVOUS_FIN [At key] s5 = Some (0, s6)"
    and fr6: "server_frame W {} {} s5 s6" and ok6: "client_ok V W answer h ctx s6"
    and log6: "nic_log W (world s6) = nic_log W (world s5) @ [e]" and e: "carries e (Get_Fin k)" by auto
  have mrs6: "nic_mrs W (world s6) = nic_mrs W (world s3)" using server_frame_mrs [OF fr6] mrs5 by simp
  have "(mr, [IBV_ACCESS_LOCAL_WRITE]) \<in> nic_mrs W (world s6)" using mr(2) mrs6 by simp
  with client_okD(5,10) [OF ok6] obtain s7 where dereg: "ibv_dereg_mr V mr s6 = (0, s7)"
    and call7: "nic_call W s6 s7"
    and mrs7: "nic_mrs W (world s7) = {(mr', acc') \<in> nic_mrs W (world s6). mr' \<noteq> mr}"
    and log7: "nic_log W (world s7) = nic_log W (world s6)"
    unfolding deregisters_def by blast
  from server_frame_deregister [OF call7 mrs7] mr(3,6) have fr7: "server_frame W {c} {} s6 s7" by simp
  let ?ctx = "ctx\<lparr>mr_rdma_start_ptr := NULL, mr_rdma_size := 0\<rparr>"
  have "same_conn ctx ?ctx"
    unfolding same_conn_def by (rule exI [of _ "routs ctx"], intro exI) (rule pingpong_context.equality; simp)
  from client_ok_set_ctx [OF client_ok_frame [OF ok6 fr7] this] nwork
  have ok7: "client_ok V W answer (set_handle_ctx ?ctx h) ?ctx s7" by simp
  from await_reply_ok [OF ok7] obtain p ctx' s8 where
    rep: "await_reply V (set_handle_ctx ?ctx h) s7 =
      Some (Inr (p, op_code (message_op (answer (nic_log W (world s7))))),
        set_handle_ctx ctx' (set_handle_ctx ?ctx h), s8)"
    and fr8: "server_frame W {} {} s7 s8" and log8: "nic_log W (world s8) = nic_log W (world s7)" by metis
  have log: "nic_log W (world s7) = nic_log W (world s3) @ [?w, e]" using log5 log6 log7 by simp
  have op: "message_op msg = SERVER_KV_GET_SUCCESSFUL \<longleftrightarrow> msg = Get_Successful" for msg by (cases msg) simp_all
  have run: "kv_get_read V h key (Ptr c 0) s3 =
      Some (if answer (nic_log W (world s3) @ [?w, e]) = Get_Successful then 0 else 1, Some (Ptr c 0),
        set_handle_ctx ctx' (set_handle_ctx ?ctx h), s8)"
    using C(4) post poll snd mr(1) dereg rep log by (simp add: kv_get_read_def op)
  from server_frame_trans [OF server_frame_trans [OF fr6 fr7] fr8] have "server_frame W {c} {} s5 s8" by simp
  from bytes_from_frame_live [OF this client_okD(2) [OF ok5] b5] cdma5
  have b8: "bytes_from (Ptr c 0) (pmem s8) = Some bs" by auto
  have mrs8: "nic_mrs W (world s8) = {(mr', acc') \<in> nic_mrs W (world s3). mr' \<noteq> mr}"
    using server_frame_mrs [OF fr8] mrs7 mrs6 by simp
  have "nic_log W (world s8) = nic_log W (world s3) @ [?w, e]" using log log8 by simp
  with run e b8 mrs8 show ?thesis by (intro exI conjI)
qed

lemma kv_get_rendezvous_run:
  assumes ok: "client_ok V W answer h ctx s" and exposes: "peer_exposes W answer content"
    and live: "\<forall>mr acc. (mr, acc) \<in> nic_mrs W (world s) \<longrightarrow> pblk (mr_addr mr) < next_blk (pmem s)"
    and key: "c_string key (pmem s) = Some k" "pblk key \<notin> nic_dma W (world s)"
    and small: "length k + 1 \<le> CONTROL_MESSAGE_BUFFER_SIZE" and size: "0 < n" "unat n < 2 ^ 32"
    and target: "\<And>e. carries e (Get k) \<Longrightarrow> answer (nic_log W (world s) @ [e]) = Get_Target n va rk"
  shows "\<exists>e1 wr e2 var h' s'.
    kv_get V h key s =
      Some (if answer (nic_log W (world s) @ [e1, (wr, content n), e2]) = Get_Successful then 0 else 1,
        Some var, h', s') \<and>
    carries e1 (Get k) \<and> carries e2 (Get_Fin k) \<and> bytes_from var (pmem s') = Some (content n) \<and>
    send_opcode wr = IBV_WR_RDMA_READ \<and> rdma_remote_addr wr = bswap_64 va \<and> rdma_rkey wr = ntohl rk \<and>
    nic_log W (world s') = nic_log W (world s) @ [e1, (wr, content n), e2] \<and>
    nic_mrs W (world s') = nic_mrs W (world s)"
proof -
  from kv_get_request [OF ok key small] obtain e s1 p ctx1 s2 where
    snd: "send_control_message V h CLIENT_KV_GET [At key] s = Some (0, s1)" and e: "carries e (Get k)"
    and rep: "await_reply V h s1 = Some (Inr (p, op_code (message_op (answer (nic_log W (world s) @ [e])))),
       set_handle_ctx ctx1 h, s2)"
    and at: "message_at p (answer (nic_log W (world s) @ [e])) (pmem s2)" and "pblk p \<in> nic_work W"
    and ok2: "client_ok V W answer (set_handle_ctx ctx1 h) ctx1 s2" and fr: "server_frame W {} {} s s2"
    and log2: "nic_log W (world s2) = nic_log W (world s) @ [e]" and key2: "c_string key (pmem s2) = Some k" .
  from at target [OF e] have "message_at p (Get_Target n va rk) (pmem s2)" by simp
  then obtain q1 q2 where dec: "decode_control_message_buffer SERVER_KV_GET_RENDEZVOUS (message_buf p) (pmem s2) =
      Some [message_buf p, q1, q2]" "load_u64 (message_buf p) (pmem s2) = Some n"
      "load_u64 q1 (pmem s2) = Some va" "load_u32 q2 (pmem s2) = Some rk"
    by (rule decode_Get_Target)
  note C2 = client_okD [OF ok2]
  let ?c = "next_blk (pmem s2)" and ?acc = "[IBV_ACCESS_LOCAL_WRITE]"
  from malloc_block [OF C2(3), of "unat n"] obtain m where
    al: "c_malloc (unat n) (pmem s2) = (Ptr ?c 0, m)" and g: "mem_grow (pmem s2) m"
    and b: "bytes_from (Ptr ?c 0) m = Some (map (junk (pmem s2) ?c) [0..<unat n])" and "next_blk m = Suc ?c" .
  let ?s = "s2\<lparr>pmem := m\<rparr>"
  have frg: "server_frame W {} {} s2 ?s" by (rule server_frame_grow [OF g])
  have "nic_up W (world ?s)" "unat n \<le> length (map (junk (pmem s2) ?c) [0..<unat n])" using C2(5) by simp_all
  moreover have "bytes_from (Ptr ?c 0) (pmem ?s) = Some (map (junk (pmem s2) ?c) [0..<unat n])" using b by simp
  ultimately obtain mr s3 where
    reg: "ibv_reg_mr V (pd ctx1) (Ptr ?c 0) n ?acc ?s = (Some mr, s3)" "mr_addr mr = Ptr ?c 0" "mr_length mr = n"
    and mrs3: "nic_mrs W (world s3) = insert (mr, ?acc) (nic_mrs W (world ?s))" and call3: "nic_call W ?s s3"
    and log3: "nic_log W (world s3) = nic_log W (world ?s)"
    by (metis registersD [OF C2(9) _ size(1)])
  from server_frame_register [OF call3 mrs3] reg(2) have frr: "server_frame W {?c} {} ?s s3" by simp
  from server_frame_trans [OF frg frr] have fr3: "server_frame W {?c} {} s2 s3" by simp
  define ctx2 where "ctx2 = ctx1\<lparr>mr_rdma := Some mr, mr_rdma_size := n, mr_rdma_start_ptr := Ptr ?c 0,
    remote_buf_va := va, remote_buf_rkey := rk\<rparr>"
  define h2 where "h2 = set_handle_ctx ctx2 (set_handle_ctx ctx1 h)"
  have same: "same_conn ctx1 ctx2"
    unfolding same_conn_def ctx2_def by (rule exI [of _ "routs ctx1"], intro exI) (rule pingpong_context.equality; simp)
  have ok2': "client_ok V W answer h2 ctx2 s2" unfolding h2_def by (rule client_ok_set_ctx [OF ok2 same])
  have mrs2: "nic_mrs W (world s2) = nic_mrs W (world s)" by (rule server_frame_mrs [OF fr])
  have dma2: "\<forall>b \<in> nic_dma W (world s2). b < next_blk (pmem s2)"
    using live mrs2 ok2 server_frameD(3) [OF fr] by (fastforce simp: nic_dma_def client_ok_def)
  have kdma2: "pblk key \<notin> nic_dma W (world s2)" using key(2) nic_dma_cong [OF mrs2] by simp
  from bytes_from_frame_live [OF frr, of "Ptr ?c 0"] b server_frameD(4) [OF frg C2(2)] obtain cs where
    cs: "bytes_from (Ptr ?c 0) (pmem s3) = Some cs" "length cs = unat n" by auto
  have "answer (nic_log W (world s3)) = Get_Target n va rk" using log2 log3 target [OF e] by simp
  then have remote: "nic_remote W (world s3) (bswap_64 (remote_buf_va ctx2)) (ntohl (remote_buf_rkey ctx2))
      (unat (mr_rdma_size ctx2)) = Some (content n)" "length (content n) = unat (mr_rdma_size ctx2)"
    using exposes by (simp_all add: peer_exposes_def ctx2_def)
  have m2: "mr_rdma ctx2 = Some mr" "(mr, ?acc) \<in> nic_mrs W (world s3)" "mr_addr mr = mr_rdma_start_ptr ctx2"
      "mr_length mr = mr_rdma_size ctx2" "unat (mr_rdma_size ctx2) < 2 ^ 32" "mr_rdma_start_ptr ctx2 = Ptr ?c 0"
    using mrs3 reg(2,3) size(2) by (simp_all add: ctx2_def)
  have cs': "length cs = unat (mr_rdma_size ctx2)" using cs(2) by (simp add: ctx2_def)
  let ?wr = "rdma_wr ctx2 mr IBV_WR_RDMA_READ"
  from kv_get_read_run [OF ok2' fr3 order_refl dma2 m2 cs(1) cs' remote key2 kdma2 small] obtain e2 h' s' where
    run: "kv_get_read V h2 key (Ptr ?c 0) s3 =
      Some (if answer (nic_log W (world s3) @ [(?wr, content n), e2]) = Get_Successful then 0 else 1,
        Some (Ptr ?c 0), h', s')" and fin: "carries e2 (Get_Fin k)" "bytes_from (Ptr ?c 0) (pmem s') = Some (content n)"
      "nic_log W (world s') = nic_log W (world s3) @ [(?wr, content n), e2]"
      "nic_mrs W (world s') = {(mr', acc') \<in> nic_mrs W (world s3). mr' \<noteq> mr}" by blast
  have "kv_get V h key s = kv_get_read V h2 key (Ptr ?c 0) s3"
    using snd rep target [OF e] dec al C2(4) reg(1) by (simp add: kv_get_def h2_def ctx2_def)
  then have run': "kv_get V h key s =
      Some (if answer (nic_log W (world s) @ [e, (?wr, content n), e2]) = Get_Successful then 0 else 1,
        Some (Ptr ?c 0), h', s')" using run log2 log3 by simp
  have none: "block_regions W (world s) ?c = {}"
    using live server_frameD(3) [OF fr] by (fastforce simp: block_regions_def)
  have mrs: "nic_mrs W (world s') = nic_mrs W (world s)"
    unfolding fin(4) mrs3 using mrs2 new_region [OF none, of mr ?acc] reg(2) by simp
  have log: "nic_log W (world s') = nic_log W (world s) @ [e, (?wr, content n), e2]" using fin(3) log2 log3 by simp
  have "send_opcode ?wr = IBV_WR_RDMA_READ" "rdma_remote_addr ?wr = bswap_64 va" "rdma_rkey ?wr = ntohl rk"
    by (simp_all add: rdma_wr_def ctx2_def)
  with run' e fin(1,2) log mrs show ?thesis by (intro exI conjI)
qed

end
