(* ===== verification/Client_Properties.thy ===== *)
theory Client_Properties
  imports KV_Client_Correct Demo_Server
begin

text \<open>
  The properties of the client calls of LowLatencyProtocols/kv_api.c, with applications to a
  client on the loopback adapter whose peer gives a fixed answer to every request.
\<close>

section \<open>A concrete client\<close>

definition demo_client_ctx :: "int \<Rightarrow> pingpong_context" where
  "demo_client_ctx credit = (demo_ctx credit)\<lparr>receive_cq := 3\<rparr>"

definition demo_client :: "int \<Rightarrow> KVHandle" where
  "demo_client credit = (demo_handle credit)\<lparr>array_ctx_ptr := [demo_client_ctx credit]\<rparr>"

abbreviation demo_peer :: "(sent \<Rightarrow> message) \<Rightarrow> loop_world verbs" where
  "demo_peer answer \<equiv> loop_peer_verbs (\<lambda>l. demo_image (answer l))"

definition demo_client_state :: "byte list \<Rightarrow> loop_world pstate" where
  "demo_client_state v = demo_state (replicate 4100 0) (v @ [0]) [] []"

lemma demo_peer_answers:
  assumes "\<And>l. message_wf (answer l)" and "\<And>l. length (message_bytes (answer l)) \<le> 4100"
  shows "peer_answers (demo_peer answer) loop_view (demo_client_ctx c) answer"
proof -
  let ?V = "demo_peer answer" and ?p = "Ptr 1 0"
  have "\<exists>wc s'. polls_one ?V 3 s wc s' \<and> wc_status wc = IBV_WC_SUCCESS \<and> wc_opcode wc = IBV_WC_RECV \<and>
      nic_call loop_view s s' \<and> mem_frame (nic_work loop_view) (pmem s) (pmem s') \<and>
      nic_mrs loop_view (world s') = nic_mrs loop_view (world s) \<and>
      nic_log loop_view (world s') = nic_log loop_view (world s) \<and>
      message_at ?p (answer (nic_log loop_view (world s))) (pmem s')"
    if bs: "bytes_from ?p (pmem s) = Some bs" "4100 \<le> length bs" for s :: "loop_world pstate" and bs
  proof -
    let ?msg = "answer (loop_log (world s))"
    have len: "length (demo_image ?msg) = 4100" by (rule length_demo_image [OF assms(2)])
    then obtain m where m: "store_bytes ?p (demo_image ?msg) (pmem s) = Some m"
      using store_bytes_defined [OF bs(1)] bs(2) by metis
    have poll: "polls_one ?V 3 s (loop_wc IBV_WC_RECV) (s\<lparr>pmem := m\<rparr>)"
      using m by (intro polls_now) (simp add: loop_peer_verbs_def loop_peer_poll_def)
    have fr: "mem_frame {1} (pmem s) m" using store_bytes_frame [OF m] by simp
    have "message_at ?p ?msg m"
      using bytes_from_store [OF m bs(1)] assms(1) by (auto simp: message_at_def demo_image_def)
    with poll mem_frame_mono [OF fr] show ?thesis
      by (intro exI [of _ "loop_wc IBV_WC_RECV"] exI [of _ "s\<lparr>pmem := m\<rparr>"])
        (auto simp: loop_wc_def loop_view_def nic_call_def nic_dma_def)
  qed
  moreover have "\<exists>s'. ibv_post_recv ?V q wr s = (0, s') \<and> pmem s' = pmem s \<and> nic_call loop_view s s' \<and>
      nic_mrs loop_view (world s') = nic_mrs loop_view (world s) \<and>
      nic_log loop_view (world s') = nic_log loop_view (world s)" for q wr s
    by (simp add: loop_peer_verbs_def loop_verbs_def nic_call_def loop_view_def)
  ultimately show ?thesis
    by (simp add: peer_answers_def posts_receives_def demo_client_ctx_def demo_ctx_def sizeof_ControlMessage_def
        CONTROL_MESSAGE_BUFFER_SIZE_def)
qed

lemma demo_client_ok:
  assumes "\<And>l. message_wf (answer l)" and "\<And>l. length (message_bytes (answer l)) \<le> 4100"
  shows "client_ok (demo_peer answer) loop_view answer (demo_client c) (demo_client_ctx c) (demo_client_state v)"
proof -
  have "nic_ok (demo_peer answer) loop_view (demo_client_ctx c)"
    using loop_peer_sends_complete loop_peer_registers loop_peer_deregisters
    by (simp add: nic_ok_def demo_client_ctx_def demo_ctx_def)
  moreover have "ctx_ok loop_view (demo_client_ctx c) (demo_client_state v)"
    unfolding ctx_ok_def demo_client_ctx_def demo_client_state_def
    by (auto simp: demo_defs loop_view_def bytes_from_def intro!: exI [of _ "[IBV_ACCESS_LOCAL_WRITE]"])
  ultimately have "session_ok (demo_peer answer) loop_view (demo_client c) (demo_client_ctx c) (demo_client_state v)"
    by (simp add: session_ok_def handle_ctx_def demo_client_def demo_handle_def demo_client_ctx_def demo_ctx_def
        sizeof_ControlMessage_def CONTROL_MESSAGE_BUFFER_SIZE_def)
  moreover have "reads_complete (demo_peer answer) loop_view 1 1" by (rule loop_peer_reads_complete)
  moreover have "mem_ok (pmem (demo_client_state v))" "mem_avail (pmem (demo_client_state v))"
    by (simp_all add: mem_ok_def mem_avail_def demo_client_state_def demo_state_def demo_mem_def)
  ultimately show ?thesis
    using demo_peer_answers [of answer c, OF assms]
    by (auto simp: client_ok_def demo_client_ctx_def demo_ctx_def demo_client_state_def demo_state_def demo_mem_def
        bytes_from_def loop_view_def sizeof_ControlMessage_def CONTROL_MESSAGE_BUFFER_SIZE_def)
qed

lemma demo_client_key:
  "c_string (Ptr 2 0) (pmem (demo_client_state v)) = Some demo_key"
  "pblk (Ptr 2 0) \<notin> nic_dma loop_view (world (demo_client_state v))"
  by (auto simp: c_string_def bytes_from_def demo_client_state_def demo_state_def demo_mem_def demo_key_def
      nic_dma_def loop_view_def demo_mrs_def)

lemma demo_client_strings:
  "0 \<notin> set v \<Longrightarrow> client_strings loop_view (demo_client_state v) (Ptr 2 0) demo_key (Ptr 3 0) v"
  using demo_client_key [of v]
  by (auto simp: client_strings_def c_string_def bytes_from_def demo_client_state_def demo_state_def demo_mem_def
      loop_view_def block_regions_def demo_mrs_def demo_send_mr_def demo_receive_mr_def)

lemma demo_client_live:
  "\<forall>mr acc. (mr, acc) \<in> nic_mrs loop_view (world (demo_client_state v)) \<longrightarrow>
     pblk (mr_addr mr) < next_blk (pmem (demo_client_state v))"
  by (auto simp: loop_view_def demo_client_state_def demo_state_def demo_mem_def demo_mrs_def demo_send_mr_def
      demo_receive_mr_def)

section \<open>Set\<close>

text \<open>
  C14. The eager set: when key, size and value fit into a control message, \<open>kv_set\<close> puts
  exactly one message on the wire, the value with its size under the key, and returns 0 when
  the server confirms, 2 when it says the key is in progress, and 1 for any other answer.
\<close>

theorem kv_set_eager_sends:
  assumes "client_ok V W answer h ctx s"
    and "c_string key (pmem s) = Some k" and "c_string value (pmem s) = Some v"
    and "pblk key \<notin> nic_work W" and "pblk value \<notin> nic_work W"
    and "length k + length v + 10 \<le> CONTROL_MESSAGE_BUFFER_SIZE"
  shows "\<exists>e h' ctx' s'.
    kv_set V h key value s = Some (set_result (answer (nic_log W (world s) @ [e])), h', s') \<and>
    carries e (Set_Eager k (of_nat (length v + 1)) v) \<and>
    nic_log W (world s') = nic_log W (world s) @ [e] \<and>
    nic_mrs W (world s') = nic_mrs W (world s) \<and> client_ok V W answer h' ctx' s'"
proof -
  from kv_set_eager_run [OF assms] obtain e h' ctx' s' where
    "kv_set V h key value s = Some (set_result (answer (nic_log W (world s) @ [e])), h', s')"
    "carries e (Set_Eager k (of_nat (length v + 1)) v)" "nic_log W (world s') = nic_log W (world s) @ [e]"
    "server_frame W {} {} s s'" "client_ok V W answer h' ctx' s'" by blast
  with server_frame_mrs [OF this(4)] show ?thesis by blast
qed

theorem kv_set_eager_sends_witness:
  "\<exists>e h' ctx' s'.
    kv_set (demo_peer (\<lambda>l. Set_Successful)) (demo_client 50) (Ptr 2 0) (Ptr 3 0) (demo_client_state [118]) =
      Some (set_result Set_Successful, h', s') \<and>
    carries e (Set_Eager demo_key (of_nat (length [118 :: byte] + 1)) [118]) \<and>
    nic_log loop_view (world s') = nic_log loop_view (world (demo_client_state [118])) @ [e] \<and>
    nic_mrs loop_view (world s') = nic_mrs loop_view (world (demo_client_state [118])) \<and>
    client_ok (demo_peer (\<lambda>l. Set_Successful)) loop_view (\<lambda>l. Set_Successful) h' ctx' s'"
  by (rule kv_set_eager_sends [OF demo_client_ok demo_client_key(1)])
    (use demo_client_strings [of "[118]"] in \<open>simp_all add: client_strings_def message_wf_def message_bytes_def
      CONTROL_MESSAGE_BUFFER_SIZE_def demo_key_def loop_view_def\<close>)

text \<open>The bytes of a message that is too long, as far as the send buffer goes.\<close>

lemma eager_image:
  assumes "length k + length v + 2 \<le> CONTROL_MESSAGE_BUFFER_SIZE"
    and "CONTROL_MESSAGE_BUFFER_SIZE < length k + length v + 10" and "length k \<le> 4087"
  shows "take sizeof_ControlMessage (message_bytes (Set_Eager k n v)) =
    bytes32 (op_code CLIENT_KV_SET_EAGER) @ k @ [0] @ bytes64 n @ take (4087 - length k) v"
proof -
  let ?h = "bytes32 (op_code CLIENT_KV_SET_EAGER) @ k @ [0] @ bytes64 n"
  have "message_bytes (Set_Eager k n v) = ?h @ v @ [0]" by (simp add: message_bytes_def)
  moreover have "length ?h = length k + 13" by simp
  ultimately show ?thesis
    using assms by (simp only: take_append) (simp add: sizeof_ControlMessage_def CONTROL_MESSAGE_BUFFER_SIZE_def)
qed

text \<open>
  C15. The guard of the eager set forgets the 8 bytes of the value's size. When key and value
  fit the message buffer but leave less than 8 bytes (and the key is at most 4087 bytes long),
  the message \<open>kv_set\<close> writes is longer than the send buffer and runs into what follows it in its
  block (harmless only because \<open>pp_init_ctx\<close> lets the receive buffer follow it), and what goes
  out is cut off: of the value and its NUL only the first 4087 bytes less the key's length, so
  the NUL is missing, and with a longer value its end too.
\<close>

theorem kv_set_eager_cut_off:
  assumes "client_ok V W answer h ctx s"
    and "c_string key (pmem s) = Some k" and "c_string value (pmem s) = Some v"
    and "pblk key \<notin> nic_work W" and "pblk value \<notin> nic_work W"
    and guard: "length k + length v + 2 \<le> CONTROL_MESSAGE_BUFFER_SIZE"
      "CONTROL_MESSAGE_BUFFER_SIZE < length k + length v + 10" "length k \<le> 4087"
    and "bytes_from (mr_control_send_start_ptr ctx) (pmem s) = Some bs" and "length k + length v + 14 \<le> length bs"
  shows "(\<exists>m. set_control_message h CLIENT_KV_SET_EAGER [At key, Var (bytes64 (of_nat (length v + 1))), At value] s =
        Some (s\<lparr>pmem := m\<rparr>) \<and>
      mr_control_send_size ctx < int (length (message_bytes (Set_Eager k (of_nat (length v + 1)) v))) \<and>
      bytes_from (mr_control_send_start_ptr ctx) m =
        Some (message_bytes (Set_Eager k (of_nat (length v + 1)) v) @ drop (length k + length v + 14) bs)) \<and>
    (\<exists>wr rc h' s' sent. kv_set V h key value s = Some (rc, h', s') \<and>
      nic_log W (world s') = nic_log W (world s) @ [(wr, sent)] \<and>
      sent = bytes32 (op_code CLIENT_KV_SET_EAGER) @ k @ [0] @ bytes64 (of_nat (length v + 1)) @
        take (4087 - length k) v)"
proof -
  have len: "length (message_bytes (Set_Eager k n v)) = length k + length v + 14" for n
    by (simp add: length_message_bytes)
  show ?thesis
    using set_control_message_overflows [OF assms(1-5,7,9,10)] kv_set_eager_long [OF assms(1-7,9,10)]
    unfolding eager_image [OF guard] len by blast
qed

text \<open>A client whose send buffer is followed by 100 more bytes, and a value of 4090 bytes.\<close>

definition demo_wide_state :: "byte list \<Rightarrow> loop_world pstate" where
  "demo_wide_state v = (demo_client_state v)\<lparr>pmem := (pmem (demo_client_state v))
     \<lparr>blocks := (blocks (pmem (demo_client_state v)))(0 := Some (replicate 4200 0))\<rparr>\<rparr>"

definition demo_tight :: "byte list" where "demo_tight = replicate 4090 120"

lemma demo_wide_client_ok:
  assumes "client_ok V loop_view answer (demo_client c) (demo_client_ctx c) (demo_client_state v)"
  shows "client_ok V loop_view answer (demo_client c) (demo_client_ctx c) (demo_wide_state v)"
  using assms
  by (auto simp: client_ok_def session_ok_def ctx_ok_def demo_wide_state_def demo_client_state_def demo_client_ctx_def
      demo_ctx_def demo_state_def demo_mem_def mem_ok_def mem_avail_def bytes_from_def
      sizeof_ControlMessage_def CONTROL_MESSAGE_BUFFER_SIZE_def)

theorem kv_set_eager_cut_off_witness:
  "(\<exists>m. set_control_message (demo_client 50) CLIENT_KV_SET_EAGER
        [At (Ptr 2 0), Var (bytes64 (of_nat (length demo_tight + 1))), At (Ptr 3 0)] (demo_wide_state demo_tight) =
        Some ((demo_wide_state demo_tight)\<lparr>pmem := m\<rparr>) \<and>
      mr_control_send_size (demo_client_ctx 50) <
        int (length (message_bytes (Set_Eager demo_key (of_nat (length demo_tight + 1)) demo_tight))) \<and>
      bytes_from (mr_control_send_start_ptr (demo_client_ctx 50)) m =
        Some (message_bytes (Set_Eager demo_key (of_nat (length demo_tight + 1)) demo_tight) @
          drop (length demo_key + length demo_tight + 14) (replicate 4200 0))) \<and>
   (\<exists>wr rc h' s' sent.
      kv_set (demo_peer (\<lambda>l. Set_Successful)) (demo_client 50) (Ptr 2 0) (Ptr 3 0) (demo_wide_state demo_tight) =
        Some (rc, h', s') \<and>
      nic_log loop_view (world s') = nic_log loop_view (world (demo_wide_state demo_tight)) @ [(wr, sent)] \<and>
      sent = bytes32 (op_code CLIENT_KV_SET_EAGER) @ demo_key @ [0] @ bytes64 (of_nat (length demo_tight + 1)) @
        take (4087 - length demo_key) demo_tight)"
proof (rule kv_set_eager_cut_off [OF demo_wide_client_ok [OF demo_client_ok]])
  have "c_string (Ptr 3 0) (pmem (demo_client_state demo_tight)) = Some demo_tight"
    using demo_client_strings [of demo_tight] by (simp add: client_strings_def demo_tight_def)
  then show "c_string (Ptr 3 0) (pmem (demo_wide_state demo_tight)) = Some demo_tight"
    by (simp add: demo_wide_state_def c_string_def bytes_from_def)
  show "c_string (Ptr 2 0) (pmem (demo_wide_state demo_tight)) = Some demo_key"
    using demo_client_key(1) [of demo_tight] by (simp add: demo_wide_state_def c_string_def bytes_from_def)
  show "bytes_from (mr_control_send_start_ptr (demo_client_ctx 50)) (pmem (demo_wide_state demo_tight)) =
      Some (replicate 4200 0)"
    by (simp add: demo_wide_state_def bytes_from_def demo_client_ctx_def demo_ctx_def)
qed (simp_all add: message_wf_def message_bytes_def demo_tight_def demo_key_def CONTROL_MESSAGE_BUFFER_SIZE_def
    loop_view_def)

text \<open>
  C16. The rendezvous set: for a value too large for a control message, \<open>kv_set\<close> announces
  its size, and when the server answers with an address and a key, where it lets that many
  bytes be written (\<open>peer_grants\<close>), writes exactly the value and its NUL there under that key by RDMA, then sends the FIN, and revokes its temporary
  region; it returns 0 exactly when the last answer is the confirmation.
\<close>

theorem kv_set_rendezvous_writes:
  assumes "client_ok V W answer h ctx s" and "peer_grants W answer" and "client_strings W s key k value v"
    and "CONTROL_MESSAGE_BUFFER_SIZE < length k + length v + 2"
    and "length k + 9 \<le> CONTROL_MESSAGE_BUFFER_SIZE" and "length v + 1 < 2 ^ 32"
    and "\<And>e. carries e (Set_Rendezvous k (of_nat (length v + 1))) \<Longrightarrow>
      answer (nic_log W (world s) @ [e]) = Set_Target va rk"
  shows "\<exists>e1 wr e2 h' s'.
    kv_set V h key value s =
      Some (if answer (nic_log W (world s) @ [e1, (wr, v @ [0]), e2]) = Set_Successful then 0 else 1, h', s') \<and>
    carries e1 (Set_Rendezvous k (of_nat (length v + 1))) \<and> carries e2 (Set_Fin k) \<and>
    send_opcode wr = IBV_WR_RDMA_WRITE \<and> rdma_remote_addr wr = bswap_64 va \<and> rdma_rkey wr = ntohl rk \<and>
    nic_log W (world s') = nic_log W (world s) @ [e1, (wr, v @ [0]), e2] \<and>
    nic_mrs W (world s') = nic_mrs W (world s)"
  using assms by (rule kv_set_rendezvous_run)

definition demo_large :: "byte list" where "demo_large = replicate 4200 120"

definition demo_set_answer :: "sent \<Rightarrow> message" where
  "demo_set_answer l = (if length l = 1 then Set_Target 305419896 77 else Set_Successful)"

theorem kv_set_rendezvous_writes_witness:
  "\<exists>e1 wr e2 h' s'.
    kv_set (demo_peer demo_set_answer) (demo_client 50) (Ptr 2 0) (Ptr 3 0) (demo_client_state demo_large) =
      Some (if demo_set_answer (nic_log loop_view (world (demo_client_state demo_large)) @
        [e1, (wr, demo_large @ [0]), e2]) = Set_Successful then 0 else 1, h', s') \<and>
    carries e1 (Set_Rendezvous demo_key (of_nat (length demo_large + 1))) \<and> carries e2 (Set_Fin demo_key) \<and>
    send_opcode wr = IBV_WR_RDMA_WRITE \<and> rdma_remote_addr wr = bswap_64 305419896 \<and> rdma_rkey wr = ntohl 77 \<and>
    nic_log loop_view (world s') = nic_log loop_view (world (demo_client_state demo_large)) @
      [e1, (wr, demo_large @ [0]), e2] \<and>
    nic_mrs loop_view (world s') = nic_mrs loop_view (world (demo_client_state demo_large))"
  by (rule kv_set_rendezvous_writes [OF demo_client_ok _ demo_client_strings])
    (simp_all add: peer_grants_def demo_set_answer_def message_wf_def message_bytes_def CONTROL_MESSAGE_BUFFER_SIZE_def demo_key_def
      demo_large_def loop_view_def demo_client_state_def demo_state_def)

text \<open>
  C17. A rendezvous set of a key in progress: nothing is written, \<open>kv_set\<close> revokes the region
  it registered and returns 2.
\<close>

theorem kv_set_rendezvous_backs_off:
  assumes "client_ok V W answer h ctx s" and "client_strings W s key k value v"
    and "CONTROL_MESSAGE_BUFFER_SIZE < length k + length v + 2"
    and "length k + 9 \<le> CONTROL_MESSAGE_BUFFER_SIZE" and "length v + 1 < 2 ^ 64"
    and "\<And>e. carries e (Set_Rendezvous k (of_nat (length v + 1))) \<Longrightarrow>
      answer (nic_log W (world s) @ [e]) = In_Progress"
  shows "\<exists>e h' s'. kv_set V h key value s = Some (2, h', s') \<and>
    carries e (Set_Rendezvous k (of_nat (length v + 1))) \<and>
    nic_log W (world s') = nic_log W (world s) @ [e] \<and> nic_mrs W (world s') = nic_mrs W (world s)"
  using assms by (rule kv_set_rendezvous_busy)

theorem kv_set_rendezvous_backs_off_witness:
  "\<exists>e h' s'.
    kv_set (demo_peer (\<lambda>l. In_Progress)) (demo_client 50) (Ptr 2 0) (Ptr 3 0) (demo_client_state demo_large) =
      Some (2, h', s') \<and> carries e (Set_Rendezvous demo_key (of_nat (length demo_large + 1))) \<and>
    nic_log loop_view (world s') = nic_log loop_view (world (demo_client_state demo_large)) @ [e] \<and>
    nic_mrs loop_view (world s') = nic_mrs loop_view (world (demo_client_state demo_large))"
  by (rule kv_set_rendezvous_backs_off [OF demo_client_ok demo_client_strings])
    (simp_all add: message_wf_def message_bytes_def CONTROL_MESSAGE_BUFFER_SIZE_def demo_key_def demo_large_def)

section \<open>Get\<close>

text \<open>
  C18. The eager get: \<open>kv_get\<close> asks for the key once, and when the server answers with the
  value, returns 0 and a fresh object that holds exactly the value and its NUL.
\<close>

theorem kv_get_eager_returns:
  assumes "client_ok V W answer h ctx s"
    and "c_string key (pmem s) = Some k" and "pblk key \<notin> nic_dma W (world s)"
    and "length k + 1 \<le> CONTROL_MESSAGE_BUFFER_SIZE"
    and "\<And>e. carries e (Get k) \<Longrightarrow> answer (nic_log W (world s) @ [e]) = Get_Eager v"
  shows "\<exists>e var h' s'. kv_get V h key s = Some (0, Some var, h', s') \<and> carries e (Get k) \<and>
    bytes_from var (pmem s') = Some (v @ [0]) \<and> next_blk (pmem s) \<le> pblk var \<and>
    nic_log W (world s') = nic_log W (world s) @ [e] \<and> nic_mrs W (world s') = nic_mrs W (world s)"
  using kv_get_eager_run [OF assms] server_frame_mrs by fast

theorem kv_get_eager_returns_witness:
  "\<exists>e var h' s'. kv_get (demo_peer (\<lambda>l. Get_Eager [120])) (demo_client 50) (Ptr 2 0) (demo_client_state [118]) =
      Some (0, Some var, h', s') \<and> carries e (Get demo_key) \<and> bytes_from var (pmem s') = Some ([120] @ [0]) \<and>
    next_blk (pmem (demo_client_state [118])) \<le> pblk var \<and>
    nic_log loop_view (world s') = nic_log loop_view (world (demo_client_state [118])) @ [e] \<and>
    nic_mrs loop_view (world s') = nic_mrs loop_view (world (demo_client_state [118]))"
  by (rule kv_get_eager_returns [OF demo_client_ok demo_client_key])
    (simp_all add: message_wf_def message_bytes_def CONTROL_MESSAGE_BUFFER_SIZE_def demo_key_def)

text \<open>
  C19. The rendezvous get: when the server answers with a size, an address and a key,
  \<open>kv_get\<close> reads exactly the bytes exposed there into an object of that size, sends the FIN
  and revokes its region; it returns 0 exactly when the last answer is the confirmation.
\<close>

theorem kv_get_rendezvous_reads:
  assumes "client_ok V W answer h ctx s" and "peer_exposes W answer content"
    and "\<forall>mr acc. (mr, acc) \<in> nic_mrs W (world s) \<longrightarrow> pblk (mr_addr mr) < next_blk (pmem s)"
    and "c_string key (pmem s) = Some k" and "pblk key \<notin> nic_dma W (world s)"
    and "length k + 1 \<le> CONTROL_MESSAGE_BUFFER_SIZE" and "0 < n" and "unat n < 2 ^ 32"
    and "\<And>e. carries e (Get k) \<Longrightarrow> answer (nic_log W (world s) @ [e]) = Get_Target n va rk"
  shows "\<exists>e1 wr e2 var h' s'.
    kv_get V h key s =
      Some (if answer (nic_log W (world s) @ [e1, (wr, content n), e2]) = Get_Successful then 0 else 1,
        Some var, h', s') \<and>
    carries e1 (Get k) \<and> carries e2 (Get_Fin k) \<and> bytes_from var (pmem s') = Some (content n) \<and>
    send_opcode wr = IBV_WR_RDMA_READ \<and> rdma_remote_addr wr = bswap_64 va \<and> rdma_rkey wr = ntohl rk \<and>
    nic_log W (world s') = nic_log W (world s) @ [e1, (wr, content n), e2] \<and>
    nic_mrs W (world s') = nic_mrs W (world s)"
  using assms by (rule kv_get_rendezvous_run)

definition demo_get_answer :: "sent \<Rightarrow> message" where
  "demo_get_answer l = (if length l = 1 then Get_Target 5000 305419896 77 else Get_Successful)"

theorem kv_get_rendezvous_reads_witness:
  "\<exists>e1 wr e2 var h' s'.
    kv_get (demo_peer demo_get_answer) (demo_client 50) (Ptr 2 0) (demo_client_state [118]) =
      Some (if demo_get_answer (nic_log loop_view (world (demo_client_state [118])) @
        [e1, (wr, replicate (unat (5000 :: size_t)) 42), e2]) = Get_Successful then 0 else 1, Some var, h', s') \<and>
    carries e1 (Get demo_key) \<and> carries e2 (Get_Fin demo_key) \<and>
    bytes_from var (pmem s') = Some (replicate (unat (5000 :: size_t)) 42) \<and>
    send_opcode wr = IBV_WR_RDMA_READ \<and> rdma_remote_addr wr = bswap_64 305419896 \<and> rdma_rkey wr = ntohl 77 \<and>
    nic_log loop_view (world s') = nic_log loop_view (world (demo_client_state [118])) @
      [e1, (wr, replicate (unat (5000 :: size_t)) 42), e2] \<and>
    nic_mrs loop_view (world s') = nic_mrs loop_view (world (demo_client_state [118]))"
proof (rule kv_get_rendezvous_reads [OF demo_client_ok _ demo_client_live demo_client_key])
  show "peer_exposes loop_view demo_get_answer (\<lambda>n. replicate (unat n) 42)"
    by (simp add: peer_exposes_def loop_view_def)
qed (simp_all add: demo_get_answer_def message_wf_def message_bytes_def CONTROL_MESSAGE_BUFFER_SIZE_def demo_key_def
    loop_view_def demo_client_state_def demo_state_def)

text \<open>
  C20. A get of a key the server does not hold, or that is in progress, returns 1 and a null
  pointer.
\<close>

theorem kv_get_refused_returns:
  assumes "client_ok V W answer h ctx s"
    and "c_string key (pmem s) = Some k" and "pblk key \<notin> nic_dma W (world s)"
    and "length k + 1 \<le> CONTROL_MESSAGE_BUFFER_SIZE"
    and "\<And>e. carries e (Get k) \<Longrightarrow> answer (nic_log W (world s) @ [e]) \<in> {Get_Key_Not_Found, In_Progress}"
  shows "\<exists>e h' s'. kv_get V h key s = Some (1, Some NULL, h', s') \<and> carries e (Get k) \<and>
    nic_log W (world s') = nic_log W (world s) @ [e] \<and> nic_mrs W (world s') = nic_mrs W (world s)"
  using kv_get_refused [OF assms] server_frame_mrs by fast

theorem kv_get_refused_returns_witness:
  "\<exists>e h' s'. kv_get (demo_peer (\<lambda>l. Get_Key_Not_Found)) (demo_client 50) (Ptr 2 0) (demo_client_state [118]) =
      Some (1, Some NULL, h', s') \<and> carries e (Get demo_key) \<and>
    nic_log loop_view (world s') = nic_log loop_view (world (demo_client_state [118])) @ [e] \<and>
    nic_mrs loop_view (world s') = nic_mrs loop_view (world (demo_client_state [118]))"
  by (rule kv_get_refused_returns [OF demo_client_ok demo_client_key])
    (simp_all add: message_wf_def message_bytes_def CONTROL_MESSAGE_BUFFER_SIZE_def demo_key_def)

end
