(* ===== verification/Table_Properties.thy ===== *)
theory Table_Properties
  imports Demo_Server
begin

text \<open>
  The properties of the table of LowLatencyProtocols/dynamic_array.h: any sequence of
  insertions builds a dictionary, and what deleting does, with applications to small tables.
\<close>

section \<open>Sequences of insertions\<close>

fun insert_entries ::
  "int \<Rightarrow> KeyValueAddressPair list \<Rightarrow> KeyValueAddressArray \<Rightarrow> mem \<Rightarrow> (KeyValueAddressArray \<times> mem) option" where
  "insert_entries kvm [] A m = Some (A, m)"
| "insert_entries kvm (e # es) A m = do { (A, m) \<leftarrow> insert_to_array kvm A e m; insert_entries kvm es A m }"

text \<open>The specification: a finite map, updated at one key per insertion.\<close>

definition enter :: "mem \<Rightarrow> KeyValueAddressPair \<Rightarrow> (byte list \<rightharpoonup> KeyValueAddressPair) \<Rightarrow> (byte list \<rightharpoonup> KeyValueAddressPair)" where
  "enter m e M = (let k = the (key_string m e) in M(k \<mapsto> stored_entry (M k) e))"

definition dictionary :: "mem \<Rightarrow> KeyValueAddressPair list \<Rightarrow> (byte list \<rightharpoonup> KeyValueAddressPair)" where
  "dictionary m es = fold (enter m) es Map.empty"

lemma insert_entries_fold:
  assumes "array_ok A m" and "kvm \<noteq> 1" and "\<forall>e \<in> set es. key_string m e \<noteq> None"
    and "unat (used_length A) + length es < 2 ^ 56" and "unat (total_length A) < 2 ^ 58"
  shows "\<exists>A'. insert_entries kvm es A m = Some (A', m) \<and> array_ok A' m \<and>
    array_map A' m = fold (enter m) es (array_map A m) \<and> unat (used_length A) \<le> unat (used_length A') \<and>
    unat (total_length A') \<le> max (unat (total_length A)) (2 * unat (used_length A'))"
  using assms
proof (induction es arbitrary: A)
  case Nil
  then show ?case by simp
next
  case (Cons e es)
  then obtain k where k: "c_string (key_address e) m = Some k" by (auto simp: key_string_def)
  from insert_to_array_map [OF Cons.prems(1) k Cons.prems(2,5)] obtain B where
    B: "insert_to_array kvm A e m = Some (B, m)" "array_ok B m"
      "array_map B m = (array_map A m)(k \<mapsto> stored_entry (array_map A m k) e)" by blast
  have total: "unat (total_length B) < 2 ^ 58"
    using insert_to_array_total [OF B(1) Cons.prems(5)] Cons.prems(4,5) by simp
  have "card (dom (array_map A m)) \<le> card (dom (array_map B m)) \<and>
      card (dom (array_map B m)) \<le> Suc (card (dom (array_map A m)))"
    unfolding B(3) by (simp add: card_insert_if array_map_def finite_dom_map_of)
  with Cons.prems(1) B(2) have used: "unat (used_length A) \<le> unat (used_length B)"
    "unat (used_length B) \<le> Suc (unat (used_length A))"
    by (simp_all add: card_dom_array_map)
  with Cons.prems(4) have "unat (used_length B) + length es < 2 ^ 56" by simp
  from Cons.IH [OF B(2) Cons.prems(2) _ this total] Cons.prems(3) obtain A' where
    A': "insert_entries kvm es B m = Some (A', m)" "array_ok A' m" "array_map A' m = fold (enter m) es (array_map B m)"
      "unat (used_length B) \<le> unat (used_length A')"
      "unat (total_length A') \<le> max (unat (total_length B)) (2 * unat (used_length A'))"
    by auto
  have "unat (total_length A') \<le> max (unat (total_length A)) (2 * unat (used_length A'))"
    using A'(4,5) used(1) insert_to_array_total [OF B(1) Cons.prems(5)] by simp
  moreover have "array_map B m = enter m e (array_map A m)"
    using B(3) k by (simp add: enter_def key_string_def Let_def)
  ultimately show ?case using B(1) A' used(1) by simp
qed

text \<open>
  C21. Any sequence of insertions into a fresh table, growing it as needed, is defined and
  builds the dictionary of the pairs: the number of used slots is the number of different keys
  and stays within the table, and searching for any string gives exactly the dictionary's
  entry (the last pair entered under the string, with the first one's key address).
\<close>

theorem insertions_build_dictionary:
  assumes "0 < n" and "n < 2 ^ 31" and "kvm \<noteq> 1" and "length es < 2 ^ 56"
    and "\<forall>e \<in> set es. key_string m e \<noteq> None" and "c_string key m = Some k"
  shows "\<exists>A r. insert_entries kvm es (initialize_KeyValueAddressArray n) m = Some (A, m) \<and>
    unat (used_length A) = card (dom (dictionary m es)) \<and> unat (used_length A) \<le> length (head A) \<and>
    get_KeyValueAddressPair A key m = Some r \<and> Option.bind r (entry_at A) = dictionary m es k"
proof -
  note new = initialize_ok [OF assms(1,2)]
  have "unat (total_length (initialize_KeyValueAddressArray n)) < 2 ^ 58"
    using assms(2) unfolding new(3) by (simp add: nat_less_iff)
  from insert_entries_fold [OF new(1) assms(3,5) _ this] assms(4) obtain A where
    A: "insert_entries kvm es (initialize_KeyValueAddressArray n) m = Some (A, m)" "array_ok A m"
      "array_map A m = dictionary m es"
    by (auto simp: new dictionary_def)
  from get_KeyValueAddressPair_map [OF A(2) assms(6)] A(3) obtain r where
    "get_KeyValueAddressPair A key m = Some r" "Option.bind r (entry_at A) = dictionary m es k" by auto
  with A card_dom_array_map [OF A(2)] array_okD(1,2) [OF A(2)] show ?thesis by auto
qed

text \<open>
  C22. The table grows in proportion to its contents: after any sequence of insertions it has at
  most as many slots as it started with, or twice as many as it holds keys, so neither the
  doubling nor the size asked of \<open>realloc\<close> wraps around.
\<close>

theorem table_growth_bounded:
  assumes "0 < n" and "n < 2 ^ 31" and "kvm \<noteq> 1" and "length es < 2 ^ 56"
    and "\<forall>e \<in> set es. key_string m e \<noteq> None"
  shows "\<exists>A. insert_entries kvm es (initialize_KeyValueAddressArray n) m = Some (A, m) \<and>
    length (head A) = unat (total_length A) \<and>
    unat (total_length A) \<le> max (nat n) (2 * card (dom (dictionary m es))) \<and>
    unat (sizeof_pair * total_length A) = 32 * unat (total_length A)"
proof -
  note new = initialize_ok [OF assms(1,2)]
  have "unat (total_length (initialize_KeyValueAddressArray n)) < 2 ^ 58"
    using assms(2) unfolding new(3) by (simp add: nat_less_iff)
  from insert_entries_fold [OF new(1) assms(3,5) _ this] assms(4) obtain A where
    A: "insert_entries kvm es (initialize_KeyValueAddressArray n) m = Some (A, m)" "array_ok A m"
      "array_map A m = dictionary m es" "unat (total_length A) \<le> max (nat n) (2 * unat (used_length A))"
    by (auto simp: new dictionary_def)
  from A(2,3) have used: "unat (used_length A) = card (dom (dictionary m es))" using card_dom_array_map by metis
  have "card (dom (fold (enter m) xs M)) \<le> card (dom M) + length xs \<and> finite (dom (fold (enter m) xs M))"
    if "finite (dom M)" for xs M using that
  proof (induction xs arbitrary: M)
    case (Cons x xs)
    then have fin: "finite (dom (enter m x M))" and "card (dom (enter m x M)) \<le> Suc (card (dom M))"
      by (simp_all add: enter_def Let_def card_insert_if)
    with Cons.IH [OF fin] show ?case by simp
  qed simp
  from this [of Map.empty es] have "card (dom (dictionary m es)) \<le> length es" by (simp add: dictionary_def)
  with A(4) used assms(2,4) have "unat (total_length A) < 2 ^ 58" by (simp add: nat_less_iff max_def split: if_splits)
  then have "unat (sizeof_pair * total_length A) = 32 * unat (total_length A)"
    by (simp add: sizeof_pair_def unat_word_ariths)
  with A used array_okD(2) [OF A(2)] show ?thesis by auto
qed

text \<open>A pair at the addresses of the demonstration memory: the key "a" and the value there.\<close>

definition demo_pair :: "ptr \<Rightarrow> KeyValueAddressPair" where
  "demo_pair p = \<lparr>key_address = p, value_address = Ptr 3 0, value_size = 2, pair_mr_rdma = None\<rparr>"

lemma demo_pair_key:
  "c_string (Ptr 2 0) (demo_mem inbuf value) = Some [97]" "c_string (Ptr 2 (Suc 0)) (demo_mem inbuf value) = Some []"
  by (simp_all add: c_string_def bytes_from_def demo_mem_def demo_key_def)

theorem insertions_build_dictionary_witness:
  "\<exists>A r. insert_entries 0 [demo_pair (Ptr 2 0), demo_pair (Ptr 2 1), demo_pair (Ptr 2 0)]
      (initialize_KeyValueAddressArray 1) (demo_mem [] [118, 0]) = Some (A, demo_mem [] [118, 0]) \<and>
    unat (used_length A) = card (dom (dictionary (demo_mem [] [118, 0])
      [demo_pair (Ptr 2 0), demo_pair (Ptr 2 1), demo_pair (Ptr 2 0)])) \<and>
    unat (used_length A) \<le> length (head A) \<and>
    get_KeyValueAddressPair A (Ptr 2 0) (demo_mem [] [118, 0]) = Some r \<and>
    Option.bind r (entry_at A) = dictionary (demo_mem [] [118, 0])
      [demo_pair (Ptr 2 0), demo_pair (Ptr 2 1), demo_pair (Ptr 2 0)] [97]"
  by (rule insertions_build_dictionary) (simp_all add: demo_pair_def key_string_def demo_pair_key)

theorem table_growth_bounded_witness:
  "\<exists>A. insert_entries 0 [demo_pair (Ptr 2 1), demo_pair (Ptr 2 0)]
      (initialize_KeyValueAddressArray 1) (demo_mem [] [118, 0]) = Some (A, demo_mem [] [118, 0]) \<and>
    length (head A) = unat (total_length A) \<and>
    unat (total_length A) \<le>
      max (nat 1) (2 * card (dom (dictionary (demo_mem [] [118, 0]) [demo_pair (Ptr 2 1), demo_pair (Ptr 2 0)]))) \<and>
    unat (sizeof_pair * total_length A) = 32 * unat (total_length A)"
  by (rule table_growth_bounded) (simp_all add: demo_pair_def key_string_def demo_pair_key)

section \<open>Deletion\<close>

text \<open>A search that reaches a slot that was never written reads it.\<close>

lemma find_key_gap:
  assumes "\<And>j. j < i \<Longrightarrow> \<exists>e c. entry_at A j = Some e \<and> c_strcmp (key_address e) key m = Some c \<and> c \<noteq> 0"
    and "entry_at A i = None" and "i < bound" and "j \<le> i"
  shows "find_key A key m bound j = None"
  using assms(4)
proof (induction "i - j" arbitrary: j)
  case 0
  with assms(2,3) show ?case by (simp add: find_key.simps)
next
  case (Suc d)
  then have j: "j < i" by simp
  with assms(1) obtain e c where "entry_at A j = Some e" "c_strcmp (key_address e) key m = Some c" "c \<noteq> 0"
    by blast
  with Suc j assms(3) show ?case by (subst find_key.simps) simp
qed

lemma find_index_nth:
  "distinct (map f xs) \<Longrightarrow> i < length xs \<Longrightarrow> find_index (\<lambda>x. f x = f (xs ! i)) xs = Some i"
  by (induction xs arbitrary: i) (auto simp: nth_Cons' gr0_conv_Suc)

lemma find_key_delete:
  assumes ok: "array_ok A m" and key: "c_string key m = Some k" and i: "i < unat (used_length A)"
    and ki: "key_string m (entry_list A ! i) = Some k"
  shows "find_key A key m (unat (used_length A - 1)) 0 =
    Some (if i < unat (used_length A) - 1 then Some i else None)"
proof -
  have u: "unat (used_length A - 1) = unat (used_length A) - 1"
    using i by (intro unat_minus_one) auto
  let ?b = "unat (used_length A) - 1"
  have len: "length (entry_list A) = unat (used_length A)" using array_okD(3) [OF ok] .
  have dist: "distinct (map (key_string m) (entry_list A))" using ok by (simp add: array_ok_def)
  have "find_index (\<lambda>e. key_string m e = Some k) (take ?b (entry_list A)) = (if i < ?b then Some i else None)"
  proof (cases "i < ?b")
    case True
    have "distinct (map (key_string m) (take ?b (entry_list A)))"
      using dist by (simp add: take_map [symmetric])
    from find_index_nth [OF this, of i] True ki len show ?thesis by simp
  next
    case False
    have "key_string m (take ?b (entry_list A) ! j) \<noteq> Some k" if j: "j < ?b" for j
    proof
      assume "key_string m (take ?b (entry_list A) ! j) = Some k"
      with j ki have "map (key_string m) (entry_list A) ! j = map (key_string m) (entry_list A) ! i"
        using i len by simp
      with nth_eq_iff_index_eq [OF dist, of j i] i j len False show False by simp
    qed
    then show ?thesis using False len by (auto simp: find_index_None_iff in_set_conv_nth)
  qed
  with find_key_below [OF ok key, of ?b 0] u show ?thesis by simp
qed

text \<open>
  Deletion never looks at the last pair: the loop of \<open>delete_from_array\<close> ends before the
  last used slot, so deleting the key entered last returns the table unchanged, and the key
  is still found.
\<close>

theorem delete_ignores_last:
  assumes "array_ok A m" and "0 < unat (used_length A)"
    and "key_string m (entry_list A ! (unat (used_length A) - 1)) = Some k" and "c_string key m = Some k"
  shows "delete_from_array kvm A key m = Some (A, m) \<and> get_KeyValueAddressPair A key m \<noteq> Some None"
proof -
  let ?i = "unat (used_length A) - 1"
  from find_key_delete [OF assms(1,4), of ?i] assms(2,3)
  have "delete_from_array kvm A key m = Some (A, m)" by (simp add: delete_from_array_def)
  moreover have "entry_list A ! ?i \<in> set (entry_list A)" using array_okD(3) [OF assms(1)] assms(2) by simp
  with assms(3) have "k \<in> (\<lambda>e. the (key_string m e)) ` set (entry_list A)" by (metis image_eqI option.sel)
  then have "array_map A m k \<noteq> None" by (simp add: array_map_def map_of_map_None)
  with get_KeyValueAddressPair_map [OF assms(1,4)] have "get_KeyValueAddressPair A key m \<noteq> Some None" by auto
  ultimately show ?thesis ..
qed

theorem delete_ignores_last_witness:
  "delete_from_array 0 (demo_array 2 None) (Ptr 2 0) (pmem (demo_state [] [118, 0] [] [])) =
     Some (demo_array 2 None, pmem (demo_state [] [118, 0] [] [])) \<and>
   get_KeyValueAddressPair (demo_array 2 None) (Ptr 2 0) (pmem (demo_state [] [118, 0] [] [])) \<noteq> Some None"
proof (rule delete_ignores_last [OF demo_array_ok, where k = demo_key])
  have u: "used_length (demo_array 2 None) = 1" by (simp add: demo_array_def)
  then show "0 < unat (used_length (demo_array 2 None))" by simp
  show "c_string (Ptr 2 0) (pmem (demo_state [] [118, 0] [] [])) = Some demo_key"
    using demo_pair_key(1) by (simp add: demo_state_def demo_key_def)
  then show "key_string (pmem (demo_state [] [118, 0] [] []))
      (entry_list (demo_array 2 None) ! (unat (used_length (demo_array 2 None)) - 1)) = Some demo_key"
    by (simp add: u demo_entry_list key_string_def)
qed

text \<open>
  C40. Deleting any other key spoils a table that has room: the pair is overwritten with the
  slot after the last one, which was never written, and from then on looking the deleted key
  up reads that slot.
\<close>

theorem delete_leaves_gap:
  assumes "array_ok A m" and "i < unat (used_length A) - 1" and "key_string m (entry_list A ! i) = Some k"
    and "c_string key m = Some k" and "kvm \<noteq> 1"
    and "unat (used_length A) < unat (total_length A)" and "head A ! unat (used_length A) = None"
  shows "\<exists>A'. delete_from_array kvm A key m = Some (A', m) \<and> get_KeyValueAddressPair A' key m = None"
proof -
  note D = array_okD [OF assms(1)]
  let ?A = "A\<lparr>head := (head A)[i := None], used_length := used_length A - 1\<rparr>"
  have i: "i < unat (used_length A)" "i < length (head A)" using assms(2,6) D(2) by simp_all
  from find_key_delete [OF assms(1,4) i(1) assms(3)] assms(2)
  have "find_key A key m (unat (used_length A - 1)) 0 = Some (Some i)" by simp
  with assms(5-7) D(2) D(6) [OF i(1)] have "delete_from_array kvm A key m = Some (?A, m)"
    by (simp add: delete_from_array_def)
  moreover have "\<exists>e c. entry_at ?A j = Some e \<and> c_strcmp (key_address e) key m = Some c \<and> c \<noteq> 0" if j: "j < i" for j
  proof -
    let ?e = "entry_list A ! j"
    have e: "entry_at ?A j = Some ?e" using D(6) [of j] i j by (simp add: entry_at_def)
    have mem: "?e \<in> set (entry_list A)" using D(3) i j by simp
    have "map (key_string m) (entry_list A) ! j \<noteq> map (key_string m) (entry_list A) ! i"
      using assms(1) i j D(3) by (subst nth_eq_iff_index_eq) (simp_all add: array_ok_def)
    then have "key_string m ?e \<noteq> Some k" using assms(3) i j D(3) by simp
    with D(7) [OF mem] c_strcmp_string [OF _ assms(4), of "key_address ?e" "the (key_string m ?e)"] e
    show ?thesis by (auto simp: key_string_def)
  qed
  moreover have "entry_at ?A i = None" using i by (simp add: entry_at_def)
  moreover have "unat (used_length ?A) = unat (used_length A) - 1"
    using i by (simp add: unat_minus_one [of "used_length A"] word_unat_eq_iff)
  ultimately show ?thesis
    using find_key_gap [of i ?A key m "unat (used_length ?A)" 0] assms(2)
    by (auto simp: get_KeyValueAddressPair_def)
qed

definition demo_table_two :: KeyValueAddressArray where
  "demo_table_two =
     \<lparr>head = [Some (demo_pair (Ptr 2 0)), Some (demo_pair (Ptr 2 1)), None], used_length = 2, total_length = 3\<rparr>"

theorem delete_leaves_gap_witness:
  "\<exists>A'. delete_from_array 0 demo_table_two (Ptr 2 0) (demo_mem [] [118, 0]) = Some (A', demo_mem [] [118, 0]) \<and>
    get_KeyValueAddressPair A' (Ptr 2 0) (demo_mem [] [118, 0]) = None"
proof -
  have es: "entry_list demo_table_two = [demo_pair (Ptr 2 0), demo_pair (Ptr 2 1)]"
    by (simp add: entry_list_def demo_table_two_def take_Cons')
  have "array_ok demo_table_two (demo_mem [] [118, 0])"
    by (auto simp: array_ok_def es) (auto simp: demo_table_two_def demo_pair_def key_string_def demo_pair_key)
  then show ?thesis
    by (rule delete_leaves_gap [where i = 0 and k = "[97]"])
      (simp_all add: es, simp_all add: demo_table_two_def demo_pair_def key_string_def demo_pair_key)
qed

end
