(* ===== verification/Protocol_Properties.thy ===== *)
theory Protocol_Properties
  imports Demo_Server
begin

text \<open>
  The properties of the control messages (LowLatencyProtocols/kv_api.c) and of the completion
  and receive accounting (ib_functions.c), with applications on the loopback adapter.
\<close>

section \<open>Control messages\<close>

text \<open>The strings a caller passes are terminated, so what it passes is a well-formed message.\<close>

lemma message_srcs_wf: "message_srcs msg srcs m \<Longrightarrow> message_wf msg"
  by (cases msg) (auto simp: message_wf_def dest: c_string_no_nul)

text \<open>
  C23. Control messages survive the wire: for every operation, when the caller's arguments are
  the fields of a message that fits the send buffer, \<open>set_control_message\<close> is defined, and
  wherever the registered part of the send buffer is delivered, the receiver reads the same
  operation from it and its decoder finds the same fields.
\<close>

theorem control_message_roundtrip:
  assumes "handle_ctx h = Some ctx" and "message_srcs msg srcs (pmem s)"
    and "srcs_blocks srcs \<inter> {pblk (mr_control_send_start_ptr ctx)} = {}"
    and "bytes_from (mr_control_send_start_ptr ctx) (pmem s) = Some bs"
    and "nat (mr_control_send_size ctx) \<le> length bs"
    and "length (message_bytes msg) \<le> nat (mr_control_send_size ctx)"
  shows "\<exists>s' img. set_control_message h (message_op msg) srcs s = Some s' \<and>
    control_image ctx (pmem s') = Some img \<and>
    (\<forall>q m rest. bytes_from q m = Some (img @ rest) \<longrightarrow>
       message_operation q m = Some (op_code (message_op msg)) \<and>
       read_message (message_op msg) (message_buf q) m = Some msg)"
proof -
  let ?p = "mr_control_send_start_ptr ctx" and ?n = "nat (mr_control_send_size ctx)"
  from assms(5,6) have fits: "length (message_bytes msg) \<le> length bs" by simp
  from set_control_message_bytes [OF assms(1,4) fits assms(2,3)] obtain m' where
    m': "set_control_message h (message_op msg) srcs s = Some (s\<lparr>pmem := m'\<rparr>)"
      "bytes_from ?p m' = Some (message_bytes msg @ drop (length (message_bytes msg)) bs)" by blast
  let ?pad = "take (?n - length (message_bytes msg)) (drop (length (message_bytes msg)) bs)"
  have img: "control_image ctx m' = Some (message_bytes msg @ ?pad)"
    using m'(2) assms(5,6) by (simp add: control_image_def load_bytes_def)
  have "message_at q msg m" if "bytes_from q m = Some ((message_bytes msg @ ?pad) @ rest)" for q m rest
    using that message_srcs_wf [OF assms(2)] by (auto simp: message_at_def)
  with img m'(1) message_at_operation read_message_at show ?thesis by fastforce
qed

theorem control_message_roundtrip_witness:
  "\<exists>s' img. set_control_message (demo_handle 50) (message_op (Set_Eager demo_key 2 [118]))
      [At (Ptr 2 0), Var (bytes64 2), At (Ptr 3 0)] (demo_state [] [118, 0] [] []) = Some s' \<and>
    control_image (demo_ctx 50) (pmem s') = Some img \<and>
    (\<forall>q m rest. bytes_from q m = Some (img @ rest) \<longrightarrow>
       message_operation q m = Some (op_code (message_op (Set_Eager demo_key 2 [118]))) \<and>
       read_message (message_op (Set_Eager demo_key 2 [118])) (message_buf q) m = Some (Set_Eager demo_key 2 [118]))"
proof (rule control_message_roundtrip)
  show "message_srcs (Set_Eager demo_key 2 [118]) [At (Ptr 2 0), Var (bytes64 2), At (Ptr 3 0)]
      (pmem (demo_state [] [118, 0] [] []))"
    by (simp add: c_string_def bytes_from_def demo_state_def demo_mem_def demo_key_def)
  show "bytes_from (mr_control_send_start_ptr (demo_ctx 50)) (pmem (demo_state [] [118, 0] [] [])) =
      Some (replicate 4100 0)"
    by (simp add: bytes_from_def demo_state_def demo_mem_def demo_ctx_def)
qed (simp_all add: handle_ctx_def demo_handle_def demo_ctx_def srcs_blocks_def message_bytes_def demo_key_def)

section \<open>Receive requests\<close>

text \<open>
  C24. The receive queue stays filled: if as many receive requests are outstanding at the adapter
  as the context counts, more than the threshold and at most \<open>rx_depth\<close>, then after any number
  of successful receptions by \<open>poll_next_receive_wc\<close>, with the refills by \<open>pp_post_recv\<close>, the
  number of outstanding requests is again what the context counts, above the threshold and
  within the depth. (A request is outstanding from its post until its completion is polled.)
\<close>

theorem receive_queue_stays_filled:
  assumes "counts_receives V (qp ctx) (receive_cq ctx) posted" and "int (posted (world s)) = routs ctx"
    and "REFILL_RWR_THRES < routs ctx" and "routs ctx \<le> rx_depth ctx"
    and "iterate_option n (receive_step V blocking) (ctx, s) = Some (ctx', s')"
  shows "int (posted (world s')) = routs ctx' \<and>
    REFILL_RWR_THRES < int (posted (world s')) \<and> int (posted (world s')) \<le> rx_depth ctx' \<and>
    rx_depth ctx' = rx_depth ctx"
proof -
  have "credit_exact V posted (ctx', s')"
    using assms ib_posted.receives_exact [of V posted "(ctx, s)" n blocking "(ctx', s')"]
    by (simp add: credit_exact_def)
  moreover have "REFILL_RWR_THRES < routs ctx' \<and> routs ctx' \<le> rx_depth ctx' \<and> rx_depth ctx' = rx_depth ctx"
    using assms ib_credit.receives_bounds [of "(ctx, s)" n V blocking "(ctx', s')"] by simp
  ultimately show ?thesis by (simp add: credit_exact_def)
qed

text \<open>
  An adapter that counts: its state is the number of outstanding requests, and a message is
  waiting as long as there is one. Of 12 requests two are used, then the queue is refilled.
\<close>

definition count_verbs :: "nat verbs" where
  "count_verbs =
     \<lparr>ibv_post_recv = (\<lambda>q wr s. (0, s\<lparr>world := Suc (world s)\<rparr>)), ibv_post_send = (\<lambda>q wr s. (22, s)),
      ibv_poll_cq = (\<lambda>cq k s. if world s = 0 then ((0, []), s)
                              else ((1, [loop_wc IBV_WC_RECV]), s\<lparr>world := world s - 1\<rparr>)),
      ibv_reg_mr = (\<lambda>d p n acc s. (None, s)), ibv_dereg_mr = (\<lambda>mr s. (22, s))\<rparr>"

definition count_state :: "nat \<Rightarrow> nat pstate" where
  "count_state n = \<lparr>pmem = demo_mem [] [], world = n, max_inline = 0, page_size = 4096, kv_malloc = 0\<rparr>"

lemma count_verbs_counts: "counts_receives count_verbs q cq id"
  by (auto simp: counts_receives_def count_verbs_def split: if_splits)

theorem receive_queue_stays_filled_witness:
  "int (id (world (count_state 12))) = routs ((demo_ctx 12)\<lparr>rx_depth := 12\<rparr>) \<and>
   REFILL_RWR_THRES < int (id (world (count_state 12))) \<and>
   int (id (world (count_state 12))) \<le> rx_depth ((demo_ctx 12)\<lparr>rx_depth := 12\<rparr>) \<and>
   rx_depth ((demo_ctx 12)\<lparr>rx_depth := 12\<rparr>) = rx_depth ((demo_ctx 12)\<lparr>rx_depth := 12\<rparr>)"
proof (rule receive_queue_stays_filled [OF count_verbs_counts])
  show "iterate_option 2 (receive_step count_verbs 0) ((demo_ctx 12)\<lparr>rx_depth := 12\<rparr>, count_state 12) =
    Some ((demo_ctx 12)\<lparr>rx_depth := 12\<rparr>, count_state 12)"
    by (simp add: receive_step_def poll_next_receive_wc_def pp_post_recv_def count_verbs_def loop_wc_def demo_ctx_def
        count_state_def REFILL_RWR_THRES_def numeral_2_eq_2)
qed (simp_all add: demo_ctx_def count_state_def REFILL_RWR_THRES_def)

section \<open>Send completions\<close>

text \<open>
  C25. \<open>poll_n_send_wc\<close> takes exactly what it is asked for: when it returns 0, the polls it made
  took exactly \<open>n\<close> completions out of the send queue, all of them successful sends, writes or
  reads. None is left behind or taken twice, whatever the sizes of the batches.
\<close>

theorem poll_n_send_takes_exactly:
  assumes "poll_bounded V" and "0 \<le> n" and "poll_n_send_wc V ctx n s = Some (0, s')"
  shows "\<exists>wcs. polled V (send_cq ctx) s wcs s' \<and> int (length wcs) = n \<and> (\<forall>wc \<in> set wcs. send_done wc)"
  using poll_n_send_loop_exact [OF assms(1), of "send_cq ctx" n 0 s 0 s'] assms(2,3)
  by (simp add: poll_n_send_wc_def)

theorem poll_n_send_takes_exactly_witness:
  "\<exists>wcs. polled loop_verbs (send_cq (demo_ctx 50)) (demo_state [] [] [] []) wcs (demo_state [] [] [] []) \<and>
    int (length wcs) = 1 \<and> (\<forall>wc \<in> set wcs. send_done wc)"
proof (rule poll_n_send_takes_exactly [OF loop_poll_bounded])
  have "polls_one loop_verbs 1 (demo_state [] [] [] []) (loop_wc IBV_WC_SEND) (demo_state [] [] [] [])"
    by (rule polls_now) (simp add: loop_defs demo_state_def)
  then show "poll_n_send_wc loop_verbs (demo_ctx 50) 1 (demo_state [] [] [] []) = Some (0, demo_state [] [] [] [])"
    using poll_n_send_wc_one [of loop_verbs "demo_ctx 50"] by (simp add: demo_ctx_def loop_wc_def)
qed simp

end
