(* ===== verification/Host.thy ===== *)
theory Host
  imports Verbs Text_Format
begin

text \<open>
  The rest of the outside world, used to set up and tear down connections: the verbs that
  create, change and destroy the adapter's objects, the socket calls, files and random numbers.
  The record \<open>'w host\<close> extends \<open>'w verbs\<close>. An \<open>addrinfo\<close> is opaque; \<open>getaddrinfo\<close> gives the
  list the programs walk through. A read returns its result and the bytes it stored.

  The programs' own structures (contexts, handles, addresses) are values of the model.
  \<open>malloc_struct\<close> is their allocation: it can fail, and gives the arbitrary initial bytes;
  freeing them has no effect on the model.
\<close>

section \<open>Queue pairs\<close>

datatype ibv_qp_state = IBV_QPS_RESET | IBV_QPS_INIT | IBV_QPS_RTR | IBV_QPS_RTS

datatype ibv_qp_attr_mask =
    IBV_QP_STATE | IBV_QP_PKEY_INDEX | IBV_QP_PORT | IBV_QP_ACCESS_FLAGS | IBV_QP_AV | IBV_QP_PATH_MTU
  | IBV_QP_DEST_QPN | IBV_QP_RQ_PSN | IBV_QP_MAX_DEST_RD_ATOMIC | IBV_QP_MIN_RNR_TIMER | IBV_QP_TIMEOUT
  | IBV_QP_RETRY_CNT | IBV_QP_RNR_RETRY | IBV_QP_SQ_PSN | IBV_QP_MAX_QP_RD_ATOMIC

record ibv_ah_attr =
  is_global :: "8 word"
  dlid :: "16 word"
  ah_sl :: "8 word"
  src_path_bits :: "8 word"
  ah_port_num :: "8 word"
  hop_limit :: "8 word"
  dgid :: "byte list"
  sgid_index :: "8 word"

record ibv_qp_attr =
  qp_state :: ibv_qp_state
  path_mtu :: int
  dest_qp_num :: u32
  rq_psn :: u32
  sq_psn :: u32
  qp_access_flags :: "ibv_access list"
  pkey_index :: "16 word"
  port_num :: "8 word"
  max_dest_rd_atomic :: "8 word"
  max_rd_atomic :: "8 word"
  min_rnr_timer :: "8 word"
  timeout :: "8 word"
  retry_cnt :: "8 word"
  rnr_retry :: "8 word"
  ah_attr :: ibv_ah_attr

text \<open>A structure whose fields are not initialised explicitly is zero.\<close>

definition ah_attr_0 :: ibv_ah_attr where
  "ah_attr_0 = \<lparr>is_global = 0, dlid = 0, ah_sl = 0, src_path_bits = 0, ah_port_num = 0, hop_limit = 0,
                dgid = replicate 16 0, sgid_index = 0\<rparr>"

definition qp_attr_0 :: ibv_qp_attr where
  "qp_attr_0 = \<lparr>qp_state = IBV_QPS_RESET, path_mtu = 0, dest_qp_num = 0, rq_psn = 0, sq_psn = 0,
                qp_access_flags = [], pkey_index = 0, port_num = 0, max_dest_rd_atomic = 0, max_rd_atomic = 0,
                min_rnr_timer = 0, timeout = 0, retry_cnt = 0, rnr_retry = 0, ah_attr = ah_attr_0\<rparr>"

record ibv_qp_init_attr =
  init_send_cq :: handle
  init_recv_cq :: handle
  max_send_wr :: int
  max_recv_wr :: int
  max_send_sge :: int
  max_recv_sge :: int

section \<open>The functions\<close>

type_synonym addrinfo = nat

record 'w host = "'w verbs" +
  ibv_get_device_list :: "'w pstate \<Rightarrow> handle list option \<times> 'w pstate"
  ibv_get_device_name :: "handle \<Rightarrow> byte list"
  ibv_open_device :: "handle \<Rightarrow> 'w pstate \<Rightarrow> handle \<times> 'w pstate"
  ibv_create_comp_channel :: "handle \<Rightarrow> 'w pstate \<Rightarrow> handle \<times> 'w pstate"
  ibv_alloc_pd :: "handle \<Rightarrow> 'w pstate \<Rightarrow> handle \<times> 'w pstate"
  ibv_create_cq :: "handle \<Rightarrow> int \<Rightarrow> handle \<Rightarrow> 'w pstate \<Rightarrow> handle \<times> 'w pstate"
  ibv_create_qp :: "handle \<Rightarrow> ibv_qp_init_attr \<Rightarrow> 'w pstate \<Rightarrow> handle \<times> 'w pstate"
  ibv_modify_qp :: "handle \<Rightarrow> ibv_qp_attr \<Rightarrow> ibv_qp_attr_mask list \<Rightarrow> 'w pstate \<Rightarrow> int \<times> 'w pstate"
  ibv_query_max_inline :: "handle \<Rightarrow> 'w pstate \<Rightarrow> (int \<times> u32) \<times> 'w pstate"
  qp_num :: "handle \<Rightarrow> 'w pstate \<Rightarrow> u32"
  ibv_query_port :: "handle \<Rightarrow> int \<Rightarrow> 'w pstate \<Rightarrow> (int \<times> ibv_port_attr) \<times> 'w pstate"
  ibv_query_gid :: "handle \<Rightarrow> int \<Rightarrow> int \<Rightarrow> 'w pstate \<Rightarrow> (int \<times> byte list) \<times> 'w pstate"
  ibv_req_notify_cq :: "handle \<Rightarrow> int \<Rightarrow> 'w pstate \<Rightarrow> int \<times> 'w pstate"
  ibv_destroy_qp :: "handle \<Rightarrow> 'w pstate \<Rightarrow> int \<times> 'w pstate"
  ibv_destroy_cq :: "handle \<Rightarrow> 'w pstate \<Rightarrow> int \<times> 'w pstate"
  ibv_dealloc_pd :: "handle \<Rightarrow> 'w pstate \<Rightarrow> int \<times> 'w pstate"
  ibv_destroy_comp_channel :: "handle \<Rightarrow> 'w pstate \<Rightarrow> int \<times> 'w pstate"
  ibv_close_device :: "handle \<Rightarrow> 'w pstate \<Rightarrow> int \<times> 'w pstate"
  ibv_free_device_list :: "'w pstate \<Rightarrow> 'w pstate"
  getaddrinfo :: "byte list option \<Rightarrow> byte list \<Rightarrow> 'w pstate \<Rightarrow> (int \<times> addrinfo list) \<times> 'w pstate"
  sock_socket :: "addrinfo \<Rightarrow> 'w pstate \<Rightarrow> int \<times> 'w pstate"
  sock_connect :: "int \<Rightarrow> addrinfo \<Rightarrow> 'w pstate \<Rightarrow> int \<times> 'w pstate"
  sock_setsockopt :: "int \<Rightarrow> 'w pstate \<Rightarrow> int \<times> 'w pstate"
  sock_bind :: "int \<Rightarrow> addrinfo \<Rightarrow> 'w pstate \<Rightarrow> int \<times> 'w pstate"
  sock_listen :: "int \<Rightarrow> int \<Rightarrow> 'w pstate \<Rightarrow> int \<times> 'w pstate"
  sock_accept :: "int \<Rightarrow> 'w pstate \<Rightarrow> int \<times> 'w pstate"
  sock_close :: "int \<Rightarrow> 'w pstate \<Rightarrow> int \<times> 'w pstate"
  sock_write :: "int \<Rightarrow> byte list \<Rightarrow> 'w pstate \<Rightarrow> int \<times> 'w pstate"
  sock_read :: "int \<Rightarrow> nat \<Rightarrow> 'w pstate \<Rightarrow> (int \<times> byte list) \<times> 'w pstate"
  lrand48 :: "'w pstate \<Rightarrow> nat \<times> 'w pstate"
  sysconf_pagesize :: int
  c_rand :: "'w pstate \<Rightarrow> nat \<times> 'w pstate"
  c_fopen :: "byte list \<Rightarrow> 'w pstate \<Rightarrow> byte list option \<times> 'w pstate"

section \<open>Allocation\<close>

definition malloc_struct :: "nat \<Rightarrow> 'w pstate \<Rightarrow> byte list option \<times> 'w pstate" where
  "malloc_struct n s = (let (p, m) = c_malloc n (pmem s) in (bytes_from p m, s\<lparr>pmem := m\<rparr>))"

text \<open>\<open>asprintf(&service, "%d", port)\<close>: \<open>NULL\<close> when there is no memory.\<close>

definition asprintf_d :: "int \<Rightarrow> 'w pstate \<Rightarrow> (ptr \<times> 'w pstate) option" where
  "asprintf_d n s =
     (let text = sprintf_d n @ [0]; (p, m) = c_malloc (length text) (pmem s)
      in if p = NULL then Some (NULL, s\<lparr>pmem := m\<rparr>)
         else do { m \<leftarrow> store_bytes p text m; Some (p, s\<lparr>pmem := m\<rparr>) })"

definition free_block :: "ptr \<Rightarrow> 'w pstate \<Rightarrow> 'w pstate option" where
  "free_block p s = do { m \<leftarrow> c_free p (pmem s); Some (s\<lparr>pmem := m\<rparr>) }"

text \<open>A local array: a block that is always there, and is gone at the end of its scope.\<close>

definition local_array :: "nat \<Rightarrow> 'w pstate \<Rightarrow> ptr \<times> 'w pstate" where
  "local_array n s =
     (let b = next_blk (pmem s); m = pmem s
      in (Ptr b 0, s\<lparr>pmem := m\<lparr>blocks := (blocks m)(b := Some (map (junk m b) [0..<n])), next_blk := Suc b\<rparr>\<rparr>))"

definition end_scope :: "ptr \<Rightarrow> 'w pstate \<Rightarrow> 'w pstate" where
  "end_scope p s = s\<lparr>pmem := (pmem s)\<lparr>blocks := (blocks (pmem s))(pblk p := None)\<rparr>\<rparr>"

section \<open>Sockets\<close>

text \<open>
  The loops over the addresses a name resolves to: the first that can be connected to
  (bound to), or the last negative result.
\<close>

fun try_connect :: "('w, 'z) host_scheme \<Rightarrow> addrinfo list \<Rightarrow> int \<Rightarrow> 'w pstate \<Rightarrow> int \<times> 'w pstate" where
  "try_connect V [] sockfd s = (sockfd, s)"
| "try_connect V (t # ts) sockfd s =
     (let (sockfd, s) = sock_socket V t s in
      if sockfd \<ge> 0 then
        let (r, s) = sock_connect V sockfd t s in
        if r = 0 then (sockfd, s)
        else let (r, s) = sock_close V sockfd s in try_connect V ts (-1) s
      else try_connect V ts sockfd s)"

fun try_bind :: "('w, 'z) host_scheme \<Rightarrow> addrinfo list \<Rightarrow> int \<Rightarrow> 'w pstate \<Rightarrow> int \<times> 'w pstate" where
  "try_bind V [] sockfd s = (sockfd, s)"
| "try_bind V (t # ts) sockfd s =
     (let (sockfd, s) = sock_socket V t s in
      if sockfd \<ge> 0 then
        let (r, s) = sock_setsockopt V sockfd s;
            (r, s) = sock_bind V sockfd t s in
        if r = 0 then (sockfd, s)
        else let (r, s) = sock_close V sockfd s in try_bind V ts (-1) s
      else try_bind V ts sockfd s)"

text \<open>
  The common first half of every connection: the port as text, the addresses, the loop, and
  freeing both. The result is negative when there is no memory, the name does not resolve,
  or no address works.
\<close>

definition open_socket ::
  "('w, 'z) host_scheme \<Rightarrow> byte list option \<Rightarrow> int \<Rightarrow> 'w pstate \<Rightarrow> (int \<times> 'w pstate) option" where
  "open_socket V name p s =
     do { (service, s) \<leftarrow> asprintf_d p s;
          if service = NULL then Some (-1, s)
          else do {
            let ((n, res), s) = getaddrinfo V name (sprintf_d p) s;
            if n < 0 then do { s \<leftarrow> free_block service s; Some (-1, s) }
            else do {
              let (sockfd, s) = (if name = None then try_bind V res (-1) s else try_connect V res (-1) s);
              s \<leftarrow> free_block service s;
              Some (sockfd, s) } } }"

section \<open>Documented behaviour\<close>

text \<open>
  The legal transitions of a reliable queue pair and the attributes each needs. The new
  state takes the attributes named in the mask.
\<close>

definition qp_to_init :: "ibv_qp_attr \<Rightarrow> ibv_qp_attr \<Rightarrow> ibv_qp_attr" where
  "qp_to_init cur a = cur\<lparr>qp_state := IBV_QPS_INIT, pkey_index := pkey_index a, port_num := port_num a,
                          qp_access_flags := qp_access_flags a\<rparr>"

definition qp_to_rtr :: "ibv_qp_attr \<Rightarrow> ibv_qp_attr \<Rightarrow> ibv_qp_attr" where
  "qp_to_rtr cur a = cur\<lparr>qp_state := IBV_QPS_RTR, ah_attr := ah_attr a, path_mtu := path_mtu a,
                         dest_qp_num := dest_qp_num a, rq_psn := rq_psn a,
                         max_dest_rd_atomic := max_dest_rd_atomic a, min_rnr_timer := min_rnr_timer a\<rparr>"

definition qp_to_rts :: "ibv_qp_attr \<Rightarrow> ibv_qp_attr \<Rightarrow> ibv_qp_attr" where
  "qp_to_rts cur a = cur\<lparr>qp_state := IBV_QPS_RTS, timeout := timeout a, retry_cnt := retry_cnt a,
                         rnr_retry := rnr_retry a, sq_psn := sq_psn a, max_rd_atomic := max_rd_atomic a\<rparr>"

inductive qp_step :: "ibv_qp_attr \<Rightarrow> ibv_qp_attr \<Rightarrow> ibv_qp_attr_mask set \<Rightarrow> ibv_qp_attr \<Rightarrow> bool" where
  reset_init: "qp_state cur = IBV_QPS_RESET \<Longrightarrow> qp_state a = IBV_QPS_INIT \<Longrightarrow>
    ms = {IBV_QP_STATE, IBV_QP_PKEY_INDEX, IBV_QP_PORT, IBV_QP_ACCESS_FLAGS} \<Longrightarrow>
    qp_step cur a ms (qp_to_init cur a)"
| init_rtr: "qp_state cur = IBV_QPS_INIT \<Longrightarrow> qp_state a = IBV_QPS_RTR \<Longrightarrow>
    ms = {IBV_QP_STATE, IBV_QP_AV, IBV_QP_PATH_MTU, IBV_QP_DEST_QPN, IBV_QP_RQ_PSN,
            IBV_QP_MAX_DEST_RD_ATOMIC, IBV_QP_MIN_RNR_TIMER} \<Longrightarrow>
    qp_step cur a ms (qp_to_rtr cur a)"
| rtr_rts: "qp_state cur = IBV_QPS_RTR \<Longrightarrow> qp_state a = IBV_QPS_RTS \<Longrightarrow>
    ms = {IBV_QP_STATE, IBV_QP_TIMEOUT, IBV_QP_RETRY_CNT, IBV_QP_RNR_RETRY, IBV_QP_SQ_PSN,
            IBV_QP_MAX_QP_RD_ATOMIC} \<Longrightarrow>
    qp_step cur a ms (qp_to_rts cur a)"

inductive_simps qp_step_simps: "qp_step cur a ms new"

text \<open>
  A call of the set-up verbs leaves the programs' memory and variables alone: a host call.
\<close>

definition quiet :: "'w pstate \<Rightarrow> 'w pstate \<Rightarrow> bool" where
  "quiet s s' \<longleftrightarrow> s' = s\<lparr>world := world s'\<rparr>"

lemma quiet_refl [simp]: "quiet s s"
  by (simp add: quiet_def)

lemma quiet_trans: "quiet s s1 \<Longrightarrow> quiet s1 s2 \<Longrightarrow> quiet s s2"
  by (cases s; cases s1; cases s2) (simp add: quiet_def)

lemma quietD: "quiet s s' \<Longrightarrow> pmem s' = pmem s \<and> max_inline s' = max_inline s \<and> page_size s' = page_size s \<and>
    kv_malloc s' = kv_malloc s"
  by (cases s; cases s') (simp add: quiet_def)

text \<open>The adapter performs exactly the legal transitions.\<close>

definition modifies_qp :: "('w, 'z) host_scheme \<Rightarrow> ('w \<Rightarrow> handle \<Rightarrow> ibv_qp_attr option) \<Rightarrow> bool" where
  "modifies_qp V Q \<longleftrightarrow>
     (\<forall>q a ms s cur.
        Q (world s) q = Some cur \<longrightarrow>
        (\<exists>r s'. ibv_modify_qp V q a ms s = (r, s') \<and> quiet s s' \<and>
           (if \<exists>new. qp_step cur a (set ms) new
            then r = 0 \<and> (\<exists>new. qp_step cur a (set ms) new \<and> Q (world s') = (Q (world s))(q \<mapsto> new))
            else r \<noteq> 0 \<and> Q (world s') = Q (world s))))"

lemma qp_step_deterministic: "qp_step cur a ms new \<Longrightarrow> qp_step cur a ms new' \<Longrightarrow> new' = new"
  by (auto simp: qp_step_simps)

lemma modifies_qpD:
  assumes "modifies_qp V Q" and "Q (world s) q = Some cur" and "qp_step cur a (set ms) new"
  obtains s' where "ibv_modify_qp V q a ms s = (0, s')" and "quiet s s'" and
    "Q (world s') = (Q (world s))(q \<mapsto> new)"
proof -
  from assms(1,2) obtain r s' where m: "ibv_modify_qp V q a ms s = (r, s')" "quiet s s'"
    "if \<exists>new. qp_step cur a (set ms) new
     then r = 0 \<and> (\<exists>new. qp_step cur a (set ms) new \<and> Q (world s') = (Q (world s))(q \<mapsto> new))
     else r \<noteq> 0 \<and> Q (world s') = Q (world s)"
    unfolding modifies_qp_def by metis
  from m(3) assms(3) obtain new' where "r = 0" "qp_step cur a (set ms) new'"
    "Q (world s') = (Q (world s))(q \<mapsto> new')" by (auto split: if_splits)
  with m(1,2) assms(3) qp_step_deterministic show ?thesis using that by blast
qed

end
