(* ===== verification/Wire_Address.thy ===== *)
theory Wire_Address
  imports IB_Functions Text_Format
begin

text \<open>
  How an endpoint address travels over the socket (LowLatencyProtocols/ib_functions.c): the
  gid as 32 hexadecimal digits, and the message \<open>lid:qpn:psn:gid\<close> in a buffer of exactly its
  size. Reading is \<open>sscanf\<close> into fresh memory: a field the conversion does not reach keeps
  what was there. A write or read past the end of a buffer is \<open>None\<close>.
\<close>

section \<open>The gid\<close>

text \<open>The \<open>i\<close>-th 32-bit word of a gid, in host byte order.\<close>

definition gid_word :: "byte list \<Rightarrow> nat \<Rightarrow> u32" where
  "gid_word g i = word32 (take 4 (drop (i * 4) g))"

definition gid_to_wire_gid :: "byte list \<Rightarrow> byte list" where
  "gid_to_wire_gid g = concat (map (\<lambda>i. sprintf_x 8 (unat (htonl (gid_word g i)))) [0..<4])"

text \<open>
  \<open>v32\<close> is one variable for all four conversions, uninitialised at first: a failed
  conversion leaves the value of the one before.
\<close>

fun wire_gid_loop :: "byte list \<Rightarrow> nat \<Rightarrow> nat \<Rightarrow> u32 \<Rightarrow> byte list" where
  "wire_gid_loop wgid 0 i v32 = []"
| "wire_gid_loop wgid (Suc n) i v32 =
     (let tmp = the (cstr (take 8 (drop (i * 8) wgid) @ [0]));
          v32 = (case scan_x tmp of None \<Rightarrow> v32 | Some (v, _) \<Rightarrow> ucast v)
      in bytes32 (ntohl v32) @ wire_gid_loop wgid n (i + 1) v32)"

definition wire_gid_to_gid :: "u32 \<Rightarrow> byte list \<Rightarrow> byte list" where
  "wire_gid_to_gid v32 wgid = wire_gid_loop wgid 4 0 v32"

section \<open>The message\<close>

definition dest_text :: "pingpong_dest \<Rightarrow> byte list" where
  "dest_text d =
     sprintf_x 4 (unat (of_int (lid d) :: u32)) @ [58] @ sprintf_x 6 (unat (of_int (qpn d) :: u32)) @ [58] @
     sprintf_x 6 (unat (of_int (psn d) :: u32)) @ [58] @ gid_to_wire_gid (gid d)"

definition sizeof_dest_msg :: nat where "sizeof_dest_msg = 52"

text \<open>\<open>sprintf\<close> into \<open>msg\<close>: the text and its NUL have to fit.\<close>

definition print_dest :: "pingpong_dest \<Rightarrow> byte list option" where
  "print_dest d = (if length (dest_text d) + 1 \<le> sizeof_dest_msg then Some (dest_text d @ [0]) else None)"

text \<open>
  \<open>sscanf(msg, "%x:%x:%x:%s", ...)\<close>. \<open>gidbuf\<close> is the local buffer \<open>gid[33]\<close>, which \<open>%s\<close>
  overflows when the word is longer.
\<close>

definition scan_dest ::
  "pingpong_dest \<Rightarrow> byte list \<Rightarrow> byte list \<Rightarrow> (pingpong_dest \<times> byte list) option" where
  "scan_dest d gidbuf text =
     (case scan_x text of
        None \<Rightarrow> Some (d, gidbuf)
      | Some (v, r) \<Rightarrow>
          let d = d\<lparr>lid := sint (ucast v :: u32)\<rparr> in
          (case Option.bind (scan_lit 58 r) scan_x of
             None \<Rightarrow> Some (d, gidbuf)
           | Some (v, r) \<Rightarrow>
               let d = d\<lparr>qpn := sint (ucast v :: u32)\<rparr> in
               (case Option.bind (scan_lit 58 r) scan_x of
                  None \<Rightarrow> Some (d, gidbuf)
                | Some (v, r) \<Rightarrow>
                    let d = d\<lparr>psn := sint (ucast v :: u32)\<rparr> in
                    (case Option.bind (scan_lit 58 r) scan_s of
                       None \<Rightarrow> Some (d, gidbuf)
                     | Some (w, _) \<Rightarrow>
                         if length w < length gidbuf then Some (d, splice_at 0 (w @ [0]) gidbuf) else None))))"

text \<open>The address a received message gives: scan it, then convert the gid.\<close>

definition parse_dest ::
  "u32 \<Rightarrow> pingpong_dest \<Rightarrow> byte list \<Rightarrow> byte list \<Rightarrow> pingpong_dest option" where
  "parse_dest v32 d gidbuf msg =
     do { text \<leftarrow> cstr msg;
          (d, gidbuf) \<leftarrow> scan_dest d gidbuf text;
          Some (d\<lparr>gid := wire_gid_to_gid v32 gidbuf\<rparr>) }"

section \<open>Round trips\<close>

text \<open>An address as the adapter assigns it: a 16-bit lid, 24-bit numbers, a 16-byte gid.\<close>

definition dest_wf :: "pingpong_dest \<Rightarrow> bool" where
  "dest_wf d \<longleftrightarrow> 0 \<le> lid d \<and> lid d < 2 ^ 16 \<and> 0 \<le> qpn d \<and> qpn d < 2 ^ 24 \<and> 0 \<le> psn d \<and> psn d < 2 ^ 24 \<and>
     length (gid d) = 16"

lemma ucast_up_down [simp]: "ucast (ucast (w :: u32) :: u64) = w"
  by transfer simp

lemma hex_digits_nonzero: "\<forall>c \<in> set ds. \<exists>d < 16. c = hex_char d \<Longrightarrow> 0 \<notin> set ds"
  using hex_char_plain(6) by fastforce

lemma length_sprintf_word: "length (sprintf_x 8 (unat (w :: u32))) = 8"
  using unsigned_less [of w] by (intro length_sprintf_x) simp_all

lemma wire_gid_explicit:
  "gid_to_wire_gid g = sprintf_x 8 (unat (htonl (gid_word g 0))) @ sprintf_x 8 (unat (htonl (gid_word g 1))) @
     sprintf_x 8 (unat (htonl (gid_word g 2))) @ sprintf_x 8 (unat (htonl (gid_word g 3)))"
  by (simp add: gid_to_wire_gid_def upt_rec numeral_eq_Suc)

lemma length_wire_gid [simp]: "length (gid_to_wire_gid g) = 32"
  by (simp add: wire_gid_explicit length_sprintf_word)

lemma wire_gid_hex: "\<forall>c \<in> set (gid_to_wire_gid g). \<exists>d < 16. c = hex_char d"
  using sprintf_x_hex by (auto simp: wire_gid_explicit)

lemma wire_gid_plain: "0 \<notin> set (gid_to_wire_gid g)" "\<forall>c \<in> set (gid_to_wire_gid g). \<not> is_space c"
  using hex_digits_nonzero [OF wire_gid_hex] wire_gid_hex [of g] hex_char_plain(1) by fastforce+

lemma wire_gid_loop_step:
  assumes "drop (i * 8) wgid = sprintf_x 8 (unat (htonl w)) @ rest"
  shows "wire_gid_loop wgid (Suc n) i v32 = bytes32 w @ wire_gid_loop wgid n (i + 1) (htonl w)"
proof -
  let ?t = "sprintf_x 8 (unat (htonl w))"
  have "take 8 (drop (i * 8) wgid) = ?t" using assms by (simp add: length_sprintf_word)
  moreover have "cstr (?t @ [0]) = Some ?t" using hex_digits_nonzero [OF sprintf_x_hex] by simp
  moreover have "unat (htonl w) < 2 ^ 32" using unsigned_less [of "htonl w"] by simp
  then have "scan_x ?t = Some (of_nat (unat (htonl w)), [])"
    using scan_x_sprintf_x [of "[]" "unat (htonl w)" 8] by simp
  ultimately show ?thesis by (simp add: Let_def)
qed

lemma gid_words: "length g = 16 \<Longrightarrow>
  bytes32 (gid_word g 0) @ bytes32 (gid_word g 1) @ bytes32 (gid_word g 2) @ bytes32 (gid_word g 3) = g"
proof -
  assume g: "length g = 16"
  have w: "bytes32 (gid_word g i) = take 4 (drop (i * 4) g)" if "i < 4" for i
    using g that by (simp add: gid_word_def bytes32_word32)
  have "g = take 4 g @ take 4 (drop 4 g) @ take 4 (drop 8 g) @ take 4 (drop 12 g)"
    using g append_take_drop_id [of 4 g] append_take_drop_id [of 4 "drop 4 g"]
      append_take_drop_id [of 4 "drop 8 g"] by simp
  with w show ?thesis by simp
qed

lemma next_word:
  "drop (i * 8) wgid = sprintf_x 8 (unat (w :: u32)) @ rest \<Longrightarrow> drop (Suc i * 8) wgid = rest"
  using drop_drop [of 8 "i * 8" wgid] by (simp add: length_sprintf_word)

lemma wire_gid_roundtrip:
  assumes "length g = 16" and "length wgid \<ge> 32" and "take 32 wgid = gid_to_wire_gid g"
  shows "wire_gid_to_gid v32 wgid = g"
proof -
  let ?s = "\<lambda>i. sprintf_x 8 (unat (htonl (gid_word g i)))"
  have "wgid = gid_to_wire_gid g @ drop 32 wgid"
    using append_take_drop_id [of 32 wgid] assms(3) by simp
  then have wgid: "wgid = ?s 0 @ ?s 1 @ ?s 2 @ ?s 3 @ drop 32 wgid" by (simp add: wire_gid_explicit)
  have d0: "drop (0 * 8) wgid = ?s 0 @ ?s 1 @ ?s 2 @ ?s 3 @ drop 32 wgid" using wgid by simp
  then have d1: "drop (Suc 0 * 8) wgid = ?s 1 @ ?s 2 @ ?s 3 @ drop 32 wgid" by (rule next_word)
  then have d2: "drop (Suc (Suc 0) * 8) wgid = ?s 2 @ ?s 3 @ drop 32 wgid" by (rule next_word)
  then have d3: "drop (Suc (Suc (Suc 0)) * 8) wgid = ?s 3 @ drop 32 wgid" by (rule next_word)
  have "wire_gid_to_gid v32 wgid =
    bytes32 (gid_word g 0) @ bytes32 (gid_word g 1) @ bytes32 (gid_word g 2) @ bytes32 (gid_word g 3)"
    using wire_gid_loop_step [OF d0, of 3 v32] wire_gid_loop_step [OF d1, of 2 "htonl (gid_word g 0)"]
      wire_gid_loop_step [OF d2, of 1 "htonl (gid_word g 1)"] wire_gid_loop_step [OF d3, of 0 "htonl (gid_word g 2)"]
    unfolding wire_gid_to_gid_def by (simp only: numeral_eq_Suc pred_numeral_simps BitM.simps) simp
  with gid_words [OF assms(1)] show ?thesis by simp
qed

lemma dest_number:
  fixes x :: int
  assumes "0 \<le> x" and "x < 2 ^ 31"
  shows "unat (of_int x :: u32) = nat x"
  using assms by (simp add: unat_eq_nat_uint uint_word_of_int_eq take_bit_int_eq_self)

lemma dest_scan_number:
  assumes "0 \<le> x" and "x < 2 ^ 31" and "stops_hex rest"
  shows "scan_x (sprintf_x w (unat (of_int x :: u32)) @ rest) = Some (of_int x, rest)"
  using assms scan_x_sprintf_x [of rest "nat x" w] by (simp only: dest_number) simp

lemma dest_field: "0 \<le> x \<Longrightarrow> x < 2 ^ 31 \<Longrightarrow> sint (ucast (of_int x :: u64) :: u32) = x"
proof -
  assume x: "0 \<le> x" "x < 2 ^ 31"
  have "(ucast (of_int x :: u64) :: u32) = of_int x" by transfer simp
  moreover have "sint (of_int x :: u32) = x" using x by transfer (simp add: signed_take_bit_int_eq_self)
  ultimately show ?thesis by simp
qed

lemma length_dest_text: "dest_wf d \<Longrightarrow> length (dest_text d) = 51"
proof -
  assume d: "dest_wf d"
  then have "nat (lid d) < 16 ^ 4" "nat (qpn d) < 16 ^ 6" "nat (psn d) < 16 ^ 6"
    by (simp_all add: dest_wf_def nat_less_iff)
  moreover have "unat (of_int (lid d) :: u32) = nat (lid d)" "unat (of_int (qpn d) :: u32) = nat (qpn d)"
    "unat (of_int (psn d) :: u32) = nat (psn d)"
    using d by (auto simp: dest_wf_def intro!: dest_number)
  ultimately show ?thesis by (simp add: dest_text_def length_sprintf_x)
qed

lemma print_dest_fits: "dest_wf d \<Longrightarrow> print_dest d = Some (dest_text d @ [0])"
  by (simp add: print_dest_def length_dest_text sizeof_dest_msg_def)

lemma dest_text_noNul: "0 \<notin> set (dest_text d)"
  using hex_digits_nonzero [OF sprintf_x_hex] wire_gid_plain(1) by (simp add: dest_text_def)

lemma scan_s_wire_gid: "scan_s (gid_to_wire_gid g) = Some (gid_to_wire_gid g, [])"
proof (rule scan_s_plain)
  show "gid_to_wire_gid g \<noteq> []" using length_wire_gid [of g] by (metis list.size(3) zero_neq_numeral)
qed (rule wire_gid_plain)

lemma scan_dest_print:
  assumes "dest_wf d" and "length gidbuf = 33"
  shows "scan_dest d0 gidbuf (dest_text d) =
    Some (d0\<lparr>lid := lid d, qpn := qpn d, psn := psn d\<rparr>, gid_to_wire_gid (gid d) @ [0])"
proof -
  have small: "0 \<le> lid d" "lid d < 2 ^ 31" "0 \<le> qpn d" "qpn d < 2 ^ 31" "0 \<le> psn d" "psn d < 2 ^ 31"
    using assms(1) by (simp_all add: dest_wf_def)
  have buf: "splice_at 0 (gid_to_wire_gid (gid d) @ [0]) gidbuf = gid_to_wire_gid (gid d) @ [0]"
    using assms(2) by (simp add: splice_at_def)
  show ?thesis
    unfolding scan_dest_def dest_text_def
    using small assms(2)
    by (simp add: dest_scan_number dest_field buf scan_s_wire_gid Let_def)
qed

lemma parse_print_dest:
  assumes "dest_wf d" and "length gidbuf = 33"
  shows "parse_dest v32 d0 gidbuf (dest_text d @ [0]) =
    Some (d0\<lparr>lid := lid d, qpn := qpn d, psn := psn d, gid := gid d\<rparr>)"
proof -
  have "wire_gid_to_gid v32 (gid_to_wire_gid (gid d) @ [0]) = gid d"
    by (rule wire_gid_roundtrip) (use assms(1) in \<open>simp_all add: dest_wf_def\<close>)
  with assms show ?thesis
    by (simp add: parse_dest_def dest_text_noNul scan_dest_print)
qed

end
