(* ===== verification/Connection.thy ===== *)
theory Connection
  imports Host Wire_Address "HOL-Library.Signed_Division"
begin

text \<open>
  Setting up and tearing down a connection in LowLatencyProtocols/ib_functions.c: creating
  the context and its queue pair, exchanging addresses over TCP, and moving the queue pair
  through its states. A function that returns a pointer gives \<open>None\<close> for \<open>NULL\<close>; the outer
  \<open>None\<close> is undefined behaviour, as everywhere.
\<close>

section \<open>Ports\<close>

definition pp_get_local_lid :: "('w, 'z) host_scheme \<Rightarrow> handle \<Rightarrow> int \<Rightarrow> 'w pstate \<Rightarrow> int \<times> 'w pstate" where
  "pp_get_local_lid V context p s =
     (let ((r, attr), s) = ibv_query_port V context p s in if r \<noteq> 0 then (0, s) else (port_lid attr, s))"

definition pp_get_port_info ::
  "('w, 'z) host_scheme \<Rightarrow> handle \<Rightarrow> int \<Rightarrow> 'w pstate \<Rightarrow> (int \<times> ibv_port_attr) \<times> 'w pstate" where
  "pp_get_port_info V context p s = ibv_query_port V context p s"

section \<open>Connecting the queue pair\<close>

text \<open>The attributes for \<open>RTR\<close>; a gid with an interface id makes the address global.\<close>

definition connect_attr :: "int \<Rightarrow> int \<Rightarrow> int \<Rightarrow> pingpong_dest \<Rightarrow> int \<Rightarrow> ibv_qp_attr" where
  "connect_attr p path service_level dest sgid_idx =
     (let ah = ah_attr_0\<lparr>is_global := 0, dlid := of_int (lid dest), ah_sl := of_int service_level,
                         src_path_bits := 0, ah_port_num := of_int p\<rparr>;
          ah = (if drop 8 (gid dest) \<noteq> replicate 8 0
                then ah\<lparr>is_global := 1, hop_limit := 1, dgid := gid dest, sgid_index := of_int sgid_idx\<rparr>
                else ah)
      in qp_attr_0\<lparr>qp_state := IBV_QPS_RTR, path_mtu := path, dest_qp_num := of_int (qpn dest),
                   rq_psn := of_int (psn dest), max_dest_rd_atomic := 1, min_rnr_timer := 12, ah_attr := ah\<rparr>)"

definition pp_connect_ctx ::
  "('w, 'z) host_scheme \<Rightarrow> pingpong_context \<Rightarrow> int \<Rightarrow> int \<Rightarrow> int \<Rightarrow> int \<Rightarrow> pingpong_dest \<Rightarrow> int \<Rightarrow> 'w pstate \<Rightarrow>
   int \<times> 'w pstate" where
  "pp_connect_ctx V ctx p my_psn path service_level dest sgid_idx s =
     (let attr = connect_attr p path service_level dest sgid_idx;
          (r, s) = ibv_modify_qp V (qp ctx) attr
            [IBV_QP_STATE, IBV_QP_AV, IBV_QP_PATH_MTU, IBV_QP_DEST_QPN, IBV_QP_RQ_PSN,
             IBV_QP_MAX_DEST_RD_ATOMIC, IBV_QP_MIN_RNR_TIMER] s in
      if r \<noteq> 0 then (1, s) else
      let attr = attr\<lparr>qp_state := IBV_QPS_RTS, timeout := 14, retry_cnt := 7, rnr_retry := 7,
                      sq_psn := of_int my_psn, max_rd_atomic := 1\<rparr>;
          (r, s) = ibv_modify_qp V (qp ctx) attr
            [IBV_QP_STATE, IBV_QP_TIMEOUT, IBV_QP_RETRY_CNT, IBV_QP_RNR_RETRY, IBV_QP_SQ_PSN,
             IBV_QP_MAX_QP_RD_ATOMIC] s in
      if r \<noteq> 0 then (1, s) else (0, s))"

section \<open>Exchanging addresses\<close>

text \<open>
  The fields of a freshly allocated \<open>pingpong_dest\<close> are what its 32 bytes happen to hold, and
  likewise the local buffer \<open>gid[33]\<close> and the variable \<open>v32\<close> of \<open>wire_gid_to_gid\<close>: they are
  arguments (\<open>stack\<close>), so every statement holds whatever they contain.
\<close>

record stack =
  stack_gid :: "byte list"
  stack_v32 :: u32

definition sizeof_dest :: nat where "sizeof_dest = 32"

definition raw_dest :: "byte list \<Rightarrow> pingpong_dest" where
  "raw_dest bs = \<lparr>lid = sint (word32 (take 4 bs)), qpn = sint (word32 (take 4 (drop 4 bs))),
                  psn = sint (word32 (take 4 (drop 8 bs))), gid = take 16 (drop 16 bs)\<rparr>"

definition done_msg :: "byte list" where "done_msg = [100, 111, 110, 101, 0]"

definition pp_client_exch_dest ::
  "('w, 'z) host_scheme \<Rightarrow> stack \<Rightarrow> byte list \<Rightarrow> int \<Rightarrow> pingpong_dest \<Rightarrow> 'w pstate \<Rightarrow>
   (pingpong_dest option \<times> 'w pstate) option" where
  "pp_client_exch_dest V st servername p local s =
     do { (sockfd, s) \<leftarrow> open_socket V (Some servername) p s;
          if sockfd < 0 then Some (None, s)
          else do {
            msg \<leftarrow> print_dest local;
            let (n, s) = sock_write V sockfd msg s;
            if n \<noteq> int sizeof_dest_msg then Some (None, snd (sock_close V sockfd s))
            else do {
              let ((n, msg), s) = sock_read V sockfd sizeof_dest_msg s;
              if n \<noteq> int sizeof_dest_msg then Some (None, snd (sock_close V sockfd s))
              else do {
                let (n, s) = sock_write V sockfd done_msg s;
                let (fresh, s) = malloc_struct sizeof_dest s;
                case fresh of
                  None \<Rightarrow> Some (None, snd (sock_close V sockfd s))
                | Some bs \<Rightarrow> do {
                    remote \<leftarrow> parse_dest (stack_v32 st) (raw_dest bs) (gid_to_wire_gid (gid local) @ [0]) msg;
                    Some (Some remote, snd (sock_close V sockfd s)) } } } } }"

fun accept_clients :: "('w, 'z) host_scheme \<Rightarrow> int \<Rightarrow> nat \<Rightarrow> int list \<Rightarrow> 'w pstate \<Rightarrow> (int \<times> int list) \<times> 'w pstate" where
  "accept_clients V sockfd 0 fds s = ((0, fds), s)"
| "accept_clients V sockfd (Suc n) fds s =
     (let (connfd, s) = sock_accept V sockfd s in
      if connfd < 0 then ((-1, fds), s) else accept_clients V sockfd n (fds @ [connfd]) s)"

text \<open>The sockets of the clients; a failed \<open>accept\<close> returns without closing the listening socket.\<close>

definition listen_to_websocket ::
  "('w, 'z) host_scheme \<Rightarrow> int \<Rightarrow> int \<Rightarrow> 'w pstate \<Rightarrow> ((int \<times> int list) \<times> 'w pstate) option" where
  "listen_to_websocket V p client_number s =
     do { (sockfd, s) \<leftarrow> open_socket V None p s;
          if sockfd < 0 then Some ((-1, []), s)
          else do {
            let (r, s) = sock_listen V sockfd client_number s;
            let ((r, fds), s) = accept_clients V sockfd (nat client_number) [] s;
            if r \<noteq> 0 then Some ((-1, fds), s)
            else Some ((0, fds), snd (sock_close V sockfd s)) } }"

definition pp_server_exch_dest ::
  "('w, 'z) host_scheme \<Rightarrow> stack \<Rightarrow> pingpong_context \<Rightarrow> int \<Rightarrow> int \<Rightarrow> int \<Rightarrow> int \<Rightarrow> pingpong_dest \<Rightarrow> int \<Rightarrow> 'w pstate \<Rightarrow>
   (pingpong_dest option \<times> 'w pstate) option" where
  "pp_server_exch_dest V st ctx p path connfd service_level local sgid_idx s =
     do { let ((n, msg), s) = sock_read V connfd sizeof_dest_msg s;
          if n \<noteq> int sizeof_dest_msg then Some (None, snd (sock_close V connfd s))
          else do {
            let (fresh, s) = malloc_struct sizeof_dest s;
            case fresh of
              None \<Rightarrow> Some (None, snd (sock_close V connfd s))
            | Some bs \<Rightarrow> do {
                remote \<leftarrow> parse_dest (stack_v32 st) (raw_dest bs) (stack_gid st) msg;
                let (r, s) = pp_connect_ctx V ctx p (psn local) path service_level remote sgid_idx s;
                if r \<noteq> 0 then Some (None, snd (sock_close V connfd s))
                else do {
                  msg \<leftarrow> print_dest local;
                  let (n, s) = sock_write V connfd msg s;
                  if n \<noteq> int sizeof_dest_msg then Some (None, snd (sock_close V connfd s))
                  else do {
                    let (r, s) = sock_read V connfd sizeof_dest_msg s;
                    Some (Some remote, snd (sock_close V connfd s)) } } } } }"

section \<open>Creating and closing a context\<close>

text \<open>The macro of \<open>sys/param.h\<close>; division by zero is undefined.\<close>

definition roundup :: "int \<Rightarrow> int \<Rightarrow> int option" where
  "roundup x y = (if y = 0 then None else Some ((x + (y - 1)) sdiv y * y))"

definition init_attr :: "int \<Rightarrow> ibv_qp_attr" where
  "init_attr p = qp_attr_0\<lparr>qp_state := IBV_QPS_INIT, pkey_index := 0, port_num := of_int p,
                           qp_access_flags := [IBV_ACCESS_REMOTE_READ, IBV_ACCESS_REMOTE_WRITE]\<rparr>"

text \<open>
  The send buffer is the first half of one block, the receive buffer follows it. Whatever was
  created before a failure is not released.
\<close>

definition pp_init_ctx ::
  "('w, 'z) host_scheme \<Rightarrow> handle \<Rightarrow> int \<Rightarrow> int \<Rightarrow> int \<Rightarrow> int \<Rightarrow> int \<Rightarrow> int \<Rightarrow> 'w pstate \<Rightarrow>
   (pingpong_context option \<times> 'w pstate) option" where
  "pp_init_ctx V dev control_size rx tx p event is_server s =
     (let (fresh, s) = malloc_struct 0 s in
      if fresh = None then Some (None, s) else
      let (cx, s) = ibv_open_device V dev s in
      if cx = 0 then Some (None, s) else
      let (ch, s) = (if event \<noteq> 0 then ibv_create_comp_channel V cx s else (0, s)) in
      if event \<noteq> 0 \<and> ch = 0 then Some (None, s) else
      let (dom, s) = ibv_alloc_pd V cx s in
      if dom = 0 then Some (None, s) else
      do { buffer_size \<leftarrow> roundup (control_size + control_size) (page_size s);
           let (buffer, m) = c_malloc (unat (of_int buffer_size :: size_t)) (pmem s);
           if buffer = NULL then Some (None, s\<lparr>pmem := m\<rparr>)
           else do {
             m \<leftarrow> c_memset buffer (of_int (123 + is_server)) (unat (of_int buffer_size :: size_t)) m;
             let s = s\<lparr>pmem := m\<rparr>;
             let (mr_send, s) = ibv_reg_mr V dom buffer (of_int control_size) [IBV_ACCESS_LOCAL_WRITE] s;
             if mr_send = None then Some (None, s) else
             let buffer2 = padd buffer (nat control_size);
                 (mr_recv, s) = ibv_reg_mr V dom buffer2 (of_int control_size) [IBV_ACCESS_LOCAL_WRITE] s in
             if mr_recv = None then Some (None, s) else
             let (scq, s) = ibv_create_cq V cx (tx + 1) ch s in
             if scq = 0 then Some (None, s) else
             let (rcq, s) = ibv_create_cq V cx (rx + 1) ch s in
             if rcq = 0 then Some (None, s) else
             let (q, s) = ibv_create_qp V dom
                   \<lparr>init_send_cq = scq, init_recv_cq = rcq, max_send_wr = tx, max_recv_wr = rx,
                    max_send_sge = 1, max_recv_sge = 1\<rparr> s in
             if q = 0 then Some (None, s) else
             let (r, s) = ibv_modify_qp V q (init_attr p)
                   [IBV_QP_STATE, IBV_QP_PKEY_INDEX, IBV_QP_PORT, IBV_QP_ACCESS_FLAGS] s in
             if r \<noteq> 0 then Some (None, s) else
             let ((r, limit), s) = ibv_query_max_inline V q s in
             if r \<noteq> 0 then Some (None, s) else
             Some (Some \<lparr>dev_context = cx, channel = ch, pd = dom, send_cq = scq, receive_cq = rcq,
                         portinfo = \<lparr>port_lid = 0, link_layer = IBV_LINK_LAYER_OTHER\<rparr>, qp = q,
                         mr_control_send = mr_send, mr_control_send_start_ptr = buffer,
                         mr_control_send_size = control_size,
                         mr_control_receive = mr_recv, mr_control_receive_start_ptr = buffer2,
                         mr_control_receive_size = control_size, rx_depth = rx, routs = 0,
                         mr_rdma = None, mr_rdma_start_ptr = NULL, mr_rdma_size = 0,
                         remote_buf_va = 0, remote_buf_rkey = 0\<rparr>, s\<lparr>max_inline := limit\<rparr>) } })"

definition pp_close_ctx :: "('w, 'z) host_scheme \<Rightarrow> pingpong_context \<Rightarrow> 'w pstate \<Rightarrow> (int \<times> 'w pstate) option" where
  "pp_close_ctx V ctx s =
     (let (r, s) = ibv_destroy_qp V (qp ctx) s in
      if r \<noteq> 0 then Some (1, s) else
      let (r, s) = ibv_destroy_cq V (send_cq ctx) s in
      if r \<noteq> 0 then Some (1, s) else
      let (r, s) = ibv_destroy_cq V (receive_cq ctx) s in
      if r \<noteq> 0 then Some (1, s) else
      do { mr_send \<leftarrow> mr_control_send ctx;
           let (r, s) = ibv_dereg_mr V mr_send s;
           if r \<noteq> 0 then Some (1, s)
           else do {
             mr_recv \<leftarrow> mr_control_receive ctx;
             let (r, s) = ibv_dereg_mr V mr_recv s;
             if r \<noteq> 0 then Some (1, s)
             else do {
               s \<leftarrow> free_block (mr_control_send_start_ptr ctx) s;
               let (r, s) = ibv_dealloc_pd V (pd ctx) s;
               if r \<noteq> 0 then Some (1, s) else
               let (r, s) = (if channel ctx \<noteq> 0 then ibv_destroy_comp_channel V (channel ctx) s else (0, s)) in
               if r \<noteq> 0 then Some (1, s) else
               let (r, s) = ibv_close_device V (dev_context ctx) s in
               if r \<noteq> 0 then Some (1, s) else Some (0, s) } } })"

end
