(* ===== verification/KV_Open.thy ===== *)
theory KV_Open
  imports Connection KV_Client
begin

text \<open>
  \<open>kv_open\<close> and \<open>kv_close\<close> of LowLatencyProtocols/kv_api.c. The handle is fresh memory: its
  other fields are those of the argument \<open>h\<close>. Printing (\<open>inet_ntop\<close> included) and seeding the
  random numbers have no effect on the model. The two arrays the handle points to grow as
  their elements are assigned.
\<close>

section \<open>Opening\<close>

text \<open>\<open>*dev_list\<close>, or the device with the given name: 0 is \<open>NULL\<close>, the end of the list.\<close>

fun find_device :: "('w, 'z) host_scheme \<Rightarrow> byte list \<Rightarrow> handle list \<Rightarrow> handle" where
  "find_device V name [] = 0"
| "find_device V name (d # ds) = (if ibv_get_device_name V d = name then d else find_device V name ds)"

definition choose_device :: "('w, 'z) host_scheme \<Rightarrow> byte list option \<Rightarrow> handle list \<Rightarrow> handle" where
  "choose_device V name devices =
     (case name of None \<Rightarrow> (case devices of [] \<Rightarrow> 0 | d # _ \<Rightarrow> d) | Some n \<Rightarrow> find_device V n devices)"

text \<open>The address of this end of the connection: port, queue pair, random sequence number.\<close>

definition local_dest ::
  "('w, 'z) host_scheme \<Rightarrow> KVHandle \<Rightarrow> pingpong_context \<Rightarrow> 'w pstate \<Rightarrow>
   (pingpong_dest option \<times> pingpong_context \<times> 'w pstate)" where
  "local_dest V h ctx s =
     (let ((r, attr), s) = pp_get_port_info V (dev_context ctx) (ib_port h) s in
      if r \<noteq> 0 then (None, ctx, s) else
      let ctx = ctx\<lparr>portinfo := attr\<rparr> in
      if link_layer attr = IBV_LINK_LAYER_INFINIBAND \<and> port_lid attr = 0 then (None, ctx, s) else
      let ((r, g), s) = (if gidx h \<ge> 0 then ibv_query_gid V (dev_context ctx) (ib_port h) (gidx h) s
                         else ((0, replicate 16 0), s)) in
      if r \<noteq> 0 then (None, ctx, s) else
      let n = sint (qp_num V (qp ctx) s); (rnd, s) = lrand48 V s in
      (Some \<lparr>lid = port_lid attr, qpn = n, psn = int (take_bit 24 rnd), gid = g\<rparr>, ctx, s))"

text \<open>
  The body of the loop over the remote hosts. A client that got no address goes on to use the
  null pointer.
\<close>

definition open_host ::
  "('w, 'z) host_scheme \<Rightarrow> stack \<Rightarrow> byte list option \<Rightarrow> int list \<Rightarrow> nat \<Rightarrow> KVHandle \<Rightarrow> 'w pstate \<Rightarrow>
   (int \<times> KVHandle \<times> 'w pstate) option" where
  "open_host V st servername fds i h s =
     do { (new, s) \<leftarrow> pp_init_ctx V (ib_dev h) (mr_control_size h) (handle_rx_depth h) (handle_tx_depth h)
            (ib_port h) (use_event h) (if servername = None then 1 else 0) s;
          case new of
            None \<Rightarrow> Some (1, h, s)
          | Some ctx \<Rightarrow> do {
              let h = h\<lparr>array_ctx_ptr := array_ctx_ptr h @ [ctx], ctx_index := i\<rparr>;
              (r, ctx, s) \<leftarrow> pp_post_recv V ctx s;
              if r \<noteq> 0 then Some (1, set_handle_ctx ctx h, s)
              else do {
                let ctx = ctx\<lparr>routs := rx_depth ctx\<rparr>;
                let (r, s) = (if use_event h \<noteq> 0 then ibv_req_notify_cq V (send_cq ctx) 0 s else (0, s));
                if r \<noteq> 0 then Some (1, set_handle_ctx ctx h, s)
                else do {
                  let (r, s) = (if use_event h \<noteq> 0 then ibv_req_notify_cq V (receive_cq ctx) 0 s else (0, s));
                  if r \<noteq> 0 then Some (1, set_handle_ctx ctx h, s)
                  else do {
                    let (local, ctx, s) = local_dest V h ctx s;
                    let h = set_handle_ctx ctx h;
                    case local of
                      None \<Rightarrow> Some (1, h, s)
                    | Some local \<Rightarrow> do {
                        let h = h\<lparr>my_dest := local\<rparr>;
                        case servername of
                          Some name \<Rightarrow> do {
                            (remote, s) \<leftarrow> pp_client_exch_dest V st name (port h) local s;
                            let h = h\<lparr>array_remote_dest := array_remote_dest h @ [remote], rem_dest := remote\<rparr>;
                            dest \<leftarrow> remote;
                            let (r, s) = pp_connect_ctx V ctx (ib_port h) (psn local) (mtu h) (sl h) dest (gidx h) s;
                            if r \<noteq> 0 then Some (1, h, s) else Some (0, h, s) }
                        | None \<Rightarrow> do {
                            fd \<leftarrow> (if i < length fds then Some (fds ! i) else None);
                            (remote, s) \<leftarrow> pp_server_exch_dest V st ctx (ib_port h) (mtu h) fd (sl h) local (gidx h) s;
                            let h = h\<lparr>array_remote_dest := array_remote_dest h @ [remote], rem_dest := remote\<rparr>;
                            if remote = None then Some (1, h, s) else Some (0, h, s) } } } } } } }"

fun open_hosts ::
  "('w, 'z) host_scheme \<Rightarrow> (nat \<Rightarrow> stack) \<Rightarrow> byte list option \<Rightarrow> int list \<Rightarrow> nat \<Rightarrow> nat \<Rightarrow> KVHandle \<Rightarrow> 'w pstate \<Rightarrow>
   (int \<times> KVHandle \<times> 'w pstate) option" where
  "open_hosts V st servername fds 0 i h s = Some (0, h, s)"
| "open_hosts V st servername fds (Suc n) i h s =
     do { (r, h, s) \<leftarrow> open_host V (st i) servername fds i h s;
          if r \<noteq> 0 then Some (1, h, s) else open_hosts V st servername fds n (Suc i) h s }"

text \<open>The first part of \<open>kv_open\<close>: the fixed parameters.\<close>

definition init_handle :: "KVHandle \<Rightarrow> KVHandle" where
  "init_handle h =
     h\<lparr>ib_devname := None, port := 12345, ib_port := 1, mtu := pp_mtu_to_enum MTU,
       handle_rx_depth := RX_DEPTH, handle_tx_depth := TX_DEPTH, use_event := 0,
       mr_control_size := int sizeof_ControlMessage, sl := 0, gidx := -1\<rparr>"

definition kv_open ::
  "('w, 'z) host_scheme \<Rightarrow> (nat \<Rightarrow> stack) \<Rightarrow> KVHandle \<Rightarrow> byte list option \<Rightarrow> 'w pstate \<Rightarrow>
   (int \<times> KVHandle \<times> 'w pstate) option" where
  "kv_open V st h servername s =
     do { let (fresh, s) = malloc_struct 0 s;
          _ \<leftarrow> fresh;
          let h = init_handle h;
          let s = s\<lparr>page_size := sysconf_pagesize V\<rparr>;
          let (devices, s) = ibv_get_device_list V s;
          case devices of
            None \<Rightarrow> Some (1, h, s)
          | Some devices \<Rightarrow> do {
              let h = h\<lparr>dev_list := devices, ib_dev := choose_device V (ib_devname h) devices\<rparr>;
              if ib_dev h = 0 then Some (1, h, s)
              else do {
                let hosts = (if servername = None then NUM_CLIENTS else 1);
                let h = h\<lparr>num_remote_host := hosts, array_ctx_ptr := [], array_remote_dest := []\<rparr>;
                ((r, fds), s) \<leftarrow>
                  (if servername = None then listen_to_websocket V (port h) hosts s else Some ((0, []), s));
                if r \<noteq> 0 then Some (1, h, s)
                else open_hosts V st servername fds (nat hosts) 0 h s } } }"

section \<open>Closing\<close>

text \<open>The loop over the contexts; what \<open>pp_close_ctx\<close> returns is not looked at.\<close>

fun close_contexts ::
  "('w, 'z) host_scheme \<Rightarrow> nat \<Rightarrow> nat \<Rightarrow> KVHandle \<Rightarrow> 'w pstate \<Rightarrow> (KVHandle \<times> 'w pstate) option" where
  "close_contexts V 0 i h s = Some (h, s)"
| "close_contexts V (Suc n) i h s =
     do { let h = h\<lparr>ctx_index := i\<rparr>;
          ctx \<leftarrow> handle_ctx h;
          (r, s) \<leftarrow> pp_close_ctx V ctx s;
          close_contexts V n (Suc i) h s }"

definition kv_close :: "('w, 'z) host_scheme \<Rightarrow> KVHandle \<Rightarrow> 'w pstate \<Rightarrow> (int \<times> 'w pstate) option" where
  "kv_close V h s =
     do { (h, s) \<leftarrow> close_contexts V (nat (num_remote_host h)) 0 h s;
          Some (0, ibv_free_device_list V s) }"

end
