(* ===== verification/Connection_Correct.thy ===== *)
theory Connection_Correct
  imports Connection
begin

text \<open>
  What connection set-up achieves on an adapter that performs the legal transitions of a queue
  pair and over sockets that deliver whole messages: the queue pair ends up ready to send,
  connected to the peer's, and the two ends agree on their packet sequence numbers.
\<close>

section \<open>Connecting\<close>

text \<open>A queue pair that is ready to send to \<open>dest\<close> with its own sequence number \<open>my_psn\<close>.\<close>

definition connected :: "ibv_qp_attr \<Rightarrow> int \<Rightarrow> pingpong_dest \<Rightarrow> bool" where
  "connected c my_psn dest \<longleftrightarrow> qp_state c = IBV_QPS_RTS \<and> dest_qp_num c = of_int (qpn dest) \<and>
     rq_psn c = of_int (psn dest) \<and> sq_psn c = of_int my_psn \<and> dlid (ah_attr c) = of_int (lid dest) \<and>
     (is_global (ah_attr c) = 1 \<longrightarrow> dgid (ah_attr c) = gid dest)"

lemma connect_attr_simps:
  "qp_state (connect_attr p path service_level dest idx) = IBV_QPS_RTR"
  "dest_qp_num (connect_attr p path service_level dest idx) = of_int (qpn dest)"
  "rq_psn (connect_attr p path service_level dest idx) = of_int (psn dest)"
  "dlid (ah_attr (connect_attr p path service_level dest idx)) = of_int (lid dest)"
  "is_global (ah_attr (connect_attr p path service_level dest idx)) = 1 \<longrightarrow>
    dgid (ah_attr (connect_attr p path service_level dest idx)) = gid dest"
  by (simp_all add: connect_attr_def qp_attr_0_def ah_attr_0_def Let_def)

lemma connect_reaches_rts:
  assumes "modifies_qp V Q" and "Q (world s) (qp ctx) = Some cur" and "qp_state cur = IBV_QPS_INIT"
  shows "\<exists>s' c. pp_connect_ctx V ctx p my_psn path service_level dest idx s = (0, s') \<and> quiet s s' \<and>
    Q (world s') = (Q (world s))(qp ctx \<mapsto> c) \<and> connected c my_psn dest"
proof -
  let ?a = "connect_attr p path service_level dest idx"
  let ?m1 = "[IBV_QP_STATE, IBV_QP_AV, IBV_QP_PATH_MTU, IBV_QP_DEST_QPN, IBV_QP_RQ_PSN,
             IBV_QP_MAX_DEST_RD_ATOMIC, IBV_QP_MIN_RNR_TIMER]"
  let ?b = "?a\<lparr>qp_state := IBV_QPS_RTS, timeout := 14, retry_cnt := 7, rnr_retry := 7,
               sq_psn := of_int my_psn, max_rd_atomic := 1\<rparr>"
  let ?m2 = "[IBV_QP_STATE, IBV_QP_TIMEOUT, IBV_QP_RETRY_CNT, IBV_QP_RNR_RETRY, IBV_QP_SQ_PSN,
             IBV_QP_MAX_QP_RD_ATOMIC]"
  have "qp_step cur ?a (set ?m1) (qp_to_rtr cur ?a)"
    using assms(3) by (simp add: qp_step_simps connect_attr_simps)
  from modifies_qpD [OF assms(1,2) this] obtain s1 where
    s1: "ibv_modify_qp V (qp ctx) ?a ?m1 s = (0, s1)" "quiet s s1"
      "Q (world s1) = (Q (world s))(qp ctx \<mapsto> qp_to_rtr cur ?a)" .
  have "qp_step (qp_to_rtr cur ?a) ?b (set ?m2) (qp_to_rts (qp_to_rtr cur ?a) ?b)"
    by (simp add: qp_step_simps qp_to_rtr_def)
  from modifies_qpD [OF assms(1) _ this] s1(3) obtain s2 where
    s2: "ibv_modify_qp V (qp ctx) ?b ?m2 s1 = (0, s2)" "quiet s1 s2"
      "Q (world s2) = (Q (world s))(qp ctx \<mapsto> qp_to_rts (qp_to_rtr cur ?a) ?b)"
    by (metis fun_upd_same fun_upd_upd)
  have "connected (qp_to_rts (qp_to_rtr cur ?a) ?b) my_psn dest"
    by (simp add: connected_def qp_to_rts_def qp_to_rtr_def connect_attr_simps)
  with s1 s2 quiet_trans show ?thesis by (auto simp: pp_connect_ctx_def Let_def)
qed

text \<open>In any other state the queue pair is left alone and the function fails.\<close>

lemma connect_needs_init:
  assumes "modifies_qp V Q" and "Q (world s) (qp ctx) = Some cur" and "qp_state cur \<noteq> IBV_QPS_INIT"
  shows "\<exists>s'. pp_connect_ctx V ctx p my_psn path service_level dest idx s = (1, s') \<and>
    Q (world s') = Q (world s)"
proof -
  let ?a = "connect_attr p path service_level dest idx"
  have "\<not> qp_step cur ?a ms new" for ms new
    using assms(3) by (simp add: qp_step_simps connect_attr_simps)
  with assms(1,2) obtain r s' where
    "ibv_modify_qp V (qp ctx) ?a [IBV_QP_STATE, IBV_QP_AV, IBV_QP_PATH_MTU, IBV_QP_DEST_QPN, IBV_QP_RQ_PSN,
             IBV_QP_MAX_DEST_RD_ATOMIC, IBV_QP_MIN_RNR_TIMER] s = (r, s')" "r \<noteq> 0" "Q (world s') = Q (world s)"
    unfolding modifies_qp_def by metis
  then show ?thesis by (simp add: pp_connect_ctx_def Let_def)
qed

section \<open>Sockets that deliver whole messages\<close>

record 'w tcp_view =
  tcp_in :: "'w \<Rightarrow> int \<Rightarrow> byte list"
  tcp_out :: "'w \<Rightarrow> int \<Rightarrow> byte list"

text \<open>
  A write is accepted whole, a read gives what has arrived, up to the size asked for; neither
  they nor \<open>close\<close> change queue pairs or the program's memory.
\<close>

definition tcp_delivers ::
  "('w, 'z) host_scheme \<Rightarrow> 'w tcp_view \<Rightarrow> ('w \<Rightarrow> handle \<Rightarrow> ibv_qp_attr option) \<Rightarrow> bool" where
  "tcp_delivers V T Q \<longleftrightarrow>
     (\<forall>fd n s. \<exists>s'. sock_read V fd n s =
          ((int (length (take n (tcp_in T (world s) fd))), take n (tcp_in T (world s) fd)), s') \<and> quiet s s' \<and>
        tcp_in T (world s') = (tcp_in T (world s))(fd := drop n (tcp_in T (world s) fd)) \<and>
        tcp_out T (world s') = tcp_out T (world s) \<and> Q (world s') = Q (world s)) \<and>
     (\<forall>fd bs s. \<exists>s'. sock_write V fd bs s = (int (length bs), s') \<and> quiet s s' \<and>
        tcp_out T (world s') = (tcp_out T (world s))(fd := tcp_out T (world s) fd @ bs) \<and>
        tcp_in T (world s') = tcp_in T (world s) \<and> Q (world s') = Q (world s)) \<and>
     (\<forall>fd s. \<exists>r s'. sock_close V fd s = (r, s') \<and> quiet s s' \<and>
        tcp_out T (world s') = tcp_out T (world s) \<and> Q (world s') = Q (world s)) \<and>
     (\<forall>q a ms s r s'. ibv_modify_qp V q a ms s = (r, s') \<longrightarrow>
        tcp_in T (world s') = tcp_in T (world s) \<and> tcp_out T (world s') = tcp_out T (world s))"

lemma tcp_readE:
  assumes "tcp_delivers V T Q"
  obtains s' where "sock_read V fd n s =
      ((int (length (take n (tcp_in T (world s) fd))), take n (tcp_in T (world s) fd)), s')"
    "quiet s s'" "tcp_in T (world s') = (tcp_in T (world s))(fd := drop n (tcp_in T (world s) fd))"
    "tcp_out T (world s') = tcp_out T (world s)" "Q (world s') = Q (world s)"
  using assms unfolding tcp_delivers_def by blast

lemma tcp_writeE:
  assumes "tcp_delivers V T Q"
  obtains s' where "sock_write V fd bs s = (int (length bs), s')" "quiet s s'"
    "tcp_out T (world s') = (tcp_out T (world s))(fd := tcp_out T (world s) fd @ bs)"
    "tcp_in T (world s') = tcp_in T (world s)" "Q (world s') = Q (world s)"
  using assms unfolding tcp_delivers_def by blast

lemma tcp_closeE:
  assumes "tcp_delivers V T Q"
  obtains r s' where "sock_close V fd s = (r, s')" "quiet s s'"
    "tcp_out T (world s') = tcp_out T (world s)" "Q (world s') = Q (world s)"
  using assms unfolding tcp_delivers_def by blast

lemma connect_keeps_tcp:
  "tcp_delivers V T Q \<Longrightarrow> pp_connect_ctx V ctx p my_psn path service_level dest idx s = (r, s') \<Longrightarrow>
   tcp_in T (world s') = tcp_in T (world s) \<and> tcp_out T (world s') = tcp_out T (world s)"
  by (auto simp: pp_connect_ctx_def Let_def tcp_delivers_def split: prod.splits if_splits)

lemma malloc_struct_avail:
  assumes "mem_avail (pmem s)"
  shows "\<exists>bs. malloc_struct n s = (Some bs, s\<lparr>pmem := snd (c_malloc n (pmem s))\<rparr>)"
  using assms by (simp add: malloc_struct_def c_malloc_avail bytes_from_def)

lemma parse_sent:
  assumes "dest_wf d" and "length gidbuf = 33"
  shows "parse_dest v32 d0 gidbuf (dest_text d @ [0]) = Some d"
  using parse_print_dest [OF assms, of v32 d0] by simp

lemma length_sent: "dest_wf d \<Longrightarrow> length (dest_text d @ [0]) = sizeof_dest_msg"
  by (simp add: length_dest_text sizeof_dest_msg_def)

section \<open>The exchange\<close>

lemma server_exchange:
  assumes "tcp_delivers V T Q" and "modifies_qp V Q"
    and "Q (world s) (qp ctx) = Some cur" and "qp_state cur = IBV_QPS_INIT"
    and "dest_wf local" and "dest_wf remote" and "length (stack_gid st) = 33" and "mem_avail (pmem s)"
    and "tcp_in T (world s) fd = dest_text remote @ [0] @ rest"
  shows "\<exists>s' c. pp_server_exch_dest V st ctx p path fd service_level local idx s = Some (Some remote, s') \<and>
    tcp_out T (world s') fd = tcp_out T (world s) fd @ dest_text local @ [0] \<and>
    Q (world s') = (Q (world s))(qp ctx \<mapsto> c) \<and> connected c (psn local) remote \<and>
    pmem s' = snd (c_malloc sizeof_dest (pmem s))"
proof -
  let ?msg = "dest_text remote @ [0]"
  have take: "take sizeof_dest_msg (tcp_in T (world s) fd) = ?msg"
    using assms(9) length_sent [OF assms(6)] by (metis append.assoc append_eq_conv_conj)
  from tcp_readE [OF assms(1), of fd sizeof_dest_msg s] obtain s1 where
    r: "sock_read V fd sizeof_dest_msg s = ((int sizeof_dest_msg, ?msg), s1)" "quiet s s1"
      "tcp_out T (world s1) = tcp_out T (world s)" "Q (world s1) = Q (world s)"
    by (metis take length_sent [OF assms(6)])
  from r(2) assms(8) have avail: "mem_avail (pmem s1)" by (simp add: quietD)
  from malloc_struct_avail [OF avail, of sizeof_dest] obtain bs s2 where
    m: "malloc_struct sizeof_dest s1 = (Some bs, s2)" "pmem s2 = snd (c_malloc sizeof_dest (pmem s))"
      "world s2 = world s1" using r(2) by (auto simp: quietD)
  from m(3) r(4) assms(3) have "Q (world s2) (qp ctx) = Some cur" by simp
  from connect_reaches_rts [OF assms(2) this assms(4)] obtain s3 c where
    c: "pp_connect_ctx V ctx p (psn local) path service_level remote idx s2 = (0, s3)" "quiet s2 s3"
      "Q (world s3) = (Q (world s2))(qp ctx \<mapsto> c)" "connected c (psn local) remote" by metis
  from tcp_writeE [OF assms(1), of fd "dest_text local @ [0]" s3] obtain s4 where
    w: "sock_write V fd (dest_text local @ [0]) s3 = (int sizeof_dest_msg, s4)" "quiet s3 s4"
      "tcp_out T (world s4) fd = tcp_out T (world s3) fd @ dest_text local @ [0]" "Q (world s4) = Q (world s3)"
    by (metis fun_upd_same length_sent [OF assms(5)])
  from tcp_readE [OF assms(1), of fd sizeof_dest_msg s4] obtain x s5 where
    r2: "sock_read V fd sizeof_dest_msg s4 = (x, s5)" "quiet s4 s5"
      "tcp_out T (world s5) = tcp_out T (world s4)" "Q (world s5) = Q (world s4)" by metis
  from tcp_closeE [OF assms(1), of fd s5] obtain x6 s6 where
    cl: "sock_close V fd s5 = (x6, s6)" "quiet s5 s6" "tcp_out T (world s6) = tcp_out T (world s5)"
      "Q (world s6) = Q (world s5)" by metis
  have "pp_server_exch_dest V st ctx p path fd service_level local idx s = Some (Some remote, s6)"
    using r(1) m(1) c(1) w(1) r2(1) cl(1) parse_sent [OF assms(6,7)] print_dest_fits [OF assms(5)]
    by (simp add: pp_server_exch_dest_def)
  moreover have "pmem s6 = pmem s2" using c(2) w(2) r2(2) cl(2) by (simp add: quietD)
  ultimately show ?thesis
    using r m c w r2 cl connect_keeps_tcp [OF assms(1) c(1)] by auto
qed

lemma client_exchange:
  assumes "tcp_delivers V T Q" and "open_socket V (Some name) p s = Some (fd, s1)" and "0 \<le> fd"
    and "dest_wf local" and "dest_wf remote" and "mem_avail (pmem s1)"
    and "tcp_in T (world s1) fd = dest_text remote @ [0] @ rest"
  shows "\<exists>s'. pp_client_exch_dest V st name p local s = Some (Some remote, s') \<and>
    tcp_out T (world s') fd = tcp_out T (world s1) fd @ dest_text local @ [0] @ done_msg \<and>
    Q (world s') = Q (world s1) \<and> pmem s' = snd (c_malloc sizeof_dest (pmem s1))"
proof -
  let ?msg = "dest_text remote @ [0]" and ?out = "dest_text local @ [0]"
  from tcp_writeE [OF assms(1), of fd ?out s1] obtain s2 where
    w: "sock_write V fd ?out s1 = (int sizeof_dest_msg, s2)" "quiet s1 s2"
      "tcp_out T (world s2) fd = tcp_out T (world s1) fd @ ?out" "tcp_in T (world s2) = tcp_in T (world s1)"
      "Q (world s2) = Q (world s1)"
    by (metis fun_upd_same length_sent [OF assms(4)])
  have take: "take sizeof_dest_msg (tcp_in T (world s2) fd) = ?msg"
    using assms(7) w(4) length_sent [OF assms(5)] by (metis append.assoc append_eq_conv_conj)
  from tcp_readE [OF assms(1), of fd sizeof_dest_msg s2] obtain s3 where
    r: "sock_read V fd sizeof_dest_msg s2 = ((int sizeof_dest_msg, ?msg), s3)" "quiet s2 s3"
      "tcp_out T (world s3) = tcp_out T (world s2)" "Q (world s3) = Q (world s2)"
    by (metis take length_sent [OF assms(5)])
  from tcp_writeE [OF assms(1), of fd done_msg s3] obtain x4 s4 where
    d: "sock_write V fd done_msg s3 = (x4, s4)" "quiet s3 s4"
      "tcp_out T (world s4) fd = tcp_out T (world s3) fd @ done_msg" "Q (world s4) = Q (world s3)"
    by (metis fun_upd_same)
  have mem4: "pmem s4 = pmem s1" using w(2) r(2) d(2) by (simp add: quietD)
  with assms(6) malloc_struct_avail [of s4 sizeof_dest] obtain bs s5 where
    m: "malloc_struct sizeof_dest s4 = (Some bs, s5)" "pmem s5 = snd (c_malloc sizeof_dest (pmem s1))"
      "world s5 = world s4" by auto
  from tcp_closeE [OF assms(1), of fd s5] obtain x6 s6 where
    cl: "sock_close V fd s5 = (x6, s6)" "quiet s5 s6" "tcp_out T (world s6) = tcp_out T (world s5)"
      "Q (world s6) = Q (world s5)" by metis
  have "length (gid_to_wire_gid (gid local) @ [0]) = 33" by simp
  from parse_sent [OF assms(5) this] have
    "pp_client_exch_dest V st name p local s = Some (Some remote, s6)"
    using assms(2,3) w(1) r(1) d(1) m(1) cl(1) print_dest_fits [OF assms(4)]
    by (simp add: pp_client_exch_dest_def)
  with w r d m cl show ?thesis by (auto simp: quietD)
qed

section \<open>Creating a context\<close>

text \<open>
  Documented: a set-up call that succeeds gives an object that is not \<open>NULL\<close>, touches no memory
  of the program and registers nothing; a new queue pair is in the reset state; a region of live
  memory can be registered, and it is the region asked for.
\<close>

definition host_call :: "'w nic_view \<Rightarrow> 'w pstate \<Rightarrow> 'w pstate \<Rightarrow> bool" where
  "host_call W s s' \<longleftrightarrow> quiet s s' \<and> nic_mrs W (world s') = nic_mrs W (world s)"

definition host_creates ::
  "('w, 'z) host_scheme \<Rightarrow> 'w nic_view \<Rightarrow> ('w \<Rightarrow> handle \<Rightarrow> ibv_qp_attr option) \<Rightarrow> bool" where
  "host_creates V W Q \<longleftrightarrow>
     (\<forall>d s. \<exists>h s'. ibv_open_device V d s = (h, s') \<and> h \<noteq> 0 \<and> host_call W s s') \<and>
     (\<forall>c s. \<exists>h s'. ibv_create_comp_channel V c s = (h, s') \<and> h \<noteq> 0 \<and> host_call W s s') \<and>
     (\<forall>c s. \<exists>h s'. ibv_alloc_pd V c s = (h, s') \<and> h \<noteq> 0 \<and> host_call W s s') \<and>
     (\<forall>c n ch s. \<exists>h s'. ibv_create_cq V c n ch s = (h, s') \<and> h \<noteq> 0 \<and> host_call W s s') \<and>
     (\<forall>d a s. \<exists>h s' c. ibv_create_qp V d a s = (h, s') \<and> h \<noteq> 0 \<and> host_call W s s' \<and>
        Q (world s') = (Q (world s))(h \<mapsto> c) \<and> qp_state c = IBV_QPS_RESET) \<and>
     (\<forall>q s. \<exists>limit s'. ibv_query_max_inline V q s = ((0, limit), s') \<and> host_call W s s' \<and>
        Q (world s') = Q (world s)) \<and>
     (\<forall>q a ms s r s'. ibv_modify_qp V q a ms s = (r, s') \<longrightarrow> nic_mrs W (world s') = nic_mrs W (world s)) \<and>
     (\<forall>d p n acc s bs. 0 < n \<and> bytes_from p (pmem s) = Some bs \<and> unat n \<le> length bs \<longrightarrow>
        (\<exists>mr s'. ibv_reg_mr V d p n acc s = (Some mr, s') \<and> mr_addr mr = p \<and> mr_length mr = n \<and> quiet s s' \<and>
           nic_mrs W (world s') = insert (mr, acc) (nic_mrs W (world s))))"

lemma host_callD: "host_call W s s' \<Longrightarrow> pmem s' = pmem s \<and> nic_mrs W (world s') = nic_mrs W (world s) \<and>
    page_size s' = page_size s"
  by (simp add: host_call_def quietD)

lemma host_createsE:
  assumes "host_creates V W Q"
  shows "\<exists>h s'. ibv_open_device V d s = (h, s') \<and> h \<noteq> 0 \<and> host_call W s s'"
    and "\<exists>h s'. ibv_create_comp_channel V c s = (h, s') \<and> h \<noteq> 0 \<and> host_call W s s'"
    and "\<exists>h s'. ibv_alloc_pd V c s = (h, s') \<and> h \<noteq> 0 \<and> host_call W s s'"
    and "\<exists>h s'. ibv_create_cq V c n ch s = (h, s') \<and> h \<noteq> 0 \<and> host_call W s s'"
    and "\<exists>h s' c. ibv_create_qp V d a s = (h, s') \<and> h \<noteq> 0 \<and> host_call W s s' \<and>
        Q (world s') = (Q (world s))(h \<mapsto> c) \<and> qp_state c = IBV_QPS_RESET"
    and "\<exists>limit s'. ibv_query_max_inline V q s = ((0, limit), s') \<and> host_call W s s' \<and>
        Q (world s') = Q (world s)"
    and "ibv_modify_qp V q at ms s = (r, s') \<Longrightarrow> nic_mrs W (world s') = nic_mrs W (world s)"
    and "0 < k \<Longrightarrow> bytes_from p (pmem s) = Some bs \<Longrightarrow> unat k \<le> length bs \<Longrightarrow>
        \<exists>mr s'. ibv_reg_mr V d p k acc s = (Some mr, s') \<and> mr_addr mr = p \<and> mr_length mr = k \<and> quiet s s' \<and>
           nic_mrs W (world s') = insert (mr, acc) (nic_mrs W (world s))"
proof -
  note A = assms [unfolded host_creates_def]
  from A show "\<exists>h s'. ibv_open_device V d s = (h, s') \<and> h \<noteq> 0 \<and> host_call W s s'" by (elim conjE allE)
  from A show "\<exists>h s'. ibv_create_comp_channel V c s = (h, s') \<and> h \<noteq> 0 \<and> host_call W s s'" by simp
  from A show "\<exists>h s'. ibv_alloc_pd V c s = (h, s') \<and> h \<noteq> 0 \<and> host_call W s s'" by simp
  from A show "\<exists>h s'. ibv_create_cq V c n ch s = (h, s') \<and> h \<noteq> 0 \<and> host_call W s s'" by simp
  from A show "\<exists>h s' c. ibv_create_qp V d a s = (h, s') \<and> h \<noteq> 0 \<and> host_call W s s' \<and>
        Q (world s') = (Q (world s))(h \<mapsto> c) \<and> qp_state c = IBV_QPS_RESET" by simp
  from A show "\<exists>limit s'. ibv_query_max_inline V q s = ((0, limit), s') \<and> host_call W s s' \<and>
        Q (world s') = Q (world s)" by simp
  from A show "ibv_modify_qp V q at ms s = (r, s') \<Longrightarrow> nic_mrs W (world s') = nic_mrs W (world s)" by simp
  from A show "0 < k \<Longrightarrow> bytes_from p (pmem s) = Some bs \<Longrightarrow> unat k \<le> length bs \<Longrightarrow>
        \<exists>mr s'. ibv_reg_mr V d p k acc s = (Some mr, s') \<and> mr_addr mr = p \<and> mr_length mr = k \<and> quiet s s' \<and>
           nic_mrs W (world s') = insert (mr, acc) (nic_mrs W (world s))" by simp
qed

text \<open>Rounding up to whole pages loses nothing and adds less than a page.\<close>

lemma roundup_bounds:
  assumes "0 \<le> x" and "0 < y"
  shows "\<exists>n. roundup x y = Some n \<and> x \<le> n \<and> n < x + y"
proof -
  let ?q = "(x + (y - 1)) div y"
  have q: "(x + (y - 1)) sdiv y = ?q"
    using assms by (cases "x + (y - 1) = 0") (simp_all add: signed_divide_int_def)
  have "?q * y + (x + (y - 1)) mod y = x + (y - 1)" by (rule div_mult_mod_eq)
  moreover have "0 \<le> (x + (y - 1)) mod y" "(x + (y - 1)) mod y < y" using assms(2) by simp_all
  ultimately have "x \<le> ?q * y" "?q * y < x + y" by linarith+
  with q assms(2) show ?thesis by (simp add: roundup_def)
qed

lemma init_attr_step:
  assumes "qp_state cur = IBV_QPS_RESET"
  shows "qp_step cur (init_attr p) (set [IBV_QP_STATE, IBV_QP_PKEY_INDEX, IBV_QP_PORT, IBV_QP_ACCESS_FLAGS])
    (qp_to_init cur (init_attr p))"
  using assms by (intro reset_init) (simp_all add: init_attr_def)

text \<open>The page-rounded block that both control buffers lie in, filled with one byte.\<close>

lemma buffer_block:
  assumes "0 < sz" and "sz < 2 ^ 30" and "0 < page" and "page < 2 ^ 30" and "mem_avail m"
  shows "\<exists>n m1 m2. roundup (sz + sz) page = Some n \<and>
    c_malloc (unat (of_int n :: size_t)) m = (Ptr (next_blk m) 0, m1) \<and>
    c_memset (Ptr (next_blk m) 0) c (unat (of_int n :: size_t)) m1 = Some m2 \<and>
    bytes_from (Ptr (next_blk m) 0) m2 = Some (replicate (nat n) c) \<and> sz + sz \<le> n \<and>
    (\<forall>b. b \<noteq> next_blk m \<longrightarrow> blocks m2 b = blocks m b)"
proof -
  from roundup_bounds [of "sz + sz" page] assms obtain n where
    n: "roundup (sz + sz) page = Some n" "sz + sz \<le> n" "n < sz + sz + page" by auto
  then have u: "unat (of_int n :: size_t) = nat n"
    using assms by (simp add: unat_eq_nat_uint uint_word_of_int_eq take_bit_int_eq_self)
  let ?b = "next_blk m"
  let ?m1 = "m\<lparr>blocks := (blocks m)(?b := Some (map (junk m ?b) [0..<nat n])), next_blk := Suc ?b\<rparr>"
  let ?m2 = "?m1\<lparr>blocks := (blocks ?m1)(?b := Some (replicate (nat n) c))\<rparr>"
  have "c_malloc (nat n) m = (Ptr ?b 0, ?m1)" by (rule c_malloc_avail [OF assms(5)])
  moreover have "c_memset (Ptr ?b 0) c (nat n) ?m1 = Some ?m2"
    by (simp add: c_memset_def store_bytes_def splice_at_def)
  moreover have "bytes_from (Ptr ?b 0) ?m2 = Some (replicate (nat n) c)" by (simp add: bytes_from_def)
  moreover have "\<forall>b. b \<noteq> ?b \<longrightarrow> blocks ?m2 b = blocks m b" by simp
  ultimately show ?thesis using n u by auto
qed

text \<open>
  What a fresh context promises: both control buffers registered, the receive buffer directly
  behind the send buffer in one block of their size at least that is filled with the byte
  \<open>x\<close>, and the queue pair initialised with remote read and write access.
\<close>

definition ctx_ready ::
  "'w nic_view \<Rightarrow> ('w \<Rightarrow> handle \<Rightarrow> ibv_qp_attr option) \<Rightarrow> int \<Rightarrow> byte \<Rightarrow> pingpong_context \<Rightarrow> 'w pstate \<Rightarrow> bool" where
  "ctx_ready W Q sz x ctx s \<longleftrightarrow>
     (\<exists>mr_send mr_recv n c.
        mr_control_send ctx = Some mr_send \<and> mr_control_receive ctx = Some mr_recv \<and>
        (mr_send, [IBV_ACCESS_LOCAL_WRITE]) \<in> nic_mrs W (world s) \<and>
        (mr_recv, [IBV_ACCESS_LOCAL_WRITE]) \<in> nic_mrs W (world s) \<and>
        mr_addr mr_send = mr_control_send_start_ptr ctx \<and> mr_length mr_send = of_int sz \<and>
        mr_addr mr_recv = mr_control_receive_start_ptr ctx \<and> mr_length mr_recv = of_int sz \<and>
        mr_control_send_size ctx = sz \<and> mr_control_receive_size ctx = sz \<and>
        mr_control_receive_start_ptr ctx = padd (mr_control_send_start_ptr ctx) (nat sz) \<and>
        bytes_from (mr_control_send_start_ptr ctx) (pmem s) = Some (replicate n x) \<and> 2 * nat sz \<le> n \<and>
        Q (world s) (qp ctx) = Some c \<and> qp_state c = IBV_QPS_INIT \<and>
        qp_access_flags c = [IBV_ACCESS_REMOTE_READ, IBV_ACCESS_REMOTE_WRITE])"

lemma malloc_struct_0:
  assumes "mem_avail (pmem s)"
  shows "\<exists>s'. malloc_struct 0 s = (Some [], s') \<and> mem_avail (pmem s') \<and> page_size s' = page_size s \<and>
    world s' = world s \<and> next_blk (pmem s') = Suc (next_blk (pmem s)) \<and>
    (\<forall>b. b < next_blk (pmem s) \<longrightarrow> blocks (pmem s') b = blocks (pmem s) b)"
  using assms c_malloc_avail_after [OF assms, of 0]
  by (auto simp: malloc_struct_def c_malloc_avail bytes_from_def)

text \<open>The common part of opening the device, with or without a completion channel.\<close>

lemma open_channel:
  assumes "host_creates V W Q"
  shows "\<exists>ch s'. (if event \<noteq> 0 then ibv_create_comp_channel V cx s else (0, s)) = (ch, s') \<and>
    \<not> (event \<noteq> 0 \<and> ch = 0) \<and> host_call W s s'"
  using host_createsE(2) [OF assms, of cx s] by (cases "event = 0") (auto simp: host_call_def)

lemma init_ctx_ready:
  assumes C: "host_creates V W Q" and M: "modifies_qp V Q" and avail: "mem_avail (pmem s)"
    and sz: "0 < sz" "sz < 2 ^ 30" and page: "0 < page_size s" "page_size s < 2 ^ 30"
  shows "\<exists>ctx s'. pp_init_ctx V dev sz rx tx p event is_server s = Some (Some ctx, s') \<and>
    ctx_ready W Q sz (of_int (123 + is_server)) ctx s' \<and> rx_depth ctx = rx \<and> routs ctx = 0"
proof -
  note H = host_createsE [OF C]
  from malloc_struct_0 [OF avail] obtain s0 where
    s0: "malloc_struct 0 s = (Some [], s0)" "mem_avail (pmem s0)" "page_size s0 = page_size s" by blast
  from H(1) [of dev s0] obtain cx s1 where s1: "ibv_open_device V dev s0 = (cx, s1)" "cx \<noteq> 0" "host_call W s0 s1"
    by blast
  from open_channel [OF C, of event cx s1] obtain ch s2 where
    s2: "(if event \<noteq> 0 then ibv_create_comp_channel V cx s1 else (0, s1)) = (ch, s2)"
      "\<not> (event \<noteq> 0 \<and> ch = 0)" "host_call W s1 s2" by blast
  from H(3) [of cx s2] obtain dom s3 where s3: "ibv_alloc_pd V cx s2 = (dom, s3)" "dom \<noteq> 0" "host_call W s2 s3"
    by blast
  note D = host_callD [OF s1(3)] host_callD [OF s2(3)] host_callD [OF s3(3)]
  let ?p = "Ptr (next_blk (pmem s3)) 0" and ?x = "of_int (123 + is_server) :: byte"
  have avail3: "mem_avail (pmem s3)" and page3: "page_size s3 = page_size s" using D s0 by simp_all
  from buffer_block [OF sz page avail3, of ?x] obtain n m1 m2 where
    buf: "roundup (sz + sz) (page_size s3) = Some n" "c_malloc (unat (of_int n :: size_t)) (pmem s3) = (?p, m1)"
      "c_memset ?p ?x (unat (of_int n :: size_t)) m1 = Some m2"
      "bytes_from ?p m2 = Some (replicate (nat n) ?x)" "sz + sz \<le> n"
    unfolding page3 by blast
  define s4 where "s4 = s3\<lparr>pmem := m2\<rparr>"
  have bf4: "bytes_from ?p (pmem s4) = Some (replicate (nat n) ?x)" using buf(4) by (simp add: s4_def)
  have u: "unat (of_int sz :: size_t) = nat sz" and pos: "0 < (of_int sz :: size_t)"
    using sz by (simp_all add: unat_eq_nat_uint uint_word_of_int_eq take_bit_int_eq_self word_less_def)
  have fit: "unat (of_int sz :: size_t) \<le> length (replicate (nat n) ?x)" using u buf(5) sz by simp
  from H(8) [OF pos bf4 fit, of dom "[IBV_ACCESS_LOCAL_WRITE]"] obtain mr1 s5 where
    s5: "ibv_reg_mr V dom ?p (of_int sz) [IBV_ACCESS_LOCAL_WRITE] s4 = (Some mr1, s5)" "mr_addr mr1 = ?p"
      "mr_length mr1 = of_int sz" "quiet s4 s5"
      "nic_mrs W (world s5) = insert (mr1, [IBV_ACCESS_LOCAL_WRITE]) (nic_mrs W (world s4))" by blast
  let ?q = "padd ?p (nat sz)"
  have bf5: "bytes_from ?p (pmem s5) = Some (replicate (nat n) ?x)" using bf4 s5(4) by (simp only: quietD)
  have bq: "bytes_from ?q (pmem s5) = Some (replicate (nat n - nat sz) ?x)"
    using bytes_from_padd [OF bf5, of "nat sz"] buf(5) sz by (simp del: padd.simps)
  have fit2: "unat (of_int sz :: size_t) \<le> length (replicate (nat n - nat sz) ?x)" using u buf(5) sz by simp
  from H(8) [OF pos bq fit2, of dom "[IBV_ACCESS_LOCAL_WRITE]"] obtain mr2 s6 where
    s6: "ibv_reg_mr V dom ?q (of_int sz) [IBV_ACCESS_LOCAL_WRITE] s5 = (Some mr2, s6)" "mr_addr mr2 = ?q"
      "mr_length mr2 = of_int sz" "quiet s5 s6"
      "nic_mrs W (world s6) = insert (mr2, [IBV_ACCESS_LOCAL_WRITE]) (nic_mrs W (world s5))" by blast
  from H(4) [of cx "tx + 1" ch s6] obtain scq s7 where
    s7: "ibv_create_cq V cx (tx + 1) ch s6 = (scq, s7)" "scq \<noteq> 0" "host_call W s6 s7" by blast
  from H(4) [of cx "rx + 1" ch s7] obtain rcq s8 where
    s8: "ibv_create_cq V cx (rx + 1) ch s7 = (rcq, s8)" "rcq \<noteq> 0" "host_call W s7 s8" by blast
  let ?attr = "\<lparr>init_send_cq = scq, init_recv_cq = rcq, max_send_wr = tx, max_recv_wr = rx,
                max_send_sge = 1, max_recv_sge = 1\<rparr>"
  from H(5) [of dom ?attr s8] obtain q s9 c where
    s9: "ibv_create_qp V dom ?attr s8 = (q, s9)" "q \<noteq> 0" "host_call W s8 s9"
      "Q (world s9) = (Q (world s8))(q \<mapsto> c)" "qp_state c = IBV_QPS_RESET" by blast
  let ?ms = "[IBV_QP_STATE, IBV_QP_PKEY_INDEX, IBV_QP_PORT, IBV_QP_ACCESS_FLAGS]"
  from s9(4) have "Q (world s9) q = Some c" by simp
  from modifies_qpD [OF M this init_attr_step [OF s9(5), of p]] obtain s10 where
    s10: "ibv_modify_qp V q (init_attr p) ?ms s9 = (0, s10)" "quiet s9 s10"
      "Q (world s10) = (Q (world s9))(q \<mapsto> qp_to_init c (init_attr p))" .
  from H(6) [of q s10] obtain limit s11 where
    s11: "ibv_query_max_inline V q s10 = ((0, limit), s11)" "host_call W s10 s11" "Q (world s11) = Q (world s10)"
    by blast
  note E = host_callD [OF s7(3)] host_callD [OF s8(3)] host_callD [OF s9(3)] host_callD [OF s11(2)]
    quietD [OF s6(4)] quietD [OF s10(2)] H(7) [OF s10(1)]
  define ctx where "ctx =
    \<lparr>dev_context = cx, channel = ch, pd = dom, send_cq = scq, receive_cq = rcq,
     portinfo = \<lparr>port_lid = 0, link_layer = IBV_LINK_LAYER_OTHER\<rparr>, qp = q,
     mr_control_send = Some mr1, mr_control_send_start_ptr = ?p, mr_control_send_size = sz,
     mr_control_receive = Some mr2, mr_control_receive_start_ptr = ?q, mr_control_receive_size = sz,
     rx_depth = rx, routs = 0, mr_rdma = None, mr_rdma_start_ptr = NULL, mr_rdma_size = 0,
     remote_buf_va = 0, remote_buf_rkey = 0\<rparr>"
  define s' where "s' = s11\<lparr>max_inline := limit\<rparr>"
  have "pp_init_ctx V dev sz rx tx p event is_server s = Some (Some ctx, s')"
    unfolding pp_init_ctx_def
    using s0(1) s1(1,2) s2(1,2) s3(1,2) buf(1-3) s5(1) s6(1) s7(1,2) s8(1,2) s9(1,2) s10(1) s11(1)
    by (simp add: s4_def [symmetric] ctx_def s'_def del: padd.simps)
  moreover have "ctx_ready W Q sz ?x ctx s'"
  proof -
    have "nic_mrs W (world s11) = nic_mrs W (world s6)" "pmem s11 = pmem s5" using E by simp_all
    moreover have "2 * nat sz \<le> nat n" using buf(5) sz by simp
    ultimately show ?thesis
      unfolding ctx_ready_def
      using s5(2,3,5) s6(2,3,5) s10(3) s11(3) bf5
      by (intro exI [of _ mr1] exI [of _ mr2] exI [of _ "nat n"] exI [of _ "qp_to_init c (init_attr p)"])
        (auto simp: ctx_def s'_def qp_to_init_def init_attr_def)
  qed
  ultimately show ?thesis by (auto simp: ctx_def)
qed

end
