(* ===== verification/Demo_Host.thy ===== *)
theory Demo_Host
  imports KV_Open Connection_Correct
begin

text \<open>
  A concrete machine to set connections up on: an adapter that performs exactly the legal
  transitions of a queue pair and registers any region, and sockets that are byte streams.
  Every object it creates has the handle 1, a name resolves or not as the world says.
\<close>

record net_world =
  net_qps :: "handle \<Rightarrow> ibv_qp_attr option"
  net_mrs :: "(ibv_mr \<times> ibv_access list) list"
  net_in :: "int \<Rightarrow> byte list"
  net_out :: "int \<Rightarrow> byte list"
  net_resolves :: bool

definition net_put_qp :: "handle \<Rightarrow> ibv_qp_attr \<Rightarrow> net_world pstate \<Rightarrow> net_world pstate" where
  "net_put_qp q a s = s\<lparr>world := (world s)\<lparr>net_qps := (net_qps (world s))(q := Some a)\<rparr>\<rparr>"

definition net_modify_qp ::
  "handle \<Rightarrow> ibv_qp_attr \<Rightarrow> ibv_qp_attr_mask list \<Rightarrow> net_world pstate \<Rightarrow> int \<times> net_world pstate" where
  "net_modify_qp q a ms s =
     (case net_qps (world s) q of
        None \<Rightarrow> (22, s)
      | Some cur \<Rightarrow>
          if qp_state cur = IBV_QPS_RESET \<and> qp_state a = IBV_QPS_INIT \<and>
             set ms = {IBV_QP_STATE, IBV_QP_PKEY_INDEX, IBV_QP_PORT, IBV_QP_ACCESS_FLAGS}
          then (0, net_put_qp q (qp_to_init cur a) s)
          else if qp_state cur = IBV_QPS_INIT \<and> qp_state a = IBV_QPS_RTR \<and>
             set ms = {IBV_QP_STATE, IBV_QP_AV, IBV_QP_PATH_MTU, IBV_QP_DEST_QPN, IBV_QP_RQ_PSN,
                       IBV_QP_MAX_DEST_RD_ATOMIC, IBV_QP_MIN_RNR_TIMER}
          then (0, net_put_qp q (qp_to_rtr cur a) s)
          else if qp_state cur = IBV_QPS_RTR \<and> qp_state a = IBV_QPS_RTS \<and>
             set ms = {IBV_QP_STATE, IBV_QP_TIMEOUT, IBV_QP_RETRY_CNT, IBV_QP_RNR_RETRY, IBV_QP_SQ_PSN,
                       IBV_QP_MAX_QP_RD_ATOMIC}
          then (0, net_put_qp q (qp_to_rts cur a) s)
          else (22, s))"

definition net_reg_mr ::
  "handle \<Rightarrow> ptr \<Rightarrow> size_t \<Rightarrow> ibv_access list \<Rightarrow> net_world pstate \<Rightarrow> ibv_mr option \<times> net_world pstate" where
  "net_reg_mr pdom p n acc s =
     (let mr = \<lparr>mr_addr = p, mr_length = n, lkey = 7, rkey = 9\<rparr>
      in (Some mr, s\<lparr>world := (world s)\<lparr>net_mrs := (mr, acc) # net_mrs (world s)\<rparr>\<rparr>))"

definition net_write :: "int \<Rightarrow> byte list \<Rightarrow> net_world pstate \<Rightarrow> int \<times> net_world pstate" where
  "net_write fd bs s =
     (int (length bs), s\<lparr>world := (world s)\<lparr>net_out := (net_out (world s))(fd := net_out (world s) fd @ bs)\<rparr>\<rparr>)"

definition net_read :: "int \<Rightarrow> nat \<Rightarrow> net_world pstate \<Rightarrow> (int \<times> byte list) \<times> net_world pstate" where
  "net_read fd n s =
     ((int (length (take n (net_in (world s) fd))), take n (net_in (world s) fd)),
      s\<lparr>world := (world s)\<lparr>net_in := (net_in (world s))(fd := drop n (net_in (world s) fd))\<rparr>\<rparr>)"

definition net_host :: "net_world host" where
  "net_host =
     \<lparr>ibv_post_recv = (\<lambda>q wr s. (0, s)), ibv_post_send = (\<lambda>q wr s. (0, s)),
      ibv_poll_cq = (\<lambda>cq k s. ((0, []), s)), ibv_reg_mr = net_reg_mr, ibv_dereg_mr = (\<lambda>mr s. (0, s)),
      ibv_get_device_list = (\<lambda>s. (Some [1], s)), ibv_get_device_name = (\<lambda>d. []),
      ibv_open_device = (\<lambda>d s. (1, s)), ibv_create_comp_channel = (\<lambda>c s. (1, s)),
      ibv_alloc_pd = (\<lambda>c s. (1, s)), ibv_create_cq = (\<lambda>c n ch s. (1, s)),
      ibv_create_qp = (\<lambda>d a s. (1, net_put_qp 1 qp_attr_0 s)), ibv_modify_qp = net_modify_qp,
      ibv_query_max_inline = (\<lambda>q s. ((0, 64), s)), qp_num = (\<lambda>q s. 17),
      ibv_query_port = (\<lambda>c p s. ((0, \<lparr>port_lid = 3, link_layer = IBV_LINK_LAYER_INFINIBAND\<rparr>), s)),
      ibv_query_gid = (\<lambda>c p i s. ((0, replicate 16 0), s)), ibv_req_notify_cq = (\<lambda>cq n s. (0, s)),
      ibv_destroy_qp = (\<lambda>q s. (0, s)), ibv_destroy_cq = (\<lambda>q s. (0, s)), ibv_dealloc_pd = (\<lambda>d s. (0, s)),
      ibv_destroy_comp_channel = (\<lambda>c s. (0, s)), ibv_close_device = (\<lambda>c s. (0, s)), ibv_free_device_list = id,
      getaddrinfo = (\<lambda>name port s. if net_resolves (world s) then ((0, [0]), s) else ((-2, []), s)),
      sock_socket = (\<lambda>t s. (5, s)), sock_connect = (\<lambda>fd t s. (0, s)), sock_setsockopt = (\<lambda>fd s. (0, s)),
      sock_bind = (\<lambda>fd t s. (0, s)), sock_listen = (\<lambda>fd n s. (0, s)), sock_accept = (\<lambda>fd s. (6, s)),
      sock_close = (\<lambda>fd s. (0, s)), sock_write = net_write, sock_read = net_read, lrand48 = (\<lambda>s. (5, s)),
      sysconf_pagesize = 4096, c_rand = (\<lambda>s. (0, s)), c_fopen = (\<lambda>name s. (None, s))\<rparr>"

definition net_view :: "net_world nic_view" where
  "net_view = \<lparr>nic_mrs = (\<lambda>w. set (net_mrs w)), nic_work = {}, nic_up = (\<lambda>w. True), nic_log = (\<lambda>w. []),
               nic_remote = (\<lambda>w va rk n. None), nic_target = (\<lambda>w va rk n. False)\<rparr>"

definition net_tcp :: "net_world tcp_view" where
  "net_tcp = \<lparr>tcp_in = net_in, tcp_out = net_out\<rparr>"

definition net_state :: "ibv_qp_attr option \<Rightarrow> byte list \<Rightarrow> bool \<Rightarrow> net_world pstate" where
  "net_state q input resolves =
     \<lparr>pmem = \<lparr>blocks = (\<lambda>b. None), next_blk = 1, junk = (\<lambda>b i. 85), vaddr = (\<lambda>b. of_nat b * 65536),
              oom = (\<lambda>b. False)\<rparr>,
      world = \<lparr>net_qps = (\<lambda>h. q), net_mrs = [], net_in = (\<lambda>fd. input), net_out = (\<lambda>fd. []),
               net_resolves = resolves\<rparr>,
      max_inline = 0, page_size = 4096, kv_malloc = 0\<rparr>"

text \<open>Contexts, addresses and local buffers for the applications.\<close>

definition net_ctx :: pingpong_context where
  "net_ctx =
     \<lparr>dev_context = 1, channel = 0, pd = 1, send_cq = 1, receive_cq = 1,
      portinfo = \<lparr>port_lid = 1, link_layer = IBV_LINK_LAYER_INFINIBAND\<rparr>, qp = 1,
      mr_control_send = None, mr_control_send_start_ptr = NULL, mr_control_send_size = 0,
      mr_control_receive = None, mr_control_receive_start_ptr = NULL, mr_control_receive_size = 0,
      rx_depth = 100, routs = 100, mr_rdma = None, mr_rdma_start_ptr = NULL, mr_rdma_size = 0,
      remote_buf_va = 0, remote_buf_rkey = 0\<rparr>"

definition net_dest :: "int \<Rightarrow> pingpong_dest" where
  "net_dest n = \<lparr>lid = 258, qpn = n, psn = n + 1000, gid = [254, 128] @ replicate 12 0 @ [7, 8]\<rparr>"

definition net_stack :: stack where
  "net_stack = \<lparr>stack_gid = replicate 33 170, stack_v32 = 3\<rparr>"

definition net_handle :: KVHandle where
  "net_handle =
     \<lparr>dev_list = [1], ib_dev = 1, ctx_index = 0, my_dest = net_dest 1, rem_dest = None, ib_devname = None,
      port = 12345, ib_port = 1, mtu = 5, handle_rx_depth = 0, handle_tx_depth = 1, use_event = 0,
      mr_control_size = 1, sl = 0, gidx = -1, num_remote_host = 1, array_ctx_ptr = [], array_remote_dest = []\<rparr>"

lemma net_dest_wf: "0 \<le> n \<Longrightarrow> n < 2 ^ 20 \<Longrightarrow> dest_wf (net_dest n)"
  by (simp add: dest_wf_def net_dest_def)

lemma net_stack_gid: "length (stack_gid net_stack) = 33"
  by (simp add: net_stack_def)

lemma net_state_avail [simp]: "mem_avail (pmem (net_state q inp res))"
  by (simp add: mem_avail_def net_state_def)

section \<open>It behaves as documented\<close>

lemma net_modify_step:
  assumes "net_qps (world s) q = Some cur" and "qp_step cur a (set ms) new"
  shows "net_modify_qp q a ms s = (0, net_put_qp q new s)"
  using assms(2)
proof cases
  case reset_init
  then show ?thesis using assms(1) by (simp only: net_modify_qp_def option.case) simp
next
  case init_rtr
  then show ?thesis using assms(1) by (simp only: net_modify_qp_def option.case) simp
next
  case rtr_rts
  then show ?thesis using assms(1) by (simp only: net_modify_qp_def option.case) simp
qed

lemma net_modify_stuck:
  assumes "net_qps (world s) q = Some cur" and "\<nexists>new. qp_step cur a (set ms) new"
  shows "net_modify_qp q a ms s = (22, s)"
proof -
  note no = assms(2) [simplified, rule_format]
  have "\<not> (qp_state cur = IBV_QPS_RESET \<and> qp_state a = IBV_QPS_INIT \<and>
      set ms = {IBV_QP_STATE, IBV_QP_PKEY_INDEX, IBV_QP_PORT, IBV_QP_ACCESS_FLAGS})"
    using no [of "qp_to_init cur a"] reset_init by blast
  moreover have "\<not> (qp_state cur = IBV_QPS_INIT \<and> qp_state a = IBV_QPS_RTR \<and>
      set ms = {IBV_QP_STATE, IBV_QP_AV, IBV_QP_PATH_MTU, IBV_QP_DEST_QPN, IBV_QP_RQ_PSN,
                IBV_QP_MAX_DEST_RD_ATOMIC, IBV_QP_MIN_RNR_TIMER})"
    using no [of "qp_to_rtr cur a"] init_rtr by blast
  moreover have "\<not> (qp_state cur = IBV_QPS_RTR \<and> qp_state a = IBV_QPS_RTS \<and>
      set ms = {IBV_QP_STATE, IBV_QP_TIMEOUT, IBV_QP_RETRY_CNT, IBV_QP_RNR_RETRY, IBV_QP_SQ_PSN,
                IBV_QP_MAX_QP_RD_ATOMIC})"
    using no [of "qp_to_rts cur a"] rtr_rts by blast
  ultimately show ?thesis using assms(1) by (simp only: net_modify_qp_def option.case if_False)
qed

lemma net_modifies: "modifies_qp net_host net_qps"
  unfolding modifies_qp_def
proof (intro allI impI)
  fix q a and ms :: "ibv_qp_attr_mask list" and s :: "net_world pstate" and cur
  assume cur: "net_qps (world s) q = Some cur"
  have modify: "ibv_modify_qp net_host = net_modify_qp" by (simp add: net_host_def)
  show "\<exists>r s'. ibv_modify_qp net_host q a ms s = (r, s') \<and> quiet s s' \<and>
      (if \<exists>new. qp_step cur a (set ms) new
       then r = 0 \<and> (\<exists>new. qp_step cur a (set ms) new \<and> net_qps (world s') = (net_qps (world s))(q \<mapsto> new))
       else r \<noteq> 0 \<and> net_qps (world s') = net_qps (world s))"
  proof (cases "\<exists>new. qp_step cur a (set ms) new")
    case True
    then obtain new where new: "qp_step cur a (set ms) new" ..
    have put: "quiet s (net_put_qp q new s)" "net_qps (world (net_put_qp q new s)) = (net_qps (world s))(q \<mapsto> new)"
      by (simp_all add: quiet_def net_put_qp_def)
    show ?thesis
      unfolding modify net_modify_step [OF cur new] if_P [OF True] using put new by blast
  next
    case False
    show ?thesis
      unfolding modify net_modify_stuck [OF cur False] if_not_P [OF False] by simp
  qed
qed

lemma net_modify_keeps:
  assumes "net_modify_qp q a ms s = (r, s')"
  shows "net_in (world s') = net_in (world s) \<and> net_out (world s') = net_out (world s) \<and>
    net_mrs (world s') = net_mrs (world s)"
proof (cases "net_qps (world s) q")
  case None
  with assms show ?thesis by (simp add: net_modify_qp_def)
next
  case (Some cur)
  show ?thesis
  proof (cases "\<exists>new. qp_step cur a (set ms) new")
    case True
    then obtain new where "qp_step cur a (set ms) new" ..
    with net_modify_step [OF Some this] assms show ?thesis by (auto simp: net_put_qp_def)
  next
    case False
    with net_modify_stuck [OF Some False] assms show ?thesis by simp
  qed
qed

lemma net_delivers: "tcp_delivers net_host net_tcp net_qps"
proof -
  have modify: "ibv_modify_qp net_host = net_modify_qp" by (simp add: net_host_def)
  show ?thesis
    unfolding tcp_delivers_def modify
    using net_modify_keeps by (simp add: net_host_def net_tcp_def net_read_def net_write_def quiet_def)
qed

lemma net_registers: "registers net_host net_view pdom"
  by (auto simp: registers_def net_host_def net_reg_mr_def net_view_def nic_call_def Let_def)

lemma net_creates: "host_creates net_host net_view net_qps"
proof -
  have call: "host_call net_view s s" for s by (simp add: host_call_def)
  have put: "host_call net_view s (net_put_qp q a s)" for q a s
    by (simp add: host_call_def quiet_def net_put_qp_def net_view_def)
  have "\<exists>c. net_qps (world (net_put_qp 1 qp_attr_0 s)) = (net_qps (world s))(1 \<mapsto> c) \<and> qp_state c = IBV_QPS_RESET" for s
    by (intro exI [of _ qp_attr_0]) (simp add: net_put_qp_def qp_attr_0_def)
  moreover have "nic_mrs net_view (world s') = nic_mrs net_view (world s)"
    if "net_modify_qp q a ms s = (r, s')" for q a ms s r s'
    using net_modify_keeps [OF that] by (simp add: net_view_def)
  moreover have "\<exists>mr s'. net_reg_mr d p n acc s = (Some mr, s') \<and> mr_addr mr = p \<and> mr_length mr = n \<and> quiet s s' \<and>
      nic_mrs net_view (world s') = insert (mr, acc) (nic_mrs net_view (world s))" for d p n acc s
    by (simp add: net_reg_mr_def Let_def quiet_def net_view_def)
  ultimately show ?thesis
    using call put unfolding host_creates_def by (simp add: net_host_def)
qed

text \<open>A name that resolves can be connected to, and nothing is left allocated.\<close>

lemma asprintf_free:
  assumes "mem_avail (pmem s)"
  obtains p s1 s2 where "asprintf_d n s = Some (p, s1)" and "p \<noteq> NULL" and "world s1 = world s"
    and "free_block p s1 = Some s2" and "world s2 = world s" and "mem_avail (pmem s2)"
proof -
  let ?m = "pmem s" and ?t = "sprintf_d n @ [0]"
  let ?b = "next_blk ?m"
  let ?m1 = "?m\<lparr>blocks := (blocks ?m)(?b := Some ?t), next_blk := Suc ?b\<rparr>"
  let ?m2 = "?m1\<lparr>blocks := (blocks ?m1)(?b := None)\<rparr>"
  have "asprintf_d n s = Some (Ptr ?b 0, s\<lparr>pmem := ?m1\<rparr>)"
    by (simp add: asprintf_d_def c_malloc_avail [OF assms] Let_def store_bytes_def splice_at_def)
  moreover have "free_block (Ptr ?b 0) (s\<lparr>pmem := ?m1\<rparr>) = Some (s\<lparr>pmem := ?m2\<rparr>)"
    by (simp add: free_block_def c_free_def)
  moreover have "mem_avail ?m2" using assms by (simp add: mem_avail_def)
  ultimately show ?thesis by (intro that [of "Ptr ?b 0" "s\<lparr>pmem := ?m1\<rparr>" "s\<lparr>pmem := ?m2\<rparr>"]) simp_all
qed

lemma net_open:
  assumes "mem_avail (pmem s)" and "net_resolves (world s)"
  shows "\<exists>t. open_socket net_host (Some name) p s = Some (5, t) \<and> world t = world s \<and> mem_avail (pmem t)"
  by (rule asprintf_free [OF assms(1), of p]) (use assms(2) in \<open>simp add: open_socket_def net_host_def Let_def\<close>)

lemma net_open_unresolved:
  assumes "mem_avail (pmem s)" and "\<not> net_resolves (world s)"
  shows "\<exists>t. open_socket net_host (Some name) p s = Some (-1, t)"
  by (rule asprintf_free [OF assms(1), of p]) (use assms(2) in \<open>simp add: open_socket_def net_host_def Let_def\<close>)

end
