(* ===== verification/BW_Template.thy ===== *)
theory BW_Template
  imports IB_Functions
begin

text \<open>
  The data path of Optimization/bw_template.c, the RDMA-write bandwidth and latency
  benchmark: posting, \<open>pp_wait_completions\<close>, one throughput trial on each side, and the
  latency test. Names that LowLatencyProtocols also uses carry the prefix \<open>bw\<close>. Timing and
  printing are left out. The callers ignore the result of \<open>pp_wait_completions\<close>, and so do
  the definitions.
\<close>

section \<open>Types and constants\<close>

definition MR_RDMA_WRITE_SIZE :: int where "MR_RDMA_WRITE_SIZE = 1048576"
definition bw_TX_DEPTH :: int where "bw_TX_DEPTH = 4800"
definition bw_RX_DEPTH :: int where "bw_RX_DEPTH = 5000"
definition bw_WC_BATCH :: int where "bw_WC_BATCH = 10"
definition bw_REFILL_RWR_THRES :: int where "bw_REFILL_RWR_THRES = 100"
definition NUMBER_MESSAGES :: int where "NUMBER_MESSAGES = 5000"
definition NUM_OF_WARMUP :: int where "NUM_OF_WARMUP = 500"
definition bw_MTU :: int where "bw_MTU = 4096"

definition bw_RECV_WRID :: nat where "bw_RECV_WRID = 1"
definition bw_SEND_WRID :: nat where "bw_SEND_WRID = 2"
definition bw_WRITE_WRID :: nat where "bw_WRITE_WRID = 3"

record bw_context =
  bw_dev_context :: handle
  bw_channel :: handle
  bw_pd :: handle
  bw_mr_control_send :: "ibv_mr option"
  bw_mr_rdma_write :: "ibv_mr option"
  bw_cq :: handle
  bw_qp :: handle
  bw_buf :: ptr
  bw_mr_rdma_write_start_ptr :: ptr
  bw_size :: int
  bw_rx_depth :: int
  bw_routs :: int
  bw_portinfo :: ibv_port_attr

record bw_dest =
  bw_lid :: int
  bw_qpn :: int
  bw_psn :: int
  bw_gid :: "byte list"
  buf_va :: u64
  buf_rkey :: u32

text \<open>The enumeration is an \<open>unsigned int\<close>: the -1 for an illegal size is 2^32 - 1.\<close>

definition bw_pp_mtu_to_enum :: "int \<Rightarrow> int" where
  "bw_pp_mtu_to_enum mtu =
     (if mtu = 256 then 1 else if mtu = 512 then 2 else if mtu = 1024 then 3
      else if mtu = 2048 then 4 else if mtu = 4096 then 5 else 2 ^ 32 - 1)"

section \<open>Posting\<close>

text \<open>Post up to \<open>n\<close> receive requests, stop at the first failure; the number posted.\<close>

fun bw_post_recv_loop ::
  "('w, 'z) verbs_scheme \<Rightarrow> handle \<Rightarrow> ibv_recv_wr \<Rightarrow> nat \<Rightarrow> int \<Rightarrow> 'w pstate \<Rightarrow> int \<times> 'w pstate" where
  "bw_post_recv_loop V q wr 0 i s = (i, s)"
| "bw_post_recv_loop V q wr (Suc n) i s =
     (let (r, s) = ibv_post_recv V q wr s
      in if r \<noteq> 0 then (i, s) else bw_post_recv_loop V q wr n (i + 1) s)"

definition bw_post_recv ::
  "('w, 'z) verbs_scheme \<Rightarrow> bw_context \<Rightarrow> int \<Rightarrow> 'w pstate \<Rightarrow> (int \<times> 'w pstate) option" where
  "bw_post_recv V ctx n s =
     do { mr \<leftarrow> bw_mr_control_send ctx;
          let wr = \<lparr>recv_wr_id = bw_RECV_WRID,
                    recv_sge = \<lparr>sge_addr = bw_buf ctx, sge_length = of_int (bw_size ctx), sge_lkey = lkey mr\<rparr>\<rparr>;
          Some (bw_post_recv_loop V (bw_qp ctx) wr (nat n) 0 s) }"

definition bw_send_flags :: "int \<Rightarrow> u32 \<Rightarrow> ibv_send_flag list" where
  "bw_send_flags len limit =
     (if of_int len \<le> limit then [IBV_SEND_SIGNALED, IBV_SEND_INLINE] else [IBV_SEND_SIGNALED])"

definition bw_post_rdma_write ::
  "('w, 'z) verbs_scheme \<Rightarrow> bw_context \<Rightarrow> bw_dest \<Rightarrow> int \<Rightarrow> 'w pstate \<Rightarrow> (int \<times> 'w pstate) option" where
  "bw_post_rdma_write V ctx rem_dest message_size s =
     do { mr \<leftarrow> bw_mr_rdma_write ctx;
          let wr = \<lparr>send_wr_id = bw_SEND_WRID,
                    send_sge = \<lparr>sge_addr = bw_mr_rdma_write_start_ptr ctx,
                                sge_length = of_int message_size, sge_lkey = lkey mr\<rparr>,
                    send_opcode = IBV_WR_RDMA_WRITE,
                    send_flags = bw_send_flags message_size (max_inline s),
                    rdma_rkey = ntohl (buf_rkey rem_dest),
                    rdma_remote_addr = bswap_64 (buf_va rem_dest)\<rparr>;
          Some (ibv_post_send V (bw_qp ctx) wr s) }"

definition bw_post_send ::
  "('w, 'z) verbs_scheme \<Rightarrow> bw_context \<Rightarrow> 'w pstate \<Rightarrow> (int \<times> 'w pstate) option" where
  "bw_post_send V ctx s =
     do { mr \<leftarrow> bw_mr_control_send ctx;
          let wr = \<lparr>send_wr_id = bw_SEND_WRID,
                    send_sge = \<lparr>sge_addr = bw_buf ctx,
                                sge_length = of_int (bw_size ctx), sge_lkey = lkey mr\<rparr>,
                    send_opcode = IBV_WR_SEND,
                    send_flags = bw_send_flags (bw_size ctx) (max_inline s),
                    rdma_rkey = 0, rdma_remote_addr = 0\<rparr>;
          Some (ibv_post_send V (bw_qp ctx) wr s) }"

section \<open>Waiting for completions\<close>

text \<open>
  One receive completion: the count \<open>routs\<close> of posted receive requests goes down, and the
  queue is refilled at the threshold. The result is 1 when the refill fell short.
\<close>

definition bw_received ::
  "('w, 'z) verbs_scheme \<Rightarrow> bw_context \<Rightarrow> 'w pstate \<Rightarrow> (int \<times> bw_context \<times> 'w pstate) option" where
  "bw_received V ctx s =
     (let ctx = ctx\<lparr>bw_routs := bw_routs ctx - 1\<rparr> in
      if bw_routs ctx \<le> bw_REFILL_RWR_THRES then
        do { (posted, s) \<leftarrow> bw_post_recv V ctx (bw_rx_depth ctx - bw_routs ctx) s;
             let ctx = ctx\<lparr>bw_routs := bw_routs ctx + posted\<rparr>;
             if bw_routs ctx < bw_rx_depth ctx then Some (1, ctx, s) else Some (0, ctx, s) }
      else Some (0, ctx, s))"

text \<open>
  The completions of one poll, in order. The result is 1 for a failed or unknown completion;
  \<open>None\<close> is a read of an entry the poll did not fill.
\<close>

fun bw_check_wcs ::
  "('w, 'z) verbs_scheme \<Rightarrow> nat \<Rightarrow> ibv_wc list \<Rightarrow> bw_context \<Rightarrow> int \<Rightarrow> int \<Rightarrow> 'w pstate \<Rightarrow>
   (int \<times> bw_context \<times> int \<times> int \<times> 'w pstate) option" where
  "bw_check_wcs V 0 wcs ctx rcnt scnt s = Some (0, ctx, rcnt, scnt, s)"
| "bw_check_wcs V (Suc n) [] ctx rcnt scnt s = None"
| "bw_check_wcs V (Suc n) (wc # wcs) ctx rcnt scnt s =
     (if wc_status wc \<noteq> IBV_WC_SUCCESS then Some (1, ctx, rcnt, scnt, s)
      else if wc_wr_id wc = bw_SEND_WRID then bw_check_wcs V n wcs ctx rcnt (scnt + 1) s
      else if wc_wr_id wc = bw_RECV_WRID then
        do { (r, ctx, s) \<leftarrow> bw_received V ctx s;
             if r \<noteq> 0 then Some (1, ctx, rcnt, scnt, s)
             else bw_check_wcs V n wcs ctx (rcnt + 1) scnt s }
      else Some (1, ctx, rcnt, scnt, s))"

text \<open>The inner polling loop is that of \<open>poll_n_send_wc\<close>.\<close>

partial_function (option) bw_wait_loop ::
  "('w, 'z) verbs_scheme \<Rightarrow> int \<Rightarrow> bw_context \<Rightarrow> int \<Rightarrow> int \<Rightarrow> 'w pstate \<Rightarrow>
   (int \<times> bw_context \<times> 'w pstate) option" where
  "bw_wait_loop V iters ctx rcnt scnt s =
     (if rcnt + scnt < iters then
        do { ((ne, wc), s) \<leftarrow>
               poll_send_some V (bw_cq ctx)
                 (if bw_WC_BATCH > iters - rcnt - scnt then iters - rcnt - scnt else bw_WC_BATCH) s;
             if ne < 0 then Some (1, ctx, s)
             else do {
               (r, ctx, rcnt, scnt, s) \<leftarrow> bw_check_wcs V (nat ne) wc ctx rcnt scnt s;
               if r \<noteq> 0 then Some (1, ctx, s)
               else bw_wait_loop V iters ctx rcnt scnt s } }
      else Some (0, ctx, s))"

definition pp_wait_completions ::
  "('w, 'z) verbs_scheme \<Rightarrow> bw_context \<Rightarrow> int \<Rightarrow> 'w pstate \<Rightarrow> (int \<times> bw_context \<times> 'w pstate) option" where
  "pp_wait_completions V ctx iters s = bw_wait_loop V iters ctx 0 0 s"

section \<open>One trial\<close>

text \<open>
  The client's loop over \<open>i\<close>, with \<open>n\<close> iterations left. \<open>i % tx_depth\<close> is undefined for a
  zero depth.
\<close>

fun bw_client_writes ::
  "('w, 'z) verbs_scheme \<Rightarrow> bw_dest \<Rightarrow> int \<Rightarrow> int \<Rightarrow> nat \<Rightarrow> int \<Rightarrow> bw_context \<Rightarrow> int \<Rightarrow> 'w pstate \<Rightarrow>
   (int \<times> bw_context \<times> int \<times> 'w pstate) option" where
  "bw_client_writes V rem_dest message_size tx_depth 0 i ctx num_complete s =
     Some (0, ctx, num_complete, s)"
| "bw_client_writes V rem_dest message_size tx_depth (Suc n) i ctx num_complete s =
     do { (ctx, num_complete, s) \<leftarrow>
            (if i \<noteq> 0 then
               if tx_depth = 0 then None
               else if i mod tx_depth = 0 then
                 do { (_, ctx, s) \<leftarrow> pp_wait_completions V ctx tx_depth s;
                      Some (ctx, num_complete + tx_depth, s) }
               else Some (ctx, num_complete, s)
             else Some (ctx, num_complete, s));
          (r, s) \<leftarrow> bw_post_rdma_write V ctx rem_dest message_size s;
          if r \<noteq> 0 then Some (1, ctx, num_complete, s)
          else bw_client_writes V rem_dest message_size tx_depth n (i + 1) ctx num_complete s }"

definition bw_client_trial ::
  "('w, 'z) verbs_scheme \<Rightarrow> bw_context \<Rightarrow> int \<Rightarrow> int \<Rightarrow> bw_dest \<Rightarrow> int \<Rightarrow> 'w pstate \<Rightarrow>
   (int \<times> bw_context \<times> 'w pstate) option" where
  "bw_client_trial V ctx tx_depth iters rem_dest message_size s =
     do { (r, ctx, num_complete, s) \<leftarrow>
            bw_client_writes V rem_dest message_size tx_depth (nat iters) 0 ctx 0 s;
          if r \<noteq> 0 then Some (1, ctx, s)
          else do {
            (r, s) \<leftarrow> bw_post_send V ctx s;
            if r \<noteq> 0 then Some (1, ctx, s)
            else do {
              (_, ctx, s) \<leftarrow> pp_wait_completions V ctx (iters - num_complete + 2) s;
              Some (0, ctx, s) } } }"

definition bw_server_trial ::
  "('w, 'z) verbs_scheme \<Rightarrow> bw_context \<Rightarrow> 'w pstate \<Rightarrow> (int \<times> bw_context \<times> 'w pstate) option" where
  "bw_server_trial V ctx s =
     do { (_, ctx, s) \<leftarrow> pp_wait_completions V ctx 1 s;
          (r, s) \<leftarrow> bw_post_send V ctx s;
          if r \<noteq> 0 then Some (1, ctx, s)
          else do {
            (_, ctx, s) \<leftarrow> pp_wait_completions V ctx 1 s;
            Some (0, ctx, s) } }"

text \<open>The first argument says whether a server name was given, that is, on the client.\<close>

definition perform_single_experiment ::
  "('w, 'z) verbs_scheme \<Rightarrow> bool \<Rightarrow> bw_context \<Rightarrow> int \<Rightarrow> int \<Rightarrow> bw_dest \<Rightarrow> int \<Rightarrow> 'w pstate \<Rightarrow>
   (int \<times> bw_context \<times> 'w pstate) option" where
  "perform_single_experiment V client ctx tx_depth iters rem_dest message_size s =
     (if client then bw_client_trial V ctx tx_depth iters rem_dest message_size s
      else bw_server_trial V ctx s)"

section \<open>The tests\<close>

definition list_message_sizes :: "int list" where
  "list_message_sizes =
     [1, 2, 4, 8, 16, 32, 64, 128, 256, 512, 1024, 2048, 4096, 8192, 16384, 32768, 65536, 131072,
      262144, 524288, 1048576]"

text \<open>One trial per message size, whatever the trials return.\<close>

fun bw_trials ::
  "('w, 'z) verbs_scheme \<Rightarrow> bool \<Rightarrow> int \<Rightarrow> int \<Rightarrow> bw_dest \<Rightarrow> int list \<Rightarrow> bw_context \<Rightarrow> 'w pstate \<Rightarrow>
   (bw_context \<times> 'w pstate) option" where
  "bw_trials V client tx_depth iters rem_dest [] ctx s = Some (ctx, s)"
| "bw_trials V client tx_depth iters rem_dest (message_size # sizes) ctx s =
     do { (_, ctx, s) \<leftarrow> perform_single_experiment V client ctx tx_depth iters rem_dest message_size s;
          bw_trials V client tx_depth iters rem_dest sizes ctx s }"

definition bw_throughput_test ::
  "('w, 'z) verbs_scheme \<Rightarrow> bool \<Rightarrow> bw_context \<Rightarrow> int \<Rightarrow> int \<Rightarrow> bw_dest \<Rightarrow> 'w pstate \<Rightarrow>
   (bw_context \<times> 'w pstate) option" where
  "bw_throughput_test V client ctx tx_depth iters rem_dest s =
     bw_trials V client tx_depth iters rem_dest list_message_sizes ctx s"

text \<open>The loop of the latency test over \<open>i\<close>, with \<open>n\<close> iterations left.\<close>

fun bw_latency_loop ::
  "('w, 'z) verbs_scheme \<Rightarrow> bool \<Rightarrow> int \<Rightarrow> nat \<Rightarrow> int \<Rightarrow> bw_context \<Rightarrow> 'w pstate \<Rightarrow>
   (int \<times> bw_context \<times> 'w pstate) option" where
  "bw_latency_loop V client iters 0 i ctx s = Some (0, ctx, s)"
| "bw_latency_loop V client iters (Suc n) i ctx s =
     (if client then
        do { (r, s) \<leftarrow> bw_post_send V ctx s;
             if r \<noteq> 0 then Some (1, ctx, s)
             else do {
               (_, ctx, s) \<leftarrow> pp_wait_completions V ctx 2 s;
               bw_latency_loop V client iters n (i + 1) ctx s } }
      else
        do { (ctx, s) \<leftarrow>
               (if i = 0 then do { (_, ctx, s) \<leftarrow> pp_wait_completions V ctx 1 s; Some (ctx, s) }
                else Some (ctx, s));
             (r, s) \<leftarrow> bw_post_send V ctx s;
             if r \<noteq> 0 then Some (1, ctx, s)
             else do {
               (_, ctx, s) \<leftarrow> pp_wait_completions V ctx (if i = iters - 1 then 1 else 2) s;
               bw_latency_loop V client iters n (i + 1) ctx s } })"

definition latency_test ::
  "('w, 'z) verbs_scheme \<Rightarrow> bool \<Rightarrow> bw_context \<Rightarrow> int \<Rightarrow> 'w pstate \<Rightarrow>
   (int \<times> bw_context \<times> 'w pstate) option" where
  "latency_test V client ctx iters s = bw_latency_loop V client iters (nat iters) 0 ctx s"

text \<open>The tests in the order of \<open>main\<close>, after the connection is set up.\<close>

definition bw_tests ::
  "('w, 'z) verbs_scheme \<Rightarrow> bool \<Rightarrow> bw_context \<Rightarrow> int \<Rightarrow> int \<Rightarrow> bw_dest \<Rightarrow> 'w pstate \<Rightarrow>
   (bw_context \<times> 'w pstate) option" where
  "bw_tests V client ctx tx_depth iters rem_dest s =
     do { (_, ctx, s) \<leftarrow> latency_test V client ctx NUM_OF_WARMUP s;
          (ctx, s) \<leftarrow> bw_throughput_test V client ctx tx_depth iters rem_dest s;
          (_, ctx, s) \<leftarrow> latency_test V client ctx iters s;
          Some (ctx, s) }"

end
