(* ===== verification/BW_Setup.thy ===== *)
theory BW_Setup
  imports BW_Template Connection
begin

text \<open>
  Connection set-up and teardown of Optimization/bw_template.c. Compared
  with LowLatencyProtocols the address carries the place of the peer's RDMA buffer, sending
  and receiving share one completion queue, and the receive requests are posted in \<open>main\<close>.
\<close>

section \<open>Addresses\<close>

definition bw_pp_get_local_lid :: "('w, 'z) host_scheme \<Rightarrow> handle \<Rightarrow> int \<Rightarrow> 'w pstate \<Rightarrow> int \<times> 'w pstate" where
  "bw_pp_get_local_lid V context p s =
     (let ((r, attr), s) = ibv_query_port V context p s in if r \<noteq> 0 then (0, s) else (port_lid attr, s))"

definition bw_pp_get_port_info ::
  "('w, 'z) host_scheme \<Rightarrow> handle \<Rightarrow> int \<Rightarrow> 'w pstate \<Rightarrow> (int \<times> ibv_port_attr) \<times> 'w pstate" where
  "bw_pp_get_port_info V context p s = ibv_query_port V context p s"

definition bw_gid_to_wire_gid :: "byte list \<Rightarrow> byte list" where
  "bw_gid_to_wire_gid g = concat (map (\<lambda>i. sprintf_x 8 (unat (htonl (gid_word g i)))) [0..<4])"

fun bw_wire_gid_loop :: "byte list \<Rightarrow> nat \<Rightarrow> nat \<Rightarrow> u32 \<Rightarrow> byte list" where
  "bw_wire_gid_loop wgid 0 i v32 = []"
| "bw_wire_gid_loop wgid (Suc n) i v32 =
     (let tmp = the (cstr (take 8 (drop (i * 8) wgid) @ [0]));
          v32 = (case scan_x tmp of None \<Rightarrow> v32 | Some (v, _) \<Rightarrow> ucast v)
      in bytes32 (ntohl v32) @ bw_wire_gid_loop wgid n (i + 1) v32)"

definition bw_wire_gid_to_gid :: "u32 \<Rightarrow> byte list \<Rightarrow> byte list" where
  "bw_wire_gid_to_gid v32 wgid = bw_wire_gid_loop wgid 4 0 v32"

text \<open>\<open>"%04x:%06x:%06x:%016lx:%08x:%s"\<close> into a buffer of 78 bytes.\<close>

definition bw_dest_text :: "bw_dest \<Rightarrow> byte list" where
  "bw_dest_text d =
     sprintf_x 4 (unat (of_int (bw_lid d) :: u32)) @ [58] @ sprintf_x 6 (unat (of_int (bw_qpn d) :: u32)) @ [58] @
     sprintf_x 6 (unat (of_int (bw_psn d) :: u32)) @ [58] @ sprintf_x 16 (unat (buf_va d)) @ [58] @
     sprintf_x 8 (unat (buf_rkey d)) @ [58] @ bw_gid_to_wire_gid (bw_gid d)"

definition bw_sizeof_msg :: nat where "bw_sizeof_msg = 78"

definition bw_print_dest :: "bw_dest \<Rightarrow> byte list option" where
  "bw_print_dest d = (if length (bw_dest_text d) + 1 \<le> bw_sizeof_msg then Some (bw_dest_text d @ [0]) else None)"

definition bw_scan_dest :: "bw_dest \<Rightarrow> byte list \<Rightarrow> byte list \<Rightarrow> (bw_dest \<times> byte list) option" where
  "bw_scan_dest d gidbuf text =
     (case scan_x text of
        None \<Rightarrow> Some (d, gidbuf)
      | Some (v, r) \<Rightarrow>
          let d = d\<lparr>bw_lid := sint (ucast v :: u32)\<rparr> in
          (case Option.bind (scan_lit 58 r) scan_x of
             None \<Rightarrow> Some (d, gidbuf)
           | Some (v, r) \<Rightarrow>
               let d = d\<lparr>bw_qpn := sint (ucast v :: u32)\<rparr> in
               (case Option.bind (scan_lit 58 r) scan_x of
                  None \<Rightarrow> Some (d, gidbuf)
                | Some (v, r) \<Rightarrow>
                    let d = d\<lparr>bw_psn := sint (ucast v :: u32)\<rparr> in
                    (case Option.bind (scan_lit 58 r) scan_x of
                       None \<Rightarrow> Some (d, gidbuf)
                     | Some (v, r) \<Rightarrow>
                         let d = d\<lparr>buf_va := v\<rparr> in
                         (case Option.bind (scan_lit 58 r) scan_x of
                            None \<Rightarrow> Some (d, gidbuf)
                          | Some (v, r) \<Rightarrow>
                              let d = d\<lparr>buf_rkey := ucast v\<rparr> in
                              (case Option.bind (scan_lit 58 r) scan_s of
                                 None \<Rightarrow> Some (d, gidbuf)
                               | Some (w, _) \<Rightarrow>
                                   if length w < length gidbuf then Some (d, splice_at 0 (w @ [0]) gidbuf)
                                   else None))))))"

definition bw_parse_dest :: "u32 \<Rightarrow> bw_dest \<Rightarrow> byte list \<Rightarrow> byte list \<Rightarrow> bw_dest option" where
  "bw_parse_dest v32 d gidbuf msg =
     do { text \<leftarrow> cstr msg;
          (d, gidbuf) \<leftarrow> bw_scan_dest d gidbuf text;
          Some (d\<lparr>bw_gid := bw_wire_gid_to_gid v32 gidbuf\<rparr>) }"

section \<open>Connecting\<close>

definition bw_connect_attr :: "int \<Rightarrow> int \<Rightarrow> int \<Rightarrow> bw_dest \<Rightarrow> int \<Rightarrow> ibv_qp_attr" where
  "bw_connect_attr p path service_level dest sgid_idx =
     (let ah = ah_attr_0\<lparr>is_global := 0, dlid := of_int (bw_lid dest), ah_sl := of_int service_level,
                         src_path_bits := 0, ah_port_num := of_int p\<rparr>;
          ah = (if drop 8 (bw_gid dest) \<noteq> replicate 8 0
                then ah\<lparr>is_global := 1, hop_limit := 1, dgid := bw_gid dest, sgid_index := of_int sgid_idx\<rparr>
                else ah)
      in qp_attr_0\<lparr>qp_state := IBV_QPS_RTR, path_mtu := path, dest_qp_num := of_int (bw_qpn dest),
                   rq_psn := of_int (bw_psn dest), max_dest_rd_atomic := 1, min_rnr_timer := 12, ah_attr := ah\<rparr>)"

definition bw_connect_ctx ::
  "('w, 'z) host_scheme \<Rightarrow> bw_context \<Rightarrow> int \<Rightarrow> int \<Rightarrow> int \<Rightarrow> int \<Rightarrow> bw_dest \<Rightarrow> int \<Rightarrow> 'w pstate \<Rightarrow> int \<times> 'w pstate" where
  "bw_connect_ctx V ctx p my_psn path service_level dest sgid_idx s =
     (let attr = bw_connect_attr p path service_level dest sgid_idx;
          (r, s) = ibv_modify_qp V (bw_qp ctx) attr
            [IBV_QP_STATE, IBV_QP_AV, IBV_QP_PATH_MTU, IBV_QP_DEST_QPN, IBV_QP_RQ_PSN,
             IBV_QP_MAX_DEST_RD_ATOMIC, IBV_QP_MIN_RNR_TIMER] s in
      if r \<noteq> 0 then (1, s) else
      let attr = attr\<lparr>qp_state := IBV_QPS_RTS, timeout := 14, retry_cnt := 7, rnr_retry := 7,
                      sq_psn := of_int my_psn, max_rd_atomic := 1\<rparr>;
          (r, s) = ibv_modify_qp V (bw_qp ctx) attr
            [IBV_QP_STATE, IBV_QP_TIMEOUT, IBV_QP_RETRY_CNT, IBV_QP_RNR_RETRY, IBV_QP_SQ_PSN,
             IBV_QP_MAX_QP_RD_ATOMIC] s in
      if r \<noteq> 0 then (1, s) else (0, s))"

text \<open>
  The memory of a fresh \<open>pingpong_dest\<close>: three \<open>int\<close>, the gid at offset 16, then the address and
  the key, 48 bytes in all.
\<close>

definition bw_sizeof_dest :: nat where "bw_sizeof_dest = 48"

definition bw_raw_dest :: "byte list \<Rightarrow> bw_dest" where
  "bw_raw_dest bs =
     \<lparr>bw_lid = sint (word32 (take 4 bs)), bw_qpn = sint (word32 (take 4 (drop 4 bs))),
      bw_psn = sint (word32 (take 4 (drop 8 bs))), bw_gid = take 16 (drop 16 bs),
      buf_va = word64 (take 8 (drop 32 bs)), buf_rkey = word32 (take 4 (drop 40 bs))\<rparr>"

definition bw_client_exch_dest ::
  "('w, 'z) host_scheme \<Rightarrow> stack \<Rightarrow> byte list \<Rightarrow> int \<Rightarrow> bw_dest \<Rightarrow> 'w pstate \<Rightarrow>
   (bw_dest option \<times> 'w pstate) option" where
  "bw_client_exch_dest V st servername p local s =
     do { (sockfd, s) \<leftarrow> open_socket V (Some servername) p s;
          if sockfd < 0 then Some (None, s)
          else do {
            msg \<leftarrow> bw_print_dest local;
            let (n, s) = sock_write V sockfd msg s;
            if n \<noteq> int bw_sizeof_msg then Some (None, snd (sock_close V sockfd s))
            else do {
              let ((n, msg), s) = sock_read V sockfd bw_sizeof_msg s;
              if n \<noteq> int bw_sizeof_msg then Some (None, snd (sock_close V sockfd s))
              else do {
                let (n, s) = sock_write V sockfd done_msg s;
                let (fresh, s) = malloc_struct bw_sizeof_dest s;
                case fresh of
                  None \<Rightarrow> Some (None, snd (sock_close V sockfd s))
                | Some bs \<Rightarrow> do {
                    remote \<leftarrow> bw_parse_dest (stack_v32 st) (bw_raw_dest bs)
                      (bw_gid_to_wire_gid (bw_gid local) @ [0]) msg;
                    Some (Some remote, snd (sock_close V sockfd s)) } } } } }"

definition bw_server_exch_dest ::
  "('w, 'z) host_scheme \<Rightarrow> stack \<Rightarrow> bw_context \<Rightarrow> int \<Rightarrow> int \<Rightarrow> int \<Rightarrow> int \<Rightarrow> bw_dest \<Rightarrow> int \<Rightarrow> 'w pstate \<Rightarrow>
   (bw_dest option \<times> 'w pstate) option" where
  "bw_server_exch_dest V st ctx ib path p service_level local sgid_idx s =
     do { (sockfd, s) \<leftarrow> open_socket V None p s;
          if sockfd < 0 then Some (None, s)
          else do {
            let (r, s) = sock_listen V sockfd 1 s;
            let (connfd, s) = sock_accept V sockfd s;
            let (r, s) = sock_close V sockfd s;
            if connfd < 0 then Some (None, s)
            else do {
              let ((n, msg), s) = sock_read V connfd bw_sizeof_msg s;
              if n \<noteq> int bw_sizeof_msg then Some (None, snd (sock_close V connfd s))
              else do {
                let (fresh, s) = malloc_struct bw_sizeof_dest s;
                case fresh of
                  None \<Rightarrow> Some (None, snd (sock_close V connfd s))
                | Some bs \<Rightarrow> do {
                    remote \<leftarrow> bw_parse_dest (stack_v32 st) (bw_raw_dest bs) (stack_gid st) msg;
                    let (r, s) = bw_connect_ctx V ctx ib (bw_psn local) path service_level remote sgid_idx s;
                    if r \<noteq> 0 then Some (None, snd (sock_close V connfd s))
                    else do {
                      msg \<leftarrow> bw_print_dest local;
                      let (n, s) = sock_write V connfd msg s;
                      if n \<noteq> int bw_sizeof_msg then Some (None, snd (sock_close V connfd s))
                      else do {
                        let (r, s) = sock_read V connfd bw_sizeof_msg s;
                        Some (Some remote, snd (sock_close V connfd s)) } } } } } } }"

section \<open>Creating and closing a context\<close>

definition bw_init_attr :: "int \<Rightarrow> ibv_qp_attr" where
  "bw_init_attr p = qp_attr_0\<lparr>qp_state := IBV_QPS_INIT, pkey_index := 0, port_num := of_int p,
                              qp_access_flags := [IBV_ACCESS_REMOTE_READ, IBV_ACCESS_REMOTE_WRITE]\<rparr>"

text \<open>
  The control buffer is the first \<open>size\<close> bytes of one block, the RDMA buffer follows it. That
  the RDMA region could be registered is not checked.
\<close>

definition bw_init_ctx ::
  "('w, 'z) host_scheme \<Rightarrow> handle \<Rightarrow> int \<Rightarrow> int \<Rightarrow> int \<Rightarrow> int \<Rightarrow> int \<Rightarrow> int \<Rightarrow> int \<Rightarrow> 'w pstate \<Rightarrow>
   (bw_context option \<times> 'w pstate) option" where
  "bw_init_ctx V dev sz rdma_size rx tx p event is_server s =
     (let (fresh, s) = malloc_struct 0 s in
      if fresh = None then Some (None, s) else
      do { buffer_size \<leftarrow> roundup (sz + rdma_size) (page_size s);
           let (buf, m) = c_malloc (unat (of_int buffer_size :: size_t)) (pmem s);
           if buf = NULL then Some (None, s\<lparr>pmem := m\<rparr>)
           else do {
             m \<leftarrow> c_memset buf (of_int (123 + is_server)) (unat (of_int (sz + rdma_size) :: size_t)) m;
             let (cx, s) = ibv_open_device V dev (s\<lparr>pmem := m\<rparr>);
             if cx = 0 then Some (None, s) else
             let (ch, s) = (if event \<noteq> 0 then ibv_create_comp_channel V cx s else (0, s)) in
             if event \<noteq> 0 \<and> ch = 0 then Some (None, s) else
             let (dom, s) = ibv_alloc_pd V cx s in
             if dom = 0 then Some (None, s) else
             let (mr_send, s) = ibv_reg_mr V dom buf (of_int sz) [IBV_ACCESS_LOCAL_WRITE] s in
             if mr_send = None then Some (None, s) else
             let buf2 = padd buf (nat sz);
                 (mr_write, s) = ibv_reg_mr V dom buf2 (of_int rdma_size)
                   [IBV_ACCESS_LOCAL_WRITE, IBV_ACCESS_REMOTE_WRITE] s;
                 (queue, s) = ibv_create_cq V cx (rx + tx) ch s in
             if queue = 0 then Some (None, s) else
             let (q, s) = ibv_create_qp V dom
                   \<lparr>init_send_cq = queue, init_recv_cq = queue, max_send_wr = tx, max_recv_wr = rx,
                    max_send_sge = 1, max_recv_sge = 1\<rparr> s in
             if q = 0 then Some (None, s) else
             let (r, s) = ibv_modify_qp V q (bw_init_attr p)
                   [IBV_QP_STATE, IBV_QP_PKEY_INDEX, IBV_QP_PORT, IBV_QP_ACCESS_FLAGS] s in
             if r \<noteq> 0 then Some (None, s) else
             let ((r, limit), s) = ibv_query_max_inline V q s in
             if r \<noteq> 0 then Some (None, s) else
             Some (Some \<lparr>bw_dev_context = cx, bw_channel = ch, bw_pd = dom, bw_mr_control_send = mr_send,
                         bw_mr_rdma_write = mr_write, bw_cq = queue, bw_qp = q, bw_buf = buf,
                         bw_mr_rdma_write_start_ptr = buf2, bw_size = sz, bw_rx_depth = rx, bw_routs = rx,
                         bw_portinfo = \<lparr>port_lid = 0, link_layer = IBV_LINK_LAYER_OTHER\<rparr>\<rparr>,
                   s\<lparr>max_inline := limit\<rparr>) } })"

definition bw_close_ctx :: "('w, 'z) host_scheme \<Rightarrow> bw_context \<Rightarrow> 'w pstate \<Rightarrow> (int \<times> 'w pstate) option" where
  "bw_close_ctx V ctx s =
     (let (r, s) = ibv_destroy_qp V (bw_qp ctx) s in
      if r \<noteq> 0 then Some (1, s) else
      let (r, s) = ibv_destroy_cq V (bw_cq ctx) s in
      if r \<noteq> 0 then Some (1, s) else
      do { mr_send \<leftarrow> bw_mr_control_send ctx;
           let (r, s) = ibv_dereg_mr V mr_send s;
           if r \<noteq> 0 then Some (1, s)
           else do {
             mr_write \<leftarrow> bw_mr_rdma_write ctx;
             let (r, s) = ibv_dereg_mr V mr_write s;
             if r \<noteq> 0 then Some (1, s) else
             let (r, s) = ibv_dealloc_pd V (bw_pd ctx) s in
             if r \<noteq> 0 then Some (1, s) else
             let (r, s) = (if bw_channel ctx \<noteq> 0 then ibv_destroy_comp_channel V (bw_channel ctx) s else (0, s)) in
             if r \<noteq> 0 then Some (1, s) else
             let (r, s) = ibv_close_device V (bw_dev_context ctx) s in
             if r \<noteq> 0 then Some (1, s)
             else do { s \<leftarrow> free_block (bw_buf ctx) s; Some (0, s) } } })"

end
