(* ===== verification/BW_Main.thy ===== *)
theory BW_Main
  imports BW_Setup
begin

text \<open>
  The command line and \<open>main\<close> of Optimization/bw_template.c. \<open>getopt_long\<close> is not part of the
  model: \<open>opts\<close> is the sequence of options and arguments it returns, \<open>rest\<close> the arguments it
  leaves. The enumeration of path MTUs is unsigned (see \<open>bw_pp_mtu_to_enum\<close>), so the check
  \<open>mtu < 0\<close>, kept as it is written, never finds an illegal size.
\<close>

section \<open>The command line\<close>

record bw_options =
  opt_port :: int
  opt_devname :: "byte list option"
  opt_ib_port :: int
  opt_mtu :: int
  opt_rx_depth :: int
  opt_iters :: int
  opt_use_event :: int
  opt_size :: int
  opt_sl :: int
  opt_gidx :: int

definition bw_defaults :: bw_options where
  "bw_defaults =
     \<lparr>opt_port = 12345, opt_devname = None, opt_ib_port = 1, opt_mtu = bw_pp_mtu_to_enum bw_MTU,
      opt_rx_depth = bw_RX_DEPTH, opt_iters = NUMBER_MESSAGES, opt_use_event = 0, opt_size = 1, opt_sl = 0,
      opt_gidx = -1\<rparr>"

text \<open>
  \<open>strtol(optarg, NULL, 0)\<close>, assigned to an \<open>int\<close>: the prefix decides the base, the value
  saturates at 64 bits and is truncated to 32.
\<close>

definition is_digit_of :: "nat \<Rightarrow> byte \<Rightarrow> bool" where
  "is_digit_of base c \<longleftrightarrow> (case hex_val c of None \<Rightarrow> False | Some d \<Rightarrow> d < base)"

fun strtol_base :: "byte list \<Rightarrow> nat \<times> byte list" where
  "strtol_base (a # b # c # r) =
     (if a = 48 \<and> (b = 120 \<or> b = 88) \<and> is_hex c then (16, c # r)
      else if a = 48 then (8, a # b # c # r) else (10, a # b # c # r))"
| "strtol_base (a # r) = (if a = 48 then (8, a # r) else (10, a # r))"
| "strtol_base [] = (10, [])"

definition strtol_int :: "byte list \<Rightarrow> int" where
  "strtol_int bs =
     (let (neg, r) = scan_sign (dropWhile is_space bs);
          (base, r) = strtol_base r;
          n = foldl (\<lambda>n d. int base * n + int (the (hex_val d))) 0 (takeWhile (is_digit_of base) r);
          v = (if neg then max (- n) (- (2 ^ 63)) else min n (2 ^ 63 - 1))
      in sint (of_int v :: u32))"

text \<open>One option; \<open>None\<close> is the usage message and the return of 1.\<close>

definition bw_option :: "byte \<times> byte list \<Rightarrow> bw_options \<Rightarrow> bw_options option" where
  "bw_option opt ps =
     (let (c, optarg) = opt; v = strtol_int optarg in
      if c = 112 then (if v < 0 \<or> v > 65535 then None else Some (ps\<lparr>opt_port := v\<rparr>))
      else if c = 100 then Some (ps\<lparr>opt_devname := Some optarg\<rparr>)
      else if c = 105 then (if v < 0 then None else Some (ps\<lparr>opt_ib_port := v\<rparr>))
      else if c = 115 then Some (ps\<lparr>opt_size := v\<rparr>)
      else if c = 109 then
        (if bw_pp_mtu_to_enum v < 0 then None else Some (ps\<lparr>opt_mtu := bw_pp_mtu_to_enum v\<rparr>))
      else if c = 114 then Some (ps\<lparr>opt_rx_depth := v\<rparr>)
      else if c = 110 then Some (ps\<lparr>opt_iters := v\<rparr>)
      else if c = 108 then Some (ps\<lparr>opt_sl := v\<rparr>)
      else if c = 101 then Some (ps\<lparr>opt_use_event := opt_use_event ps + 1\<rparr>)
      else if c = 103 then Some (ps\<lparr>opt_gidx := v\<rparr>)
      else None)"

lemma mtu_option_accepts_any_size: "bw_option (109, optarg) ps \<noteq> None"
  by (simp add: bw_option_def bw_pp_mtu_to_enum_def Let_def)

fun bw_parse_options :: "(byte \<times> byte list) list \<Rightarrow> bw_options \<Rightarrow> bw_options option" where
  "bw_parse_options [] ps = Some ps"
| "bw_parse_options (opt # opts) ps = do { ps \<leftarrow> bw_option opt ps; bw_parse_options opts ps }"

section \<open>The main function\<close>

fun bw_find_device :: "('w, 'z) host_scheme \<Rightarrow> byte list \<Rightarrow> handle list \<Rightarrow> handle" where
  "bw_find_device V name [] = 0"
| "bw_find_device V name (d # ds) = (if ibv_get_device_name V d = name then d else bw_find_device V name ds)"

definition bw_choose_device :: "('w, 'z) host_scheme \<Rightarrow> byte list option \<Rightarrow> handle list \<Rightarrow> handle" where
  "bw_choose_device V name devices =
     (case name of None \<Rightarrow> (case devices of [] \<Rightarrow> 0 | d # _ \<Rightarrow> d) | Some n \<Rightarrow> bw_find_device V n devices)"

text \<open>The address of this end, with the place and key of its RDMA buffer in network order.\<close>

definition bw_local_dest ::
  "('w, 'z) host_scheme \<Rightarrow> bw_options \<Rightarrow> bw_context \<Rightarrow> 'w pstate \<Rightarrow>
   (bw_dest option \<times> bw_context \<times> 'w pstate) option" where
  "bw_local_dest V ps ctx s =
     (let ((r, attr), s) = bw_pp_get_port_info V (bw_dev_context ctx) (opt_ib_port ps) s in
      if r \<noteq> 0 then Some (None, ctx, s) else
      let ctx = ctx\<lparr>bw_portinfo := attr\<rparr> in
      if link_layer attr = IBV_LINK_LAYER_INFINIBAND \<and> port_lid attr = 0 then Some (None, ctx, s) else
      let ((r, g), s) = (if opt_gidx ps \<ge> 0
                         then ibv_query_gid V (bw_dev_context ctx) (opt_ib_port ps) (opt_gidx ps) s
                         else ((0, replicate 16 0), s)) in
      if r \<noteq> 0 then Some (None, ctx, s) else
      let n = sint (qp_num V (bw_qp ctx) s); (rnd, s) = lrand48 V s in
      do { mr \<leftarrow> bw_mr_rdma_write ctx;
           Some (Some \<lparr>bw_lid = port_lid attr, bw_qpn = n, bw_psn = int (take_bit 24 rnd), bw_gid = g,
                       buf_va = bswap_64 (uintptr (pmem s) (bw_mr_rdma_write_start_ptr ctx)),
                       buf_rkey = htonl (rkey mr)\<rparr>, ctx, s) })"

text \<open>From the context to the end: receives, addresses, connection, tests, release.\<close>

definition bw_run ::
  "('w, 'z) host_scheme \<Rightarrow> stack \<Rightarrow> byte list option \<Rightarrow> bw_options \<Rightarrow> bw_context \<Rightarrow> 'w pstate \<Rightarrow>
   (int \<times> 'w pstate) option" where
  "bw_run V st servername ps ctx s =
     do { (posted, s) \<leftarrow> bw_post_recv V ctx (bw_rx_depth ctx) s;
          let ctx = ctx\<lparr>bw_routs := posted\<rparr>;
          if bw_routs ctx < bw_rx_depth ctx then Some (1, s)
          else do {
            let (r, s) = (if opt_use_event ps \<noteq> 0 then ibv_req_notify_cq V (bw_cq ctx) 0 s else (0, s));
            if r \<noteq> 0 then Some (1, s)
            else do {
              (local, ctx, s) \<leftarrow> bw_local_dest V ps ctx s;
              case local of
                None \<Rightarrow> Some (1, s)
              | Some my \<Rightarrow> do {
                  (remote, s) \<leftarrow>
                    (case servername of
                       Some name \<Rightarrow> bw_client_exch_dest V st name (opt_port ps) my s
                     | None \<Rightarrow> bw_server_exch_dest V st ctx (opt_ib_port ps) (opt_mtu ps) (opt_port ps)
                         (opt_sl ps) my (opt_gidx ps) s);
                  case remote of
                    None \<Rightarrow> Some (1, s)
                  | Some dest \<Rightarrow> do {
                      let (r, s) = (if servername \<noteq> None
                            then bw_connect_ctx V ctx (opt_ib_port ps) (bw_psn my) (opt_mtu ps) (opt_sl ps) dest
                              (opt_gidx ps) s
                            else (0, s));
                      if r \<noteq> 0 then Some (1, s)
                      else do {
                        (ctx, s) \<leftarrow> bw_tests V (servername \<noteq> None) ctx bw_TX_DEPTH (opt_iters ps) dest s;
                        (_, s) \<leftarrow> bw_close_ctx V ctx s;
                        Some (0, ibv_free_device_list V s) } } } } } }"

text \<open>\<open>uninit\<close> is the value of \<open>servername\<close> when no argument assigns it.\<close>

definition bw_main ::
  "('w, 'z) host_scheme \<Rightarrow> stack \<Rightarrow> byte list option \<Rightarrow> (byte \<times> byte list) list \<Rightarrow> byte list list \<Rightarrow> 'w pstate \<Rightarrow>
   (int \<times> 'w pstate) option" where
  "bw_main V st uninit opts rest s =
     (case bw_parse_options opts bw_defaults of
        None \<Rightarrow> Some (1, s)
      | Some ps \<Rightarrow>
          if 1 < length rest then Some (1, s) else
          let servername = (case rest of [] \<Rightarrow> uninit | a # _ \<Rightarrow> Some a);
              s = s\<lparr>page_size := sysconf_pagesize V\<rparr>;
              (devices, s) = ibv_get_device_list V s in
          (case devices of
             None \<Rightarrow> Some (1, s)
           | Some devices \<Rightarrow>
               let dev = bw_choose_device V (opt_devname ps) devices in
               if dev = 0 then Some (1, s)
               else do {
                 (new, s) \<leftarrow> bw_init_ctx V dev (opt_size ps) MR_RDMA_WRITE_SIZE (opt_rx_depth ps) bw_TX_DEPTH
                   (opt_ib_port ps) (opt_use_event ps) (if servername = None then 1 else 0) s;
                 case new of None \<Rightarrow> Some (1, s) | Some ctx \<Rightarrow> bw_run V st servername ps ctx s }))"

end
