(* ===== verification/Connection_Properties.thy ===== *)
theory Connection_Properties
  imports Demo_Host BW_Setup BW_Main
begin

text \<open>
  The properties of connection set-up (LowLatencyProtocols/ib_functions.c and kv_api.c, and the
  same steps of Optimization/bw_template.c), with applications on the concrete machine of
  Demo_Host.
\<close>

section \<open>Addresses\<close>

text \<open>
  C27. Addresses survive the wire: for an address as the adapter assigns it, printing fills the
  52-byte message exactly, without overflow, and reading it back gives the same address,
  whatever the fresh structure, the gid buffer and the uninitialised variable held before.
\<close>

theorem address_roundtrip:
  assumes "dest_wf d" and "length gidbuf = 33"
  shows "\<exists>msg. print_dest d = Some msg \<and> length msg = sizeof_dest_msg \<and>
    parse_dest v32 junk_dest gidbuf msg = Some d"
  using print_dest_fits [OF assms(1)] length_sent [OF assms(1)] parse_sent [OF assms] by blast

theorem address_roundtrip_witness:
  "\<exists>msg. print_dest (net_dest 66) = Some msg \<and> length msg = sizeof_dest_msg \<and>
    parse_dest 3 (raw_dest (replicate 32 85)) (replicate 33 170) msg = Some (net_dest 66)"
  by (rule address_roundtrip [OF net_dest_wf]) simp_all

text \<open>The same for the address of the benchmark, which carries a 64-bit address and a key.\<close>

definition bw_dest_wf :: "bw_dest \<Rightarrow> bool" where
  "bw_dest_wf d \<longleftrightarrow> 0 \<le> bw_lid d \<and> bw_lid d < 2 ^ 16 \<and> 0 \<le> bw_qpn d \<and> bw_qpn d < 2 ^ 24 \<and>
     0 \<le> bw_psn d \<and> bw_psn d < 2 ^ 24 \<and> length (bw_gid d) = 16"

lemma bw_wire_gid: "bw_gid_to_wire_gid = gid_to_wire_gid" "bw_wire_gid_to_gid = wire_gid_to_gid"
proof -
  show "bw_gid_to_wire_gid = gid_to_wire_gid"
    by (simp add: fun_eq_iff bw_gid_to_wire_gid_def gid_to_wire_gid_def)
  have "bw_wire_gid_loop w n i v = wire_gid_loop w n i v" for w n i v
    by (induction w n i v rule: wire_gid_loop.induct) (simp_all add: Let_def)
  then show "bw_wire_gid_to_gid = wire_gid_to_gid"
    by (simp add: fun_eq_iff bw_wire_gid_to_gid_def wire_gid_to_gid_def)
qed

lemma bw_print_fits:
  assumes "bw_dest_wf d"
  shows "bw_print_dest d = Some (bw_dest_text d @ [0])" and "length (bw_dest_text d @ [0]) = bw_sizeof_msg"
proof -
  have small: "nat (bw_lid d) < 16 ^ 4" "nat (bw_qpn d) < 16 ^ 6" "nat (bw_psn d) < 16 ^ 6"
    using assms by (simp_all add: bw_dest_wf_def nat_less_iff)
  have num: "unat (of_int (bw_lid d) :: u32) = nat (bw_lid d)" "unat (of_int (bw_qpn d) :: u32) = nat (bw_qpn d)"
    "unat (of_int (bw_psn d) :: u32) = nat (bw_psn d)"
    using assms by (auto simp: bw_dest_wf_def intro!: dest_number)
  have "length (sprintf_x 16 (unat (buf_va d))) = 16" "length (sprintf_x 8 (unat (buf_rkey d))) = 8"
    using unsigned_less [of "buf_va d"] unsigned_less [of "buf_rkey d"] by (intro length_sprintf_x; simp)+
  with small show len: "length (bw_dest_text d @ [0]) = bw_sizeof_msg"
    by (simp add: bw_dest_text_def num length_sprintf_x bw_wire_gid bw_sizeof_msg_def)
  then show "bw_print_dest d = Some (bw_dest_text d @ [0])" by (simp add: bw_print_dest_def)
qed

lemma bw_scan_words:
  "scan_x (sprintf_x w (unat (v :: u64)) @ 58 # rest) = Some (v, 58 # rest)"
  "scan_x (sprintf_x w (unat (k :: u32)) @ 58 # rest) = Some (ucast k, 58 # rest)"
proof -
  have "unat v < 2 ^ 64" using unsigned_less [where w = v and 'a = nat] by simp
  moreover have "unat k < 2 ^ 64" using unsigned_less [where w = k and 'a = nat] by simp
  ultimately show "scan_x (sprintf_x w (unat v) @ 58 # rest) = Some (v, 58 # rest)"
    "scan_x (sprintf_x w (unat k) @ 58 # rest) = Some (ucast k, 58 # rest)"
    by (simp_all add: scan_x_sprintf_x)
qed

lemma bw_parse_sent:
  assumes "bw_dest_wf d" and "length gidbuf = 33"
  shows "bw_parse_dest v32 d0 gidbuf (bw_dest_text d @ [0]) = Some d"
proof -
  have small: "0 \<le> bw_lid d" "bw_lid d < 2 ^ 31" "0 \<le> bw_qpn d" "bw_qpn d < 2 ^ 31" "0 \<le> bw_psn d"
    "bw_psn d < 2 ^ 31" using assms(1) by (simp_all add: bw_dest_wf_def)
  have nz: "0 \<notin> set (bw_dest_text d)"
    using hex_digits_nonzero [OF sprintf_x_hex] wire_gid_plain(1) by (simp add: bw_dest_text_def bw_wire_gid)
  have word: "sint (of_int x :: u32) = x" if "0 \<le> x" "x < 2 ^ 31" for x :: int
    using that by transfer (simp add: signed_take_bit_int_eq_self)
  have buf: "splice_at 0 (gid_to_wire_gid (bw_gid d) @ [0]) gidbuf = gid_to_wire_gid (bw_gid d) @ [0]"
    using assms(2) by (simp add: splice_at_def)
  have "bw_scan_dest d0 gidbuf (bw_dest_text d) =
      Some (d0\<lparr>bw_lid := bw_lid d, bw_qpn := bw_qpn d, bw_psn := bw_psn d, buf_va := buf_va d,
               buf_rkey := buf_rkey d\<rparr>, gid_to_wire_gid (bw_gid d) @ [0])"
    unfolding bw_scan_dest_def bw_dest_text_def bw_wire_gid
    using small assms(2)
    by (simp add: dest_scan_number word bw_scan_words buf scan_s_wire_gid Let_def)
  moreover have "wire_gid_to_gid v32 (gid_to_wire_gid (bw_gid d) @ [0]) = bw_gid d"
    by (rule wire_gid_roundtrip) (use assms(1) in \<open>simp_all add: bw_dest_wf_def\<close>)
  ultimately show ?thesis by (simp add: bw_parse_dest_def nz bw_wire_gid)
qed

text \<open>
  C29. The benchmark's RDMA writes hit the buffer that was advertised: the address and key that
  \<open>main\<close> puts into the server's message in network order come through the socket, and the
  request the client's \<open>pp_post_rdma_write\<close> posts names exactly the place of the server's RDMA
  buffer under exactly the key of its region.
\<close>

theorem rdma_write_hits_buffer:
  assumes "bw_local_dest V ps ctx s = Some (Some d, ctx2, s2)" and "bw_mr_rdma_write ctx = Some mr"
    and "bw_dest_wf d" and "length gidbuf = 33" and "bw_mr_rdma_write client = Some mr_client"
  shows "\<exists>msg d' wr. bw_print_dest d = Some msg \<and> bw_parse_dest v32 junk_dest gidbuf msg = Some d' \<and>
    bw_post_rdma_write U client d' message_size t = Some (ibv_post_send U (bw_qp client) wr t) \<and>
    send_opcode wr = IBV_WR_RDMA_WRITE \<and> rdma_rkey wr = rkey mr \<and>
    rdma_remote_addr wr = uintptr (pmem s2) (bw_mr_rdma_write_start_ptr ctx)"
proof -
  from assms(1,2) have d: "buf_rkey d = htonl (rkey mr)"
    "buf_va d = bswap_64 (uintptr (pmem s2) (bw_mr_rdma_write_start_ptr ctx))"
    by (auto simp: bw_local_dest_def Let_def split: prod.splits if_splits)
  define wr where "wr =
    \<lparr>send_wr_id = bw_SEND_WRID,
     send_sge = \<lparr>sge_addr = bw_mr_rdma_write_start_ptr client, sge_length = of_int message_size,
                 sge_lkey = lkey mr_client\<rparr>,
     send_opcode = IBV_WR_RDMA_WRITE, send_flags = bw_send_flags message_size (max_inline t),
     rdma_rkey = rkey mr, rdma_remote_addr = uintptr (pmem s2) (bw_mr_rdma_write_start_ptr ctx)\<rparr>"
  have "bw_post_rdma_write U client d message_size t = Some (ibv_post_send U (bw_qp client) wr t)"
    using assms(5) d by (simp add: bw_post_rdma_write_def wr_def)
  then show ?thesis
    using bw_print_fits(1) [OF assms(3)] bw_parse_sent [OF assms(3,4)]
    by (intro exI [of _ "bw_dest_text d @ [0]"] exI [of _ d] exI [of _ wr]) (simp add: wr_def)
qed

definition net_rdma_mr :: ibv_mr where
  "net_rdma_mr = \<lparr>mr_addr = Ptr 0 1, mr_length = 8, lkey = 7, rkey = 305419896\<rparr>"

definition net_bw_ctx :: bw_context where
  "net_bw_ctx =
     \<lparr>bw_dev_context = 1, bw_channel = 0, bw_pd = 1, bw_mr_control_send = Some net_rdma_mr,
      bw_mr_rdma_write = Some net_rdma_mr, bw_cq = 1, bw_qp = 1, bw_buf = Ptr 0 0,
      bw_mr_rdma_write_start_ptr = Ptr 0 1, bw_size = 1, bw_rx_depth = 100, bw_routs = 100,
      bw_portinfo = \<lparr>port_lid = 0, link_layer = IBV_LINK_LAYER_OTHER\<rparr>\<rparr>"

definition net_bw_dest :: bw_dest where
  "net_bw_dest = \<lparr>bw_lid = 3, bw_qpn = 17, bw_psn = 5, bw_gid = replicate 16 0, buf_va = bswap_64 1,
                  buf_rkey = htonl 305419896\<rparr>"

theorem rdma_write_hits_buffer_witness:
  "\<exists>msg d' wr. bw_print_dest net_bw_dest = Some msg \<and>
    bw_parse_dest 3 (bw_raw_dest (replicate 48 85)) (replicate 33 170) msg = Some d' \<and>
    bw_post_rdma_write net_host net_bw_ctx d' 8 (net_state None [] True) =
      Some (ibv_post_send net_host (bw_qp net_bw_ctx) wr (net_state None [] True)) \<and>
    send_opcode wr = IBV_WR_RDMA_WRITE \<and> rdma_rkey wr = rkey net_rdma_mr \<and>
    rdma_remote_addr wr = uintptr (pmem (net_state None [] True)) (bw_mr_rdma_write_start_ptr net_bw_ctx)"
proof (rule rdma_write_hits_buffer)
  show "bw_local_dest net_host bw_defaults net_bw_ctx (net_state None [] True) =
    Some (Some net_bw_dest,
      net_bw_ctx\<lparr>bw_portinfo := \<lparr>port_lid = 3, link_layer = IBV_LINK_LAYER_INFINIBAND\<rparr>\<rparr>, net_state None [] True)"
    by (simp add: bw_local_dest_def net_host_def bw_pp_get_port_info_def net_bw_ctx_def net_bw_dest_def
        bw_defaults_def net_rdma_mr_def net_state_def)
qed (simp_all add: net_bw_ctx_def bw_dest_wf_def net_bw_dest_def)

section \<open>Connecting\<close>

text \<open>
  C26. Both ends agree: on adapters that perform the legal transitions and sockets that deliver
  whole messages, when what each side sends is what the other receives, the server's and the
  client's exchange give each the other's address, send exactly the bytes assumed, and leave
  both queue pairs ready to send, each addressing the other and expecting the sequence
  number the other starts with.
\<close>

theorem endpoints_agree:
  assumes "tcp_delivers V T Q" and "modifies_qp V Q" and "Q (world s) (qp ctx) = Some cur"
    and "qp_state cur = IBV_QPS_INIT" and "mem_avail (pmem s)" and "length (stack_gid st) = 33"
    and "tcp_in T (world s) fd = dest_text client @ [0] @ done_msg"
    and "tcp_delivers U S R" and "modifies_qp U R" and "open_socket U (Some name) p t0 = Some (fd', t)" and "0 \<le> fd'"
    and "R (world t) (qp ctx') = Some cur'" and "qp_state cur' = IBV_QPS_INIT" and "mem_avail (pmem t)"
    and "tcp_in S (world t) fd' = dest_text server @ [0]"
    and "dest_wf client" and "dest_wf server"
  shows "\<exists>s' c t1 t2 c'.
    pp_server_exch_dest V st ctx ib path fd service_level server idx s = Some (Some client, s') \<and>
    tcp_out T (world s') fd = tcp_out T (world s) fd @ dest_text server @ [0] \<and>
    pp_client_exch_dest U st' name p client t0 = Some (Some server, t1) \<and>
    tcp_out S (world t1) fd' = tcp_out S (world t) fd' @ dest_text client @ [0] @ done_msg \<and>
    pp_connect_ctx U ctx' ib' (psn client) path' service_level' server idx' t1 = (0, t2) \<and>
    Q (world s') (qp ctx) = Some c \<and> R (world t2) (qp ctx') = Some c' \<and>
    qp_state c = IBV_QPS_RTS \<and> qp_state c' = IBV_QPS_RTS \<and>
    dest_qp_num c = of_int (qpn client) \<and> dest_qp_num c' = of_int (qpn server) \<and>
    rq_psn c = sq_psn c' \<and> rq_psn c' = sq_psn c"
proof -
  from server_exchange [OF assms(1-4,17,16,6,5,7)] obtain s' c where
    srv: "pp_server_exch_dest V st ctx ib path fd service_level server idx s = Some (Some client, s')"
      "tcp_out T (world s') fd = tcp_out T (world s) fd @ dest_text server @ [0]"
      "Q (world s') = (Q (world s))(qp ctx \<mapsto> c)" "connected c (psn server) client" by blast
  from assms(15) have "tcp_in S (world t) fd' = dest_text server @ [0] @ []" by simp
  from client_exchange [OF assms(8,10,11,16,17,14) this] obtain t1 where
    cl: "pp_client_exch_dest U st' name p client t0 = Some (Some server, t1)"
      "tcp_out S (world t1) fd' = tcp_out S (world t) fd' @ dest_text client @ [0] @ done_msg"
      "R (world t1) = R (world t)" by blast
  from cl(3) assms(12) have "R (world t1) (qp ctx') = Some cur'" by simp
  from connect_reaches_rts [OF assms(9) this assms(13)] obtain t2 c' where
    co: "pp_connect_ctx U ctx' ib' (psn client) path' service_level' server idx' t1 = (0, t2)"
      "R (world t2) = (R (world t1))(qp ctx' \<mapsto> c')" "connected c' (psn client) server" by blast
  have "Q (world s') (qp ctx) = Some c" "R (world t2) (qp ctx') = Some c'" using srv(3) co(2) by simp_all
  moreover have "qp_state c = IBV_QPS_RTS" "qp_state c' = IBV_QPS_RTS" "dest_qp_num c = of_int (qpn client)"
    "dest_qp_num c' = of_int (qpn server)" "rq_psn c = sq_psn c'" "rq_psn c' = sq_psn c"
    using srv(4) co(3) by (simp_all add: connected_def)
  ultimately show ?thesis using srv(1,2) cl(1,2) co(1) by blast
qed

theorem endpoints_agree_witness:
  "\<exists>fd' (t :: net_world pstate) s' c t1 t2 c'.
    pp_server_exch_dest net_host net_stack net_ctx 1 5 6 0 (net_dest 77) (-1)
      (net_state (Some (init_attr 1)) (dest_text (net_dest 66) @ [0] @ done_msg) True) = Some (Some (net_dest 66), s') \<and>
    tcp_out net_tcp (world s') 6 =
      tcp_out net_tcp (world (net_state (Some (init_attr 1)) (dest_text (net_dest 66) @ [0] @ done_msg) True)) 6 @
      dest_text (net_dest 77) @ [0] \<and>
    pp_client_exch_dest net_host net_stack [104] 12345 (net_dest 66)
      (net_state (Some (init_attr 1)) (dest_text (net_dest 77) @ [0]) True) = Some (Some (net_dest 77), t1) \<and>
    tcp_out net_tcp (world t1) fd' = tcp_out net_tcp (world t) fd' @ dest_text (net_dest 66) @ [0] @ done_msg \<and>
    pp_connect_ctx net_host net_ctx 1 (psn (net_dest 66)) 5 0 (net_dest 77) (-1) t1 = (0, t2) \<and>
    net_qps (world s') (qp net_ctx) = Some c \<and> net_qps (world t2) (qp net_ctx) = Some c' \<and>
    qp_state c = IBV_QPS_RTS \<and> qp_state c' = IBV_QPS_RTS \<and>
    dest_qp_num c = of_int (qpn (net_dest 66)) \<and> dest_qp_num c' = of_int (qpn (net_dest 77)) \<and>
    rq_psn c = sq_psn c' \<and> rq_psn c' = sq_psn c"
proof -
  let ?t0 = "net_state (Some (init_attr 1)) (dest_text (net_dest 77) @ [0]) True"
  have "net_resolves (world ?t0)" by (simp add: net_state_def)
  from net_open [OF net_state_avail this, of "[104]" 12345] obtain t where
    t: "open_socket net_host (Some [104]) 12345 ?t0 = Some (5, t)" "world t = world ?t0" "mem_avail (pmem t)" by blast
  have "net_qps (world t) (qp net_ctx) = Some (init_attr 1)" "tcp_in net_tcp (world t) 5 = dest_text (net_dest 77) @ [0]"
    using t(2) by (simp_all add: net_state_def net_tcp_def)
  note tdata = this
  have wf: "dest_wf (net_dest 66)" "dest_wf (net_dest 77)" by (simp_all add: net_dest_wf)
  have start: "net_qps (world (net_state (Some (init_attr 1)) i True)) (qp net_ctx) = Some (init_attr 1)"
    "qp_state (init_attr 1) = IBV_QPS_INIT"
    "tcp_in net_tcp (world (net_state (Some (init_attr 1)) i True)) 6 = i" for i
    by (simp_all add: net_state_def net_tcp_def init_attr_def)
  have pos: "(0 :: int) \<le> 5" by simp
  show ?thesis
    by (rule exI [of _ "5 :: int"], rule exI [of _ t],
      rule endpoints_agree [OF net_delivers net_modifies start(1,2) net_state_avail net_stack_gid start(3)
        net_delivers net_modifies t(1) pos tdata(1) start(2) t(3) tdata(2) wf])
qed

text \<open>
  A queue pair that is not in the initial state cannot be connected: \<open>pp_connect_ctx\<close>
  returns 1 and leaves every queue pair as it was.
\<close>

theorem connect_refuses_other_states:
  assumes "modifies_qp V Q" and "Q (world s) (qp ctx) = Some cur" and "qp_state cur \<noteq> IBV_QPS_INIT"
  shows "\<exists>s'. pp_connect_ctx V ctx ib my_psn path service_level dest idx s = (1, s') \<and>
    Q (world s') = Q (world s)"
  using connect_needs_init [OF assms] .

theorem connect_refuses_other_states_witness:
  "\<exists>s'. pp_connect_ctx net_host net_ctx 1 5 5 0 (net_dest 77) (-1) (net_state (Some qp_attr_0) [] True) = (1, s') \<and>
    net_qps (world s') = net_qps (world (net_state (Some qp_attr_0) [] True))"
  by (rule connect_refuses_other_states [OF net_modifies, where cur = qp_attr_0]) (simp_all add: net_state_def qp_attr_0_def)

text \<open>
  C28. A new context is ready to be connected and used: when the set-up calls succeed,
  \<open>pp_init_ctx\<close> returns a context with its two control buffers registered for exactly their size,
  disjoint and inside one block filled with the byte 0x7b (123), on the server 0x7c, the receive
  buffer directly behind the send buffer, and a queue pair in the initial state that grants remote reads and writes.
\<close>

theorem new_context_is_ready:
  assumes "host_creates V W Q" and "modifies_qp V Q" and "mem_avail (pmem s)"
    and "0 < sz" and "sz < 2 ^ 30" and "0 < page_size s" and "page_size s < 2 ^ 30"
  shows "\<exists>ctx s'. pp_init_ctx V dev sz rx tx ib event is_server s = Some (Some ctx, s') \<and>
    ctx_ready W Q sz (of_int (123 + is_server)) ctx s' \<and> rx_depth ctx = rx \<and> routs ctx = 0"
  using init_ctx_ready [OF assms] .

theorem new_context_is_ready_witness:
  "\<exists>ctx s'. pp_init_ctx net_host 1 4100 100 100 1 0 1 (net_state None [] True) = Some (Some ctx, s') \<and>
    ctx_ready net_view net_qps 4100 124 ctx s' \<and> rx_depth ctx = 100 \<and> routs ctx = 0"
  using new_context_is_ready [OF net_creates net_modifies net_state_avail,
      where sz = 4100 and is_server = 1 and dev = 1 and rx = 100 and tx = 100 and ib = 1 and event = 0]
  by (simp add: net_state_def)

section \<open>Opening a handle\<close>

lemma local_dest_cong:
  "ib_port h' = ib_port h \<Longrightarrow> gidx h' = gidx h \<Longrightarrow> local_dest V h' ctx s = local_dest V h ctx s"
  by (simp add: local_dest_def Let_def cong: if_cong)

text \<open>
  C36. A client whose address exchange fails (no server, no memory, a short message) crashes in
  \<open>kv_open\<close> instead of getting an error: the null pointer \<open>rem_dest\<close> is printed and then
  connected to, without a check.
\<close>

theorem client_open_crashes_without_server:
  assumes "pp_init_ctx V (ib_dev h) (mr_control_size h) (handle_rx_depth h) (handle_tx_depth h) (ib_port h)
      (use_event h) 0 s = Some (Some ctx, s1)"
    and "pp_post_recv V ctx s1 = Some (0, ctx1, s2)" and "use_event h = 0"
    and "local_dest V h (ctx1\<lparr>routs := rx_depth ctx1\<rparr>) s2 = (Some my, ctx2, s3)"
    and "pp_client_exch_dest V st name (port h) my s3 = Some (None, s4)"
  shows "open_host V st (Some name) fds i h s = None"
proof -
  have "local_dest V (h\<lparr>array_ctx_ptr := array_ctx_ptr h @ [ctx], ctx_index := i\<rparr>)
      (ctx1\<lparr>routs := rx_depth ctx1\<rparr>) s2 = local_dest V h (ctx1\<lparr>routs := rx_depth ctx1\<rparr>) s2"
    by (rule local_dest_cong) simp_all
  with assms show ?thesis by (simp add: open_host_def set_handle_ctx_def)
qed

text \<open>The machine of Demo_Host with pages of 4 bytes, on which the server's name does not resolve.\<close>

definition net_lonely :: "net_world pstate" where
  "net_lonely = (net_state None [] False)\<lparr>page_size := 4\<rparr>"

lemma net_lonely_init:
  "\<exists>ctx s1. pp_init_ctx net_host 1 1 0 1 1 0 0 net_lonely = Some (Some ctx, s1) \<and> rx_depth ctx = 0 \<and>
    routs ctx = 0 \<and> mem_avail (pmem s1) \<and> \<not> net_resolves (world s1)"
proof -
  have round: "roundup 2 4 = Some 4" by (simp add: roundup_def)
  show ?thesis
    by (simp add: pp_init_ctx_def net_lonely_def net_state_def net_host_def malloc_struct_def c_malloc_def
        bytes_from_def round c_memset_def store_bytes_def splice_at_def net_reg_mr_def net_put_qp_def Let_def
        mem_avail_def)
      (simp add: net_modify_qp_def init_attr_def net_put_qp_def qp_attr_0_def)
qed

theorem client_open_crashes_without_server_witness:
  "open_host net_host net_stack (Some [104]) [] 0 net_handle net_lonely = None"
proof -
  let ?my = "\<lparr>lid = 3, qpn = 17, psn = 5, gid = replicate 16 0\<rparr>"
  from net_lonely_init obtain ctx s1 where
    init: "pp_init_ctx net_host 1 1 0 1 1 0 0 net_lonely = Some (Some ctx, s1)" "rx_depth ctx = 0" "routs ctx = 0"
      "mem_avail (pmem s1)" "\<not> net_resolves (world s1)" by blast
  have post: "pp_post_recv net_host ctx s1 = Some (0, ctx\<lparr>routs := 0\<rparr>, s1)"
    using init(2,3) by (simp add: pp_post_recv_def)
  let ?c = "ctx\<lparr>routs := rx_depth (ctx\<lparr>routs := 0\<rparr>)\<rparr>"
  have dest: "local_dest net_host net_handle (ctx\<lparr>routs := 0, routs := rx_depth (ctx\<lparr>routs := 0\<rparr>)\<rparr>) s1 =
      (Some ?my, ?c\<lparr>portinfo := \<lparr>port_lid = 3, link_layer = IBV_LINK_LAYER_INFINIBAND\<rparr>\<rparr>, s1)"
    by (simp add: local_dest_def pp_get_port_info_def net_host_def net_handle_def)
  from net_open_unresolved [OF init(4,5), of "[104]" 12345] obtain t where
    "open_socket net_host (Some [104]) 12345 s1 = Some (-1, t)" by blast
  then have exch: "pp_client_exch_dest net_host net_stack [104] 12345 ?my s1 = Some (None, t)"
    by (simp add: pp_client_exch_dest_def)
  show ?thesis
    by (rule client_open_crashes_without_server [OF _ post _ dest])
      (use init(1) exch in \<open>simp_all add: net_handle_def\<close>)
qed

end
