(* ===== verification/BW_Correct.thy ===== *)
theory BW_Correct
  imports BW_Template "HOL-Library.Multiset"
begin

text \<open>
  What the benchmark loops of BW_Template do on an adapter with the documented behaviour of
  a completion queue. A \<open>bw_view\<close> of the adapter names the completions the queue will
  deliver (\<open>pending\<close>) and the number of messages the peer still answers (\<open>answers\<close>).
\<close>

section \<open>The adapter\<close>

record 'w bw_view =
  pending :: "'w \<Rightarrow> ibv_wc list"
  answers :: "'w \<Rightarrow> nat"

definition good_wc :: "ibv_wc \<Rightarrow> bool" where
  "good_wc wc \<longleftrightarrow> wc_status wc = IBV_WC_SUCCESS \<and> wc_wr_id wc \<in> {bw_SEND_WRID, bw_RECV_WRID}"

definition sends_pending :: "ibv_wc list \<Rightarrow> nat" where
  "sends_pending wcs = length (filter (\<lambda>wc. wc_wr_id wc = bw_SEND_WRID) wcs)"

text \<open>Polling returns nothing finitely often, and then at least one completion.\<close>

inductive polls_some ::
  "('w, 'z) verbs_scheme \<Rightarrow> handle \<Rightarrow> int \<Rightarrow> 'w pstate \<Rightarrow> ibv_wc list \<Rightarrow> 'w pstate \<Rightarrow> bool" for V cq k where
  polls_some_now: "ibv_poll_cq V cq k s = ((int (length wcs), wcs), s') \<Longrightarrow> wcs \<noteq> [] \<Longrightarrow>
    polls_some V cq k s wcs s'"
| polls_some_later: "ibv_poll_cq V cq k s = ((0, w), s1) \<Longrightarrow> polls_some V cq k s1 wcs s' \<Longrightarrow>
    polls_some V cq k s wcs s'"

text \<open>A queue that will have completions delivers some of them, in order, at most \<open>k\<close> per poll.\<close>

definition cq_fifo :: "('w, 'z) verbs_scheme \<Rightarrow> handle \<Rightarrow> 'w bw_view \<Rightarrow> bool" where
  "cq_fifo V cq W \<longleftrightarrow>
     (\<forall>k s. 1 \<le> k \<and> pending W (world s) \<noteq> [] \<longrightarrow>
        (\<exists>n s'. 1 \<le> n \<and> int n \<le> k \<and> n \<le> length (pending W (world s)) \<and>
           polls_some V cq k s (take n (pending W (world s))) s' \<and>
           pending W (world s') = drop n (pending W (world s)) \<and>
           answers W (world s') = answers W (world s)))"

text \<open>Receive requests are accepted.\<close>

definition recv_posts :: "('w, 'z) verbs_scheme \<Rightarrow> handle \<Rightarrow> 'w bw_view \<Rightarrow> bool" where
  "recv_posts V q W \<longleftrightarrow>
     (\<forall>wr s. \<exists>s'. ibv_post_recv V q wr s = (0, s') \<and>
        pending W (world s') = pending W (world s) \<and> answers W (world s') = answers W (world s))"

text \<open>
  The send queue has room for \<open>cap\<close> requests and refuses more. An accepted request will
  complete; a message moreover makes the peer answer with a message of its own, as long as
  it answers at all.
\<close>

definition sends_post :: "('w, 'z) verbs_scheme \<Rightarrow> handle \<Rightarrow> 'w bw_view \<Rightarrow> nat \<Rightarrow> bool" where
  "sends_post V q W cap \<longleftrightarrow>
     (\<forall>wr s. send_wr_id wr = bw_SEND_WRID \<longrightarrow>
        (if sends_pending (pending W (world s)) < cap
         then \<exists>s' wc. ibv_post_send V q wr s = (0, s') \<and> good_wc wc \<and> wc_wr_id wc = bw_SEND_WRID \<and>
           (if send_opcode wr = IBV_WR_SEND \<and> 0 < answers W (world s)
            then \<exists>got. good_wc got \<and> wc_wr_id got = bw_RECV_WRID \<and>
              mset (pending W (world s')) = add_mset wc (add_mset got (mset (pending W (world s)))) \<and>
              answers W (world s') = answers W (world s) - 1
            else mset (pending W (world s')) = add_mset wc (mset (pending W (world s))) \<and>
              answers W (world s') = answers W (world s))
         else \<exists>r s'. ibv_post_send V q wr s = (r, s') \<and> r \<noteq> 0 \<and>
           pending W (world s') = pending W (world s) \<and> answers W (world s') = answers W (world s)))"

section \<open>Contexts\<close>

definition bw_ready :: "bw_context \<Rightarrow> bool" where
  "bw_ready ctx \<longleftrightarrow> bw_mr_control_send ctx \<noteq> None \<and> bw_mr_rdma_write ctx \<noteq> None \<and>
     bw_REFILL_RWR_THRES < bw_routs ctx \<and> bw_routs ctx \<le> bw_rx_depth ctx"

text \<open>The benchmark changes nothing in its context but \<open>routs\<close>.\<close>

definition bw_same :: "bw_context \<Rightarrow> bw_context \<Rightarrow> bool" where
  "bw_same ctx ctx' \<longleftrightarrow> ctx' = ctx\<lparr>bw_routs := bw_routs ctx'\<rparr>"

lemma bw_same_refl [simp]: "bw_same ctx ctx"
  by (simp add: bw_same_def)

lemma bw_same_trans: "bw_same a b \<Longrightarrow> bw_same b c \<Longrightarrow> bw_same a c"
  by (cases a; cases b; cases c) (simp add: bw_same_def)

lemma bw_same_update [simp]: "bw_same ctx (ctx\<lparr>bw_routs := r\<rparr>)"
  by (simp add: bw_same_def)

lemma bw_sameD:
  "bw_same ctx ctx' \<Longrightarrow> bw_cq ctx' = bw_cq ctx \<and> bw_qp ctx' = bw_qp ctx \<and>
     bw_mr_control_send ctx' = bw_mr_control_send ctx \<and> bw_mr_rdma_write ctx' = bw_mr_rdma_write ctx \<and>
     bw_rx_depth ctx' = bw_rx_depth ctx"
  unfolding bw_same_def by (metis bw_context.select_convs bw_context.surjective bw_context.update_convs(12))

section \<open>Receiving\<close>

lemma bw_post_recv_loop_all:
  assumes "recv_posts V q W"
  shows "\<exists>s'. bw_post_recv_loop V q wr n i s = (i + int n, s') \<and>
    pending W (world s') = pending W (world s) \<and> answers W (world s') = answers W (world s)"
proof (induction n arbitrary: i s)
  case 0
  show ?case by simp
next
  case (Suc n)
  from assms obtain s1 where s1: "ibv_post_recv V q wr s = (0, s1)"
    "pending W (world s1) = pending W (world s)" "answers W (world s1) = answers W (world s)"
    unfolding recv_posts_def by blast
  from Suc.IH [of "i + 1" s1] s1 show ?case by (auto simp: add.assoc)
qed

lemma bw_post_recv_all:
  assumes "recv_posts V (bw_qp ctx) W" and "bw_mr_control_send ctx = Some mr" and "0 \<le> n"
  shows "\<exists>s'. bw_post_recv V ctx n s = Some (n, s') \<and>
    pending W (world s') = pending W (world s) \<and> answers W (world s') = answers W (world s)"
  using assms bw_post_recv_loop_all [OF assms(1), of _ "nat n" 0 s] by (simp add: bw_post_recv_def)

lemma bw_received_ok:
  assumes "recv_posts V (bw_qp ctx) W" and "bw_ready ctx"
  shows "\<exists>ctx' s'. bw_received V ctx s = Some (0, ctx', s') \<and> bw_same ctx ctx' \<and> bw_ready ctx' \<and>
    pending W (world s') = pending W (world s) \<and> answers W (world s') = answers W (world s)"
proof (cases "bw_routs ctx - 1 \<le> bw_REFILL_RWR_THRES")
  case True
  let ?c = "ctx\<lparr>bw_routs := bw_routs ctx - 1\<rparr>"
  from assms obtain mr where "bw_mr_control_send ctx = Some mr" by (auto simp: bw_ready_def)
  with assms obtain s' where "bw_post_recv V ?c (bw_rx_depth ?c - bw_routs ?c) s =
      Some (bw_rx_depth ?c - bw_routs ?c, s')"
    "pending W (world s') = pending W (world s)" "answers W (world s') = answers W (world s)"
    using bw_post_recv_all [of V ?c W mr "bw_rx_depth ?c - bw_routs ?c" s] by (auto simp: bw_ready_def)
  with True assms show ?thesis by (auto simp: bw_received_def bw_ready_def)
next
  case False
  with assms show ?thesis by (auto simp: bw_received_def bw_ready_def)
qed

lemma bw_check_wcs_good:
  assumes "recv_posts V (bw_qp ctx) W" and "bw_ready ctx" and "\<forall>wc \<in> set wcs. good_wc wc"
  shows "\<exists>ctx' rcnt' scnt' s'. bw_check_wcs V (length wcs) wcs ctx rcnt scnt s = Some (0, ctx', rcnt', scnt', s') \<and>
    rcnt' + scnt' = rcnt + scnt + int (length wcs) \<and> bw_same ctx ctx' \<and> bw_ready ctx' \<and>
    pending W (world s') = pending W (world s) \<and> answers W (world s') = answers W (world s)"
  using assms
proof (induction wcs arbitrary: ctx rcnt scnt s)
  case Nil
  then show ?case by simp
next
  case (Cons wc wcs)
  show ?case
  proof (cases "wc_wr_id wc = bw_SEND_WRID")
    case True
    with Cons.prems Cons.IH [OF Cons.prems(1,2), of rcnt "scnt + 1" s] show ?thesis
      by (auto simp: good_wc_def)
  next
    case False
    from bw_received_ok [OF Cons.prems(1,2)] obtain c1 s1 where
      step: "bw_received V ctx s = Some (0, c1, s1)" "bw_same ctx c1" "bw_ready c1"
        "pending W (world s1) = pending W (world s)" "answers W (world s1) = answers W (world s)" by metis
    moreover from Cons.prems(1) step(2) have "recv_posts V (bw_qp c1) W" by (simp add: bw_sameD)
    ultimately show ?thesis
      using False Cons.prems(3) Cons.IH [of c1 "rcnt + 1" scnt s1]
      by (auto simp: good_wc_def bw_SEND_WRID_def bw_RECV_WRID_def intro: bw_same_trans)
  qed
qed

section \<open>Waiting\<close>

lemma poll_send_some_polls_some:
  "polls_some V cq k s wcs s' \<Longrightarrow> poll_send_some V cq k s = Some ((int (length wcs), wcs), s')"
proof (induction rule: polls_some.induct)
  case (polls_some_now s wcs s')
  moreover from polls_some_now have "1 \<le> int (length wcs)" by (cases wcs) auto
  ultimately show ?case by (subst poll_send_some.simps) simp
next
  case (polls_some_later s w s1 wcs s')
  then show ?case by (subst poll_send_some.simps) simp
qed

lemma bw_wait_loop_takes:
  assumes "cq_fifo V (bw_cq ctx) W" and "recv_posts V (bw_qp ctx) W" and "bw_ready ctx"
    and "\<forall>wc \<in> set (pending W (world s)). good_wc wc"
    and "iters - (rcnt + scnt) = int m" and "m \<le> length (pending W (world s))"
  shows "\<exists>ctx' s'. bw_wait_loop V iters ctx rcnt scnt s = Some (0, ctx', s') \<and>
    bw_same ctx ctx' \<and> bw_ready ctx' \<and> pending W (world s') = drop m (pending W (world s)) \<and>
    answers W (world s') = answers W (world s)"
  using assms
proof (induction m arbitrary: ctx rcnt scnt s rule: less_induct)
  case (less m)
  show ?case
  proof (cases "m = 0")
    case True
    with less.prems show ?thesis by (subst bw_wait_loop.simps) auto
  next
    case False
    define k where "k = (if bw_WC_BATCH > iters - rcnt - scnt then iters - rcnt - scnt else bw_WC_BATCH)"
    from False less.prems(5) have k: "1 \<le> k" "k \<le> int m" by (auto simp: k_def bw_WC_BATCH_def)
    from False less.prems(6) have "pending W (world s) \<noteq> []" by auto
    with less.prems(1) k(1) obtain n s1 where n: "1 \<le> n" "int n \<le> k" "n \<le> length (pending W (world s))"
      and "polls_some V (bw_cq ctx) k s (take n (pending W (world s))) s1"
      and s1: "pending W (world s1) = drop n (pending W (world s))" "answers W (world s1) = answers W (world s)"
      unfolding cq_fifo_def by blast
    then have poll: "poll_send_some V (bw_cq ctx) k s = Some ((int n, take n (pending W (world s))), s1)"
      by (simp add: poll_send_some_polls_some)
    have len: "length (take n (pending W (world s))) = n" using n(3) by simp
    have "\<forall>wc \<in> set (take n (pending W (world s))). good_wc wc"
      using less.prems(4) by (meson in_set_takeD)
    from bw_check_wcs_good [OF less.prems(2,3) this, of rcnt scnt s1] len obtain c2 rcnt2 scnt2 s2 where
      chk: "bw_check_wcs V n (take n (pending W (world s))) ctx rcnt scnt s1 = Some (0, c2, rcnt2, scnt2, s2)"
        "rcnt2 + scnt2 = rcnt + scnt + int n" "bw_same ctx c2" "bw_ready c2"
        "pending W (world s2) = pending W (world s1)" "answers W (world s2) = answers W (world s1)" by metis
    have "bw_wait_loop V iters ctx rcnt scnt s = bw_wait_loop V iters c2 rcnt2 scnt2 s2"
      using False less.prems(5) poll chk(1) by (subst bw_wait_loop.simps) (simp add: k_def)
    moreover have "\<exists>ctx' s'. bw_wait_loop V iters c2 rcnt2 scnt2 s2 = Some (0, ctx', s') \<and>
      bw_same c2 ctx' \<and> bw_ready ctx' \<and> pending W (world s') = drop (m - n) (pending W (world s2)) \<and>
      answers W (world s') = answers W (world s2)"
    proof (rule less.IH)
      show "m - n < m" using n(1) False by simp
      show "cq_fifo V (bw_cq c2) W" "recv_posts V (bw_qp c2) W"
        using less.prems(1,2) chk(3) by (simp_all add: bw_sameD)
      show "bw_ready c2" by (rule chk(4))
      show "\<forall>wc \<in> set (pending W (world s2)). good_wc wc"
        using less.prems(4) by (metis chk(5) s1(1) in_set_dropD)
      show "iters - (rcnt2 + scnt2) = int (m - n)" using chk(2) less.prems(5) n(2) k(2) by simp
      show "m - n \<le> length (pending W (world s2))" using chk(5) s1(1) less.prems(6) by simp
    qed
    ultimately show ?thesis using chk(3,5,6) s1 n(2) k(2) by (auto intro: bw_same_trans)
  qed
qed

text \<open>\<open>bw_at W ctx s n a\<close>: the queue will deliver \<open>n\<close> completions, all good, and the peer \<open>a\<close> answers.\<close>

definition bw_at :: "'w bw_view \<Rightarrow> 'w pstate \<Rightarrow> nat \<Rightarrow> nat \<Rightarrow> bool" where
  "bw_at W s n a \<longleftrightarrow> (\<forall>wc \<in> set (pending W (world s)). good_wc wc) \<and>
     length (pending W (world s)) = n \<and> answers W (world s) = a"

text \<open>All completions to come are those of send requests.\<close>

definition only_sends :: "'w bw_view \<Rightarrow> 'w pstate \<Rightarrow> bool" where
  "only_sends W s \<longleftrightarrow> (\<forall>wc \<in> set (pending W (world s)). wc_wr_id wc = bw_SEND_WRID)"

definition bw_adapter :: "('w, 'z) verbs_scheme \<Rightarrow> 'w bw_view \<Rightarrow> nat \<Rightarrow> bw_context \<Rightarrow> bool" where
  "bw_adapter V W cap ctx \<longleftrightarrow> cq_fifo V (bw_cq ctx) W \<and> recv_posts V (bw_qp ctx) W \<and>
     sends_post V (bw_qp ctx) W cap \<and> bw_ready ctx"

lemma bw_adapter_same: "bw_adapter V W cap ctx \<Longrightarrow> bw_same ctx ctx' \<Longrightarrow> bw_ready ctx' \<Longrightarrow> bw_adapter V W cap ctx'"
  by (simp add: bw_adapter_def bw_sameD)

lemma wait_takes:
  assumes "bw_adapter V W cap ctx" and "bw_at W s n a" and "0 \<le> iters" and "nat iters \<le> n"
  shows "\<exists>ctx' s'. pp_wait_completions V ctx iters s = Some (0, ctx', s') \<and> bw_same ctx ctx' \<and>
    bw_adapter V W cap ctx' \<and> bw_at W s' (n - nat iters) a \<and> (only_sends W s \<longrightarrow> only_sends W s')"
proof -
  from assms obtain c' s' where w: "bw_wait_loop V iters ctx 0 0 s = Some (0, c', s')" "bw_same ctx c'" "bw_ready c'"
    "pending W (world s') = drop (nat iters) (pending W (world s))" "answers W (world s') = answers W (world s)"
    using bw_wait_loop_takes [of V ctx W s iters 0 0 "nat iters"]
    by (auto simp: bw_adapter_def bw_at_def)
  then show ?thesis using assms
    by (auto simp: pp_wait_completions_def bw_at_def only_sends_def dest: in_set_dropD intro: bw_adapter_same)
qed

section \<open>Posting\<close>

lemma sends_pending_le: "sends_pending wcs \<le> length wcs"
  by (simp add: sends_pending_def)

lemma sends_post_accepts:
  assumes "sends_post V q W cap" and "bw_at W s n a" and "n < cap" and "send_wr_id wr = bw_SEND_WRID"
  shows "\<exists>s'. ibv_post_send V q wr s = (0, s') \<and>
    (if send_opcode wr = IBV_WR_SEND \<and> 0 < a then bw_at W s' (n + 2) (a - 1)
     else bw_at W s' (n + 1) a \<and> (only_sends W s \<longrightarrow> only_sends W s'))"
proof -
  have room: "sends_pending (pending W (world s)) < cap"
    using assms(2,3) sends_pending_le [of "pending W (world s)"] by (simp add: bw_at_def)
  note post = assms(1) [unfolded sends_post_def, rule_format, OF assms(4), of s, unfolded if_P [OF room]]
  have at: "bw_at W s' (size M) a'"
    if "mset (pending W (world s')) = M" "\<forall>wc \<in># M. good_wc wc" "answers W (world s') = a'" for s' M a'
    using that by (auto simp: bw_at_def simp flip: size_mset set_mset_mset)
  show ?thesis
  proof (cases "send_opcode wr = IBV_WR_SEND \<and> 0 < a")
    case True
    with post assms(2) obtain s' wc got where p: "ibv_post_send V q wr s = (0, s')" "good_wc wc" "good_wc got"
      "mset (pending W (world s')) = add_mset wc (add_mset got (mset (pending W (world s))))"
      "answers W (world s') = a - 1"
      by (auto simp: bw_at_def)
    with True assms(2) at [OF p(4)] show ?thesis by (auto simp: bw_at_def)
  next
    case False
    with post assms(2) obtain s' wc where p: "ibv_post_send V q wr s = (0, s')" "good_wc wc"
      "mset (pending W (world s')) = add_mset wc (mset (pending W (world s)))"
      "answers W (world s') = a" "wc_wr_id wc = bw_SEND_WRID"
      by (auto simp: bw_at_def split: if_splits)
    moreover from p(3) have "set (pending W (world s')) = insert wc (set (pending W (world s)))"
      by (metis set_mset_add_mset_insert set_mset_mset)
    ultimately show ?thesis using False assms(2) at [OF p(3)] by (auto simp: bw_at_def only_sends_def)
  qed
qed

lemma post_write_accepted:
  assumes "bw_adapter V W cap ctx" and "bw_at W s n a" and "n < cap"
  shows "\<exists>s'. bw_post_rdma_write V ctx dest sz s = Some (0, s') \<and> bw_at W s' (n + 1) a \<and>
    (only_sends W s \<longrightarrow> only_sends W s')"
proof -
  from assms(1) obtain mr where "bw_mr_rdma_write ctx = Some mr" by (auto simp: bw_adapter_def bw_ready_def)
  moreover from assms have "\<exists>s'. ibv_post_send V (bw_qp ctx) wr s = (0, s') \<and> bw_at W s' (n + 1) a \<and>
      (only_sends W s \<longrightarrow> only_sends W s')"
    if "send_opcode wr = IBV_WR_RDMA_WRITE" "send_wr_id wr = bw_SEND_WRID" for wr
    using that sends_post_accepts [of V "bw_qp ctx" W cap s n a wr] by (auto simp: bw_adapter_def)
  ultimately show ?thesis by (simp add: bw_post_rdma_write_def)
qed

lemma post_send_accepted:
  assumes "bw_adapter V W cap ctx" and "bw_at W s n a" and "n < cap"
  shows "\<exists>s'. bw_post_send V ctx s = Some (0, s') \<and>
    bw_at W s' (if 0 < a then n + 2 else n + 1) (a - 1)"
proof -
  from assms(1) obtain mr where "bw_mr_control_send ctx = Some mr" by (auto simp: bw_adapter_def bw_ready_def)
  moreover from assms have "\<exists>s'. ibv_post_send V (bw_qp ctx) wr s = (0, s') \<and>
      bw_at W s' (if 0 < a then n + 2 else n + 1) (a - 1)"
    if "send_opcode wr = IBV_WR_SEND" "send_wr_id wr = bw_SEND_WRID" for wr
    using that sends_post_accepts [of V "bw_qp ctx" W cap s n a wr]
    by (cases "0 < a") (auto simp: bw_adapter_def)
  ultimately show ?thesis by (simp add: bw_post_send_def)
qed

lemma post_send_first:
  assumes "bw_adapter V W cap ctx" and "bw_at W s 0 a" and "0 < cap"
  shows "\<exists>s'. bw_post_send V ctx s = Some (0, s') \<and> bw_at W s' (if 0 < a then 2 else 1) (a - 1)"
  using post_send_accepted [OF assms] by (cases "0 < a") (simp_all add: numeral_2_eq_2)

section \<open>Trials\<close>

lemma batch_start:
  assumes "0 < t" and "0 < i"
  shows "i div t * t = (if i mod t = 0 then (i - 1) div t * t + t else (i - 1) div t * (t :: int))"
proof -
  obtain j m where i: "i = int (Suc j)" and t: "t = int m"
    using assms by (metis gr0_implies_Suc less_imp_le nonneg_int_cases of_nat_0_less_iff)
  then have "i div t = int (Suc j div m)" "i mod t = int (Suc j mod m)" "(i - 1) div t = int (j div m)"
    by (simp_all only: zdiv_int zmod_int) simp
  with t show ?thesis by (simp add: div_Suc algebra_simps)
qed

text \<open>
  The client's loop: with at most \<open>tx_depth\<close> requests in flight it posts them all. \<open>c\<close> is
  \<open>num_complete\<close>, the number of completions taken so far.
\<close>

lemma client_writes_run:
  assumes "bw_adapter V W cap ctx" and "bw_at W s p a" and "0 < tx_depth" and "nat tx_depth \<le> cap"
    and "0 \<le> i" and "p = nat (i - c)" and "c = (if i = 0 then 0 else (i - 1) div tx_depth * tx_depth)"
  shows "\<exists>ctx' c' s'. bw_client_writes V dest sz tx_depth n i ctx c s = Some (0, ctx', c', s') \<and>
    bw_same ctx ctx' \<and> bw_adapter V W cap ctx' \<and>
    c' = (if i + int n = 0 then 0 else (i + int n - 1) div tx_depth * tx_depth) \<and>
    bw_at W s' (nat (i + int n - c')) a \<and> (only_sends W s \<longrightarrow> only_sends W s')"
  using assms
proof (induction n arbitrary: ctx s p i c)
  case 0
  then show ?case by - (rule exI [of _ ctx], rule exI [of _ c], rule exI [of _ s], simp)
next
  case (Suc n)
  let ?tx = tx_depth
  define c1 where "c1 = (if i \<noteq> 0 \<and> i mod ?tx = 0 then c + ?tx else c)"
  have c1: "c1 = i div ?tx * ?tx"
    using Suc.prems(3,5,7) batch_start [of ?tx i] by (auto simp: c1_def)
  have before: "\<exists>ctx1 s1. (if i \<noteq> 0 then
               if ?tx = 0 then None
               else if i mod ?tx = 0 then
                 do { (_, ctx, s) \<leftarrow> pp_wait_completions V ctx ?tx s; Some (ctx, c + ?tx, s) }
               else Some (ctx, c, s)
             else Some (ctx, c, s)) = Some (ctx1, c1, s1) \<and>
      bw_same ctx ctx1 \<and> bw_adapter V W cap ctx1 \<and> bw_at W s1 (nat (i - c1)) a \<and>
      (only_sends W s \<longrightarrow> only_sends W s1)"
  proof (cases "i \<noteq> 0 \<and> i mod ?tx = 0")
    case True
    with c1 have "i - c = ?tx" by (auto simp: c1_def)
    with Suc.prems wait_takes [OF Suc.prems(1,2), of ?tx] obtain ctx1 s1 where
      "pp_wait_completions V ctx ?tx s = Some (0, ctx1, s1)" "bw_same ctx ctx1" "bw_adapter V W cap ctx1"
      "bw_at W s1 0 a" "only_sends W s \<longrightarrow> only_sends W s1" by auto
    with True Suc.prems(3) \<open>i - c = ?tx\<close> show ?thesis by (simp add: c1_def)
  next
    case False
    with Suc.prems show ?thesis by (auto simp: c1_def)
  qed
  then obtain ctx1 s1 where b: "(if i \<noteq> 0 then
               if ?tx = 0 then None
               else if i mod ?tx = 0 then
                 do { (_, ctx, s) \<leftarrow> pp_wait_completions V ctx ?tx s; Some (ctx, c + ?tx, s) }
               else Some (ctx, c, s)
             else Some (ctx, c, s)) = Some (ctx1, c1, s1)"
      "bw_same ctx ctx1" "bw_adapter V W cap ctx1" "bw_at W s1 (nat (i - c1)) a"
      "only_sends W s \<longrightarrow> only_sends W s1" by blast
  have rest: "0 \<le> i - c1" "i - c1 < ?tx"
    using c1 Suc.prems(3) by (simp_all add: minus_div_mult_eq_mod)
  then have "nat (i - c1) < cap" using Suc.prems(4) by linarith
  from post_write_accepted [OF b(3,4) this] obtain s2 where
    w: "bw_post_rdma_write V ctx1 dest sz s1 = Some (0, s2)" "bw_at W s2 (nat (i - c1) + 1) a"
      "only_sends W s1 \<longrightarrow> only_sends W s2" by blast
  have "nat (i - c1) + 1 = nat (i + 1 - c1)" using rest by simp
  moreover have "c1 = (if i + 1 = 0 then 0 else (i + 1 - 1) div ?tx * ?tx)" using c1 Suc.prems(5) by simp
  ultimately obtain ctx' c' s' where
    "bw_client_writes V dest sz ?tx n (i + 1) ctx1 c1 s2 = Some (0, ctx', c', s')"
    "bw_same ctx1 ctx'" "bw_adapter V W cap ctx'"
    "c' = (if i + 1 + int n = 0 then 0 else (i + 1 + int n - 1) div ?tx * ?tx)"
    "bw_at W s' (nat (i + 1 + int n - c')) a" "only_sends W s2 \<longrightarrow> only_sends W s'"
    using Suc.IH [OF b(3) w(2) Suc.prems(3,4), of "i + 1" c1] Suc.prems(5) by auto
  with b(1,2,5) w(1,3) show ?case by (auto simp: algebra_simps intro: bw_same_trans)
qed

lemma client_trial_run:
  assumes "bw_adapter V W cap ctx" and "bw_at W s 0 a" and "0 < a" and "0 < tx_depth" and "0 \<le> iters"
    and "nat tx_depth + (if 0 < iters \<and> iters mod tx_depth = 0 then 1 else 0) \<le> cap"
  shows "\<exists>ctx' s'. bw_client_trial V ctx tx_depth iters dest sz s = Some (0, ctx', s') \<and>
    bw_same ctx ctx' \<and> bw_adapter V W cap ctx' \<and> bw_at W s' 0 (a - 1)"
proof -
  define c where "c = (if iters = 0 then 0 else (iters - 1) div tx_depth * tx_depth)"
  have c: "0 \<le> iters - c" "iters - c \<le> tx_depth"
    "iters mod tx_depth \<noteq> 0 \<or> iters = 0 \<Longrightarrow> iters - c < tx_depth"
    using assms(4,5) batch_start [of tx_depth iters] pos_mod_bound [OF assms(4), of iters]
      pos_mod_sign [OF assms(4), of iters] minus_div_mult_eq_mod [of iters tx_depth]
    by (cases "iters = 0"; cases "iters mod tx_depth = 0"; force simp: c_def)+
  have n: "0 + int (nat iters) = iters" using assms(5) by simp
  from client_writes_run [OF assms(1,2,4), of 0 0 dest sz "nat iters", unfolded n, folded c_def] assms(4-6)
  obtain c1 s1 where
    w: "bw_client_writes V dest sz tx_depth (nat iters) 0 ctx 0 s = Some (0, c1, c, s1)"
      "bw_same ctx c1" "bw_adapter V W cap c1" "bw_at W s1 (nat (iters - c)) a"
    by (auto split: if_splits)
  have "nat (iters - c) < cap" using c assms(4-6) by (cases "iters mod tx_depth = 0 \<and> iters \<noteq> 0") (auto split: if_splits)
  from post_send_accepted [OF w(3,4) this] assms(3) obtain s2 where
    p: "bw_post_send V c1 s1 = Some (0, s2)" "bw_at W s2 (nat (iters - c) + 2) (a - 1)" by auto
  from wait_takes [OF w(3) p(2), of "iters - c + 2"] c(1) obtain c3 s3 where
    "pp_wait_completions V c1 (iters - c + 2) s2 = Some (0, c3, s3)" "bw_same c1 c3" "bw_adapter V W cap c3"
    "bw_at W s3 0 (a - 1)" by (auto simp: nat_add_distrib)
  with w(1,2) p(1) show ?thesis by (auto simp: bw_client_trial_def intro: bw_same_trans)
qed

lemma server_trial_run:
  assumes "bw_adapter V W cap ctx" and "bw_at W s 1 a" and "0 < cap"
  shows "\<exists>ctx' s'. bw_server_trial V ctx s = Some (0, ctx', s') \<and>
    bw_same ctx ctx' \<and> bw_adapter V W cap ctx' \<and> bw_at W s' (if 0 < a then 1 else 0) (a - 1)"
proof -
  from wait_takes [OF assms(1,2), of 1] obtain c1 s1 where
    w: "pp_wait_completions V ctx 1 s = Some (0, c1, s1)" "bw_same ctx c1" "bw_adapter V W cap c1"
      "bw_at W s1 0 a" by auto
  from post_send_first [OF w(3,4) assms(3)] obtain s2 where
    p: "bw_post_send V c1 s1 = Some (0, s2)" "bw_at W s2 (if 0 < a then 2 else 1) (a - 1)" by blast
  from wait_takes [OF w(3) p(2), of 1] obtain c3 s3 where
    "pp_wait_completions V c1 1 s2 = Some (0, c3, s3)" "bw_same c1 c3" "bw_adapter V W cap c3"
    "bw_at W s3 (if 0 < a then 1 else 0) (a - 1)" by (cases "0 < a") auto
  with w(1,2) p(1) show ?thesis by (auto simp: bw_server_trial_def intro: bw_same_trans)
qed

lemma client_trials_run:
  assumes "bw_adapter V W cap ctx" and "bw_at W s 0 a" and "length sizes \<le> a" and "0 < tx_depth"
    and "0 \<le> iters" and "nat tx_depth + (if 0 < iters \<and> iters mod tx_depth = 0 then 1 else 0) \<le> cap"
  shows "\<exists>ctx' s'. bw_trials V True tx_depth iters dest sizes ctx s = Some (ctx', s') \<and>
    bw_same ctx ctx' \<and> bw_adapter V W cap ctx' \<and> bw_at W s' 0 (a - length sizes)"
  using assms
proof (induction sizes arbitrary: ctx s a)
  case Nil
  then show ?case by simp
next
  case (Cons sz sizes)
  from client_trial_run [OF Cons.prems(1,2) _ Cons.prems(4-6), of dest sz] Cons.prems(3) obtain c1 s1 where
    t: "bw_client_trial V ctx tx_depth iters dest sz s = Some (0, c1, s1)" "bw_same ctx c1"
      "bw_adapter V W cap c1" "bw_at W s1 0 (a - 1)" by auto
  moreover from Cons.prems(3) have "length sizes \<le> a - 1" by simp
  ultimately show ?case using Cons.IH [OF t(3,4) _ Cons.prems(4-6)]
    by (auto simp: perform_single_experiment_def intro: bw_same_trans)
qed

lemma server_trials_run:
  assumes "bw_adapter V W cap ctx" and "bw_at W s 1 a" and "length sizes \<le> a + 1" and "0 < cap"
  shows "\<exists>ctx' s'. bw_trials V False tx_depth iters dest sizes ctx s = Some (ctx', s') \<and>
    bw_same ctx ctx' \<and> bw_adapter V W cap ctx' \<and>
    bw_at W s' (if length sizes \<le> a then 1 else 0) (a - length sizes)"
  using assms
proof (induction sizes arbitrary: ctx s a)
  case Nil
  then show ?case by simp
next
  case (Cons sz sizes)
  from server_trial_run [OF Cons.prems(1,2,4)] obtain c1 s1 where
    t: "bw_server_trial V ctx s = Some (0, c1, s1)" "bw_same ctx c1" "bw_adapter V W cap c1"
      "bw_at W s1 (if 0 < a then 1 else 0) (a - 1)" by blast
  show ?case
  proof (cases "0 < a")
    case True
    then have "length sizes \<le> a - 1 \<longleftrightarrow> length (sz # sizes) \<le> a" by auto
    with True t Cons.IH [OF t(3) _ _ Cons.prems(4), of s1 "a - 1"] Cons.prems(3) show ?thesis
      by (auto simp: perform_single_experiment_def split: if_splits intro: bw_same_trans)
  next
    case False
    with t Cons.prems(3) show ?thesis by (auto simp: perform_single_experiment_def)
  qed
qed

lemma client_latency_run:
  assumes "bw_adapter V W cap ctx" and "bw_at W s 0 a" and "n \<le> a" and "0 < cap"
  shows "\<exists>ctx' s'. bw_latency_loop V True iters n i ctx s = Some (0, ctx', s') \<and>
    bw_same ctx ctx' \<and> bw_adapter V W cap ctx' \<and> bw_at W s' 0 (a - n)"
  using assms
proof (induction n arbitrary: ctx s a i)
  case 0
  then show ?case by simp
next
  case (Suc n)
  from post_send_first [OF Suc.prems(1,2,4)] Suc.prems(3) obtain s1 where
    p: "bw_post_send V ctx s = Some (0, s1)" "bw_at W s1 2 (a - 1)" by auto
  from wait_takes [OF Suc.prems(1) p(2), of 2] obtain c2 s2 where
    w: "pp_wait_completions V ctx 2 s1 = Some (0, c2, s2)" "bw_same ctx c2" "bw_adapter V W cap c2"
      "bw_at W s2 0 (a - 1)" by auto
  moreover from Suc.prems(3) have "n \<le> a - 1" by simp
  ultimately show ?case using Suc.IH [OF w(3,4) _ Suc.prems(4), of "i + 1"] p(1)
    by (auto intro: bw_same_trans)
qed

text \<open>
  On the server, before iteration \<open>i\<close> one completion is due if \<open>i = 0\<close> (the first message),
  and none later, because the wait after each answer also takes the next message.
\<close>

lemma server_latency_run:
  assumes "bw_adapter V W cap ctx" and "bw_at W s (if i = 0 then 1 else 0) a" and "n \<le> a + 1" and "0 < cap"
    and "0 \<le> i" and "iters = i + int n" and "0 < n"
  shows "\<exists>ctx' s'. bw_latency_loop V False iters n i ctx s = Some (0, ctx', s') \<and>
    bw_same ctx ctx' \<and> bw_adapter V W cap ctx' \<and> bw_at W s' (if n \<le> a then 1 else 0) (a - n)"
  using assms
proof (induction n arbitrary: ctx s a i)
  case 0
  then show ?case by simp
next
  case (Suc n)
  have "\<exists>c1 s1. (if i = 0 then do { (_, ctx, s) \<leftarrow> pp_wait_completions V ctx 1 s; Some (ctx, s) }
      else Some (ctx, s)) = Some (c1, s1) \<and> bw_same ctx c1 \<and> bw_adapter V W cap c1 \<and> bw_at W s1 0 a"
    using wait_takes [OF Suc.prems(1), of s 1 a 1] Suc.prems(1,2) by auto
  then obtain c1 s1 where first: "(if i = 0 then do { (_, ctx, s) \<leftarrow> pp_wait_completions V ctx 1 s; Some (ctx, s) }
      else Some (ctx, s)) = Some (c1, s1)" "bw_same ctx c1" "bw_adapter V W cap c1" "bw_at W s1 0 a" by blast
  from post_send_first [OF first(3,4) Suc.prems(4)] obtain s2 where
    p: "bw_post_send V c1 s1 = Some (0, s2)" "bw_at W s2 (if 0 < a then 2 else 1) (a - 1)" by blast
  show ?case
  proof (cases "n = 0")
    case True
    with Suc.prems(6) have "i = iters - 1" by simp
    moreover from wait_takes [OF first(3) p(2), of 1] obtain c3 s3 where
      "pp_wait_completions V c1 1 s2 = Some (0, c3, s3)" "bw_same c1 c3" "bw_adapter V W cap c3"
      "bw_at W s3 (if 0 < a then 1 else 0) (a - 1)" by (cases "0 < a") auto
    ultimately show ?thesis using True first p(1) by (auto intro: bw_same_trans)
  next
    case False
    with Suc.prems(3,6) have "i \<noteq> iters - 1" "0 < a" by auto
    moreover from wait_takes [OF first(3) p(2), of 2] \<open>0 < a\<close> obtain c3 s3 where
      w: "pp_wait_completions V c1 2 s2 = Some (0, c3, s3)" "bw_same c1 c3" "bw_adapter V W cap c3"
        "bw_at W s3 0 (a - 1)" by auto
    moreover from \<open>0 < a\<close> have "n \<le> a - 1 \<longleftrightarrow> Suc n \<le> a" by auto
    moreover from this Suc.IH [OF w(3) _ _ Suc.prems(4), of s3 "i + 1" "a - 1"] w(4) Suc.prems(3,5,6) False \<open>0 < a\<close>
    obtain c4 s4 where "bw_latency_loop V False iters n (i + 1) c3 s3 = Some (0, c4, s4)"
      "bw_same c3 c4" "bw_adapter V W cap c4" "bw_at W s4 (if Suc n \<le> a then 1 else 0) (a - Suc n)"
      by (auto split: if_splits)
    ultimately show ?thesis using first p(1) by (auto intro: bw_same_trans)
  qed
qed

section \<open>The whole benchmark\<close>

lemma client_tests_run:
  assumes "bw_adapter V W cap ctx" and "bw_at W s 0 (nat (NUM_OF_WARMUP + iters) + length list_message_sizes + a)"
    and "0 < tx_depth" and "0 \<le> iters"
    and "nat tx_depth + (if 0 < iters \<and> iters mod tx_depth = 0 then 1 else 0) \<le> cap"
  shows "\<exists>ctx' s'. bw_tests V True ctx tx_depth iters dest s = Some (ctx', s') \<and>
    bw_same ctx ctx' \<and> bw_adapter V W cap ctx' \<and> bw_at W s' 0 a"
proof -
  let ?b = "nat iters + length list_message_sizes + a"
  have cap: "0 < cap" using assms(3,5) by linarith
  have "nat (NUM_OF_WARMUP + iters) + length list_message_sizes + a = nat NUM_OF_WARMUP + ?b"
    using assms(4) by (simp add: NUM_OF_WARMUP_def)
  with assms(2) client_latency_run [OF assms(1) _ _ cap, of s _ "nat NUM_OF_WARMUP" NUM_OF_WARMUP 0]
  obtain c1 s1 where l1: "bw_latency_loop V True NUM_OF_WARMUP (nat NUM_OF_WARMUP) 0 ctx s = Some (0, c1, s1)"
    "bw_same ctx c1" "bw_adapter V W cap c1" "bw_at W s1 0 ?b" by fastforce
  from client_trials_run [OF l1(3,4) _ assms(3-5), of list_message_sizes dest] obtain c2 s2 where
    t: "bw_trials V True tx_depth iters dest list_message_sizes c1 s1 = Some (c2, s2)" "bw_same c1 c2"
      "bw_adapter V W cap c2" "bw_at W s2 0 (nat iters + a)" by auto
  from client_latency_run [OF t(3,4) _ cap, of "nat iters" iters 0] obtain c3 s3 where
    "bw_latency_loop V True iters (nat iters) 0 c2 s2 = Some (0, c3, s3)" "bw_same c2 c3"
    "bw_adapter V W cap c3" "bw_at W s3 0 a" by auto
  with l1 t show ?thesis
    by (auto simp: bw_tests_def latency_test_def bw_throughput_test_def intro: bw_same_trans [OF bw_same_trans])
qed

lemma server_tests_run:
  assumes "bw_adapter V W cap ctx" and "0 < cap" and "0 < iters"
    and "bw_at W s 1 (nat (NUM_OF_WARMUP + iters) + length list_message_sizes - 1)"
  shows "\<exists>ctx' s'. bw_tests V False ctx tx_depth iters dest s = Some (ctx', s') \<and>
    bw_same ctx ctx' \<and> bw_adapter V W cap ctx' \<and> bw_at W s' 0 0"
proof -
  let ?b = "nat iters + length list_message_sizes - 1"
  have split: "nat (NUM_OF_WARMUP + iters) + length list_message_sizes - 1 = nat NUM_OF_WARMUP + ?b"
    using assms(3) by (simp add: NUM_OF_WARMUP_def list_message_sizes_def)
  have pos: "0 < nat NUM_OF_WARMUP" "0 < nat iters" using assms(3) by (simp_all add: NUM_OF_WARMUP_def)
  have "\<exists>c1 s1. bw_latency_loop V False NUM_OF_WARMUP (nat NUM_OF_WARMUP) 0 ctx s = Some (0, c1, s1) \<and>
    bw_same ctx c1 \<and> bw_adapter V W cap c1 \<and> bw_at W s1 1 ?b"
    using server_latency_run [OF assms(1) _ _ assms(2), of s 0 "nat NUM_OF_WARMUP + ?b" "nat NUM_OF_WARMUP" NUM_OF_WARMUP]
      assms(4) pos(1) unfolding split by simp
  then obtain c1 s1 where l1: "bw_latency_loop V False NUM_OF_WARMUP (nat NUM_OF_WARMUP) 0 ctx s = Some (0, c1, s1)"
    "bw_same ctx c1" "bw_adapter V W cap c1" "bw_at W s1 1 ?b" by blast
  have "length list_message_sizes \<le> ?b" "?b - length list_message_sizes = nat iters - 1" using pos(2) by simp_all
  with server_trials_run [OF l1(3,4) _ assms(2), of list_message_sizes tx_depth iters dest] obtain c2 s2 where
    t: "bw_trials V False tx_depth iters dest list_message_sizes c1 s1 = Some (c2, s2)" "bw_same c1 c2"
      "bw_adapter V W cap c2" "bw_at W s2 1 (nat iters - 1)" by auto
  have last: "\<not> nat iters \<le> nat iters - 1" using pos(2) by simp
  have "\<exists>c3 s3. bw_latency_loop V False iters (nat iters) 0 c2 s2 = Some (0, c3, s3) \<and>
    bw_same c2 c3 \<and> bw_adapter V W cap c3 \<and> bw_at W s3 0 0"
    using server_latency_run [OF t(3) _ _ assms(2), of s2 0 "nat iters - 1" "nat iters" iters] t(4) pos(2) assms(3)
    unfolding if_not_P [OF last] by simp
  with l1 t show ?thesis
    by (auto simp: bw_tests_def latency_test_def bw_throughput_test_def intro: bw_same_trans [OF bw_same_trans])
qed

text \<open>
  A number of writes that is a multiple of \<open>tx_depth\<close> leaves \<open>tx_depth\<close> of them in flight
  when the control message is posted, one more than the send queue holds.
\<close>

lemma client_trial_overrun:
  assumes "bw_adapter V W (nat tx_depth) ctx" and "bw_at W s 0 a" and "0 < tx_depth" and "0 < iters"
    and "iters mod tx_depth = 0"
  shows "\<exists>ctx' s'. bw_client_trial V ctx tx_depth iters dest sz s = Some (1, ctx', s') \<and>
    bw_at W s' (nat tx_depth) a"
proof -
  define c where "c = (iters - 1) div tx_depth * tx_depth"
  have c: "iters - c = tx_depth"
    using batch_start [OF assms(3,4)] minus_div_mult_eq_mod [of iters tx_depth] assms(5) by (simp add: c_def)
  have n: "0 + int (nat iters) = iters" using assms(4) by simp
  have "only_sends W s" using assms(2) by (simp add: only_sends_def bw_at_def)
  with client_writes_run [OF assms(1,2,3), of 0 0 dest sz "nat iters", unfolded n, folded c_def] assms(4)
  obtain c1 s1 where
    w: "bw_client_writes V dest sz tx_depth (nat iters) 0 ctx 0 s = Some (0, c1, c, s1)"
      "bw_adapter V W (nat tx_depth) c1" "bw_at W s1 (nat tx_depth) a" "only_sends W s1"
    by (auto simp: c split: if_splits)
  from w(3,4) have "sends_pending (pending W (world s1)) = nat tx_depth"
    by (auto simp: sends_pending_def only_sends_def bw_at_def)
  then have full: "\<not> sends_pending (pending W (world s1)) < nat tx_depth" by simp
  from w(2) obtain mr where mr: "bw_mr_control_send c1 = Some mr" by (auto simp: bw_adapter_def bw_ready_def)
  from w(2) have "sends_post V (bw_qp c1) W (nat tx_depth)" by (simp add: bw_adapter_def)
  note refuse = this [unfolded sends_post_def, rule_format, of _ s1, unfolded if_not_P [OF full]]
  from mr have "\<exists>wr. send_wr_id wr = bw_SEND_WRID \<and>
      bw_post_send V c1 s1 = Some (ibv_post_send V (bw_qp c1) wr s1)"
    by (simp add: bw_post_send_def) (metis ibv_send_wr.select_convs(1))
  then obtain wr where "send_wr_id wr = bw_SEND_WRID"
    "bw_post_send V c1 s1 = Some (ibv_post_send V (bw_qp c1) wr s1)" by blast
  with refuse [of wr] obtain r s2 where "bw_post_send V c1 s1 = Some (r, s2)" "r \<noteq> 0"
    "pending W (world s2) = pending W (world s1)" "answers W (world s2) = answers W (world s1)" by auto
  moreover from this w(3) have "bw_at W s2 (nat tx_depth) a" by (simp add: bw_at_def)
  ultimately have "\<exists>r s2. bw_post_send V c1 s1 = Some (r, s2) \<and> r \<noteq> 0 \<and> bw_at W s2 (nat tx_depth) a" by blast
  with w(1) show ?thesis by (auto simp: bw_client_trial_def)
qed

section \<open>Exactly as many completions as asked for\<close>

text \<open>
  \<open>drained V cq q s wcs s'\<close>: polls of the queue took out the completions \<open>wcs\<close>, and nothing
  else happened but the posting of receive requests.
\<close>

inductive drained ::
  "('w, 'z) verbs_scheme \<Rightarrow> handle \<Rightarrow> handle \<Rightarrow> 'w pstate \<Rightarrow> ibv_wc list \<Rightarrow> 'w pstate \<Rightarrow> bool" for V cq q where
  drained_none: "drained V cq q s [] s"
| drained_poll: "ibv_poll_cq V cq k s = ((ne, wcs), s1) \<Longrightarrow> 0 \<le> ne \<Longrightarrow> drained V cq q s1 rest s' \<Longrightarrow>
    drained V cq q s (wcs @ rest) s'"
| drained_recv: "ibv_post_recv V q wr s = (r, s1) \<Longrightarrow> drained V cq q s1 rest s' \<Longrightarrow> drained V cq q s rest s'"

lemma polled_drained: "polled V cq s wcs s1 \<Longrightarrow> drained V cq q s1 rest s' \<Longrightarrow> drained V cq q s (wcs @ rest) s'"
  by (induction rule: polled.induct) (auto intro: drained_poll)

lemma bw_post_recv_loop_drained:
  "bw_post_recv_loop V q wr n i s = (j, s1) \<Longrightarrow>
   i \<le> j \<and> j \<le> i + int n \<and> (\<forall>rest s'. drained V cq q s1 rest s' \<longrightarrow> drained V cq q s rest s')"
  by (induction n arbitrary: i s) (fastforce intro: drained_recv split: prod.splits if_splits)+

lemma bw_post_recv_drained:
  assumes "bw_post_recv V ctx n s = Some (j, s1)" and "0 \<le> n"
  shows "j \<le> n \<and> (\<forall>rest s'. drained V cq (bw_qp ctx) s1 rest s' \<longrightarrow> drained V cq (bw_qp ctx) s rest s')"
  using assms by (auto simp: bw_post_recv_def bind_eq_Some_conv dest!: bw_post_recv_loop_drained [of V _ _ _ _ _ _ _ cq])

text \<open>One receive completion as a step, a second provider of the receive credit.\<close>

definition bw_receive_step ::
  "('w, 'z) verbs_scheme \<Rightarrow> bw_context \<times> 'w pstate \<Rightarrow> (bw_context \<times> 'w pstate) option" where
  "bw_receive_step V = (\<lambda>(ctx, s).
     do { (r, ctx, s) \<leftarrow> bw_received V ctx s; if r = 0 then Some (ctx, s) else None })"

lemma bw_received_0:
  assumes "bw_received V ctx s = Some (0, ctx', s')"
  shows "ctx' = ctx\<lparr>bw_routs := bw_routs ctx'\<rparr> \<and>
    (bw_REFILL_RWR_THRES < bw_routs ctx - 1 \<longrightarrow> bw_routs ctx' = bw_routs ctx - 1) \<and>
    (bw_routs ctx - 1 \<le> bw_REFILL_RWR_THRES \<and> bw_routs ctx \<le> bw_rx_depth ctx \<longrightarrow>
       bw_routs ctx' = bw_rx_depth ctx)"
  using assms bw_post_recv_drained [of V "ctx\<lparr>bw_routs := bw_routs ctx - 1\<rparr>" "bw_rx_depth ctx - (bw_routs ctx - 1)"]
  by (fastforce simp: bw_received_def Let_def bind_eq_Some_conv split: if_splits)

interpretation bw_credit: receive_credit
  "\<lambda>(ctx, s). bw_routs ctx" "\<lambda>(ctx, s). bw_rx_depth ctx" bw_REFILL_RWR_THRES "bw_receive_step V"
  for V :: "('w, 'z) verbs_scheme"
proof unfold_locales
  fix c c' :: "bw_context \<times> 'w pstate"
  assume "bw_receive_step V c = Some c'"
  then have r: "bw_received V (fst c) (snd c) = Some (0, fst c', snd c')"
    by (auto simp: bw_receive_step_def bind_eq_Some_conv split: if_splits prod.splits)
  show "(case c' of (ctx, s) \<Rightarrow> bw_rx_depth ctx) = (case c of (ctx, s) \<Rightarrow> bw_rx_depth ctx)"
    using bw_received_0 [OF r] bw_sameD [of "fst c" "fst c'"] by (simp add: case_prod_beta bw_same_def)
  show "bw_REFILL_RWR_THRES < (case c of (ctx, s) \<Rightarrow> bw_routs ctx) - 1 \<Longrightarrow>
      (case c' of (ctx, s) \<Rightarrow> bw_routs ctx) = (case c of (ctx, s) \<Rightarrow> bw_routs ctx) - 1"
    using bw_received_0 [OF r] by (simp add: case_prod_beta)
  show "(case c of (ctx, s) \<Rightarrow> bw_routs ctx) - 1 \<le> bw_REFILL_RWR_THRES \<Longrightarrow>
      (case c of (ctx, s) \<Rightarrow> bw_routs ctx) \<le> (case c of (ctx, s) \<Rightarrow> bw_rx_depth ctx) \<Longrightarrow>
      (case c' of (ctx, s) \<Rightarrow> bw_routs ctx) = (case c of (ctx, s) \<Rightarrow> bw_rx_depth ctx)"
    using bw_received_0 [OF r] by (simp add: case_prod_beta)
qed

lemma bw_received_credit:
  assumes "bw_received V ctx s = Some (0, ctx', s')"
    and "bw_REFILL_RWR_THRES < bw_routs ctx" and "bw_routs ctx \<le> bw_rx_depth ctx"
  shows "bw_REFILL_RWR_THRES < bw_routs ctx' \<and> bw_routs ctx' \<le> bw_rx_depth ctx' \<and> bw_same ctx ctx'"
proof -
  have "bw_receive_step V (ctx, s) = Some (ctx', s')" using assms(1) by (simp add: bw_receive_step_def)
  from bw_credit.receive_bounds [OF this] assms(2,3) bw_received_0 [OF assms(1)] show ?thesis
    by (simp add: bw_same_def)
qed

lemma bw_received_drained:
  assumes "bw_received V ctx s = Some (r, ctx', s1)" and "bw_routs ctx \<le> bw_rx_depth ctx"
    and "drained V cq (bw_qp ctx) s1 rest s'"
  shows "drained V cq (bw_qp ctx) s rest s'"
  using assms bw_post_recv_drained [of V "ctx\<lparr>bw_routs := bw_routs ctx - 1\<rparr>" "bw_rx_depth ctx - (bw_routs ctx - 1)" s]
  by (fastforce simp: bw_received_def Let_def bind_eq_Some_conv split: if_splits)

definition credit_ok :: "bw_context \<Rightarrow> bool" where
  "credit_ok ctx \<longleftrightarrow> bw_REFILL_RWR_THRES < bw_routs ctx \<and> bw_routs ctx \<le> bw_rx_depth ctx"

lemma bw_check_wcs_0:
  assumes "bw_check_wcs V n wcs ctx rcnt scnt s = Some (0, ctx', rcnt', scnt', s1)" and "credit_ok ctx"
  shows "n \<le> length wcs \<and> (\<forall>wc \<in> set (take n wcs). good_wc wc) \<and> rcnt' + scnt' = rcnt + scnt + int n \<and>
    bw_same ctx ctx' \<and> credit_ok ctx' \<and>
    (\<forall>rest s'. drained V cq (bw_qp ctx) s1 rest s' \<longrightarrow> drained V cq (bw_qp ctx) s rest s')"
  using assms
proof (induction V n wcs ctx rcnt scnt s rule: bw_check_wcs.induct)
  case (3 V n wc wcs ctx rcnt scnt s)
  show ?case
  proof (cases "wc_wr_id wc = bw_SEND_WRID")
    case True
    with 3 show ?thesis by (auto simp: good_wc_def split: if_splits)
  next
    case False
    with "3.prems" obtain c1 s2 where st: "wc_status wc = IBV_WC_SUCCESS" "wc_wr_id wc = bw_RECV_WRID"
      and r: "bw_received V ctx s = Some (0, c1, s2)"
      and rest: "bw_check_wcs V n wcs c1 (rcnt + 1) scnt s2 = Some (0, ctx', rcnt', scnt', s1)"
      by (auto simp: bind_eq_Some_conv split: if_splits)
    from bw_received_credit [OF r] "3.prems"(2) have c1: "credit_ok c1" "bw_same ctx c1"
      by (auto simp: credit_ok_def)
    with bw_sameD [OF c1(2)] 3(2) [OF _ False st(2) r refl refl _ rest] st(1) False
    show ?thesis
      using bw_received_drained [OF r] "3.prems"(2) st(2)
      by (auto simp: good_wc_def credit_ok_def intro: bw_same_trans)
  qed
qed auto

lemma bw_wait_loop_exact:
  assumes bounded: "poll_bounded V"
  shows "bw_wait_loop V iters ctx rcnt scnt s = Some (rc, ctx', s') \<Longrightarrow> rcnt + scnt \<le> iters \<Longrightarrow> rc = 0 \<Longrightarrow>
    credit_ok ctx \<Longrightarrow>
    \<exists>wcs. drained V (bw_cq ctx) (bw_qp ctx) s wcs s' \<and> int (length wcs) = iters - (rcnt + scnt) \<and>
      (\<forall>wc \<in> set wcs. good_wc wc) \<and> bw_same ctx ctx' \<and> credit_ok ctx'"
proof (induction "nat (iters - (rcnt + scnt))" arbitrary: ctx rcnt scnt s rule: less_induct)
  case less
  show ?case
  proof (cases "rcnt + scnt < iters")
    case False
    with less.prems show ?thesis by (subst (asm) bw_wait_loop.simps) (auto intro: drained_none)
  next
    case True
    define k where "k = (if bw_WC_BATCH > iters - rcnt - scnt then iters - rcnt - scnt else bw_WC_BATCH)"
    have k: "k \<le> iters - (rcnt + scnt)" "1 \<le> k" using True by (simp_all add: k_def bw_WC_BATCH_def)
    from less.prems(1) True obtain ne wcs s1 where
      some: "poll_send_some V (bw_cq ctx) k s = Some ((ne, wcs), s1)"
      and cont: "(if ne < 0 then Some (1, ctx, s1)
        else do { (r, ctx, rcnt, scnt, s) \<leftarrow> bw_check_wcs V (nat ne) wcs ctx rcnt scnt s1;
                  if r \<noteq> 0 then Some (1, ctx, s) else bw_wait_loop V iters ctx rcnt scnt s }) = Some (rc, ctx', s')"
      by (subst (asm) bw_wait_loop.simps) (auto simp: k_def bind_eq_Some_conv)
    from cont less.prems(3) have "\<not> ne < 0" by auto
    with poll_send_some_polled [OF bounded k(2) some] have ne: "0 < ne" "ne \<le> k" "length wcs = nat ne"
      and ext: "\<And>rest t. polled V (bw_cq ctx) s1 rest t \<Longrightarrow> polled V (bw_cq ctx) s (wcs @ rest) t" by auto
    from ext [OF polled_none] have taken: "polled V (bw_cq ctx) s wcs s1" by simp
    from cont ne(1) less.prems(3) obtain c2 rcnt2 scnt2 s2 where
      chk: "bw_check_wcs V (nat ne) wcs ctx rcnt scnt s1 = Some (0, c2, rcnt2, scnt2, s2)"
      and go: "bw_wait_loop V iters c2 rcnt2 scnt2 s2 = Some (rc, ctx', s')"
      by (auto simp: bind_eq_Some_conv split: if_splits)
    from bw_check_wcs_0 [OF chk less.prems(4), of "bw_cq ctx"] ne have
      ok: "\<forall>wc \<in> set wcs. good_wc wc" "rcnt2 + scnt2 = rcnt + scnt + ne" "bw_same ctx c2" "credit_ok c2"
      and dr: "\<And>rest t. drained V (bw_cq ctx) (bw_qp ctx) s2 rest t \<Longrightarrow>
        drained V (bw_cq ctx) (bw_qp ctx) s1 rest t" by auto
    from less.hyps [OF _ go] ok ne k less.prems(3) obtain more where
      "drained V (bw_cq c2) (bw_qp c2) s2 more s'" "int (length more) = iters - (rcnt2 + scnt2)"
      "\<forall>wc \<in> set more. good_wc wc" "bw_same c2 ctx'" "credit_ok ctx'" by auto
    with ok ne bw_sameD [OF ok(3)] polled_drained [OF taken dr] show ?thesis
      by (intro exI [of _ "wcs @ more"]) (auto intro: bw_same_trans)
  qed
qed

end
