(* ===== verification/BW_Properties.thy ===== *)
theory BW_Properties
  imports BW_Correct
begin

text \<open>
  The properties of the benchmark Optimization/bw_template.c, with applications on a concrete
  adapter: its completion queue is a list, its send queue holds \<open>cap\<close> requests, and the peer
  answers a given number of messages.
\<close>

section \<open>A concrete adapter\<close>

record bw_world =
  bw_queue :: "ibv_wc list"
  bw_replies :: nat

definition bw_view :: "bw_world bw_view" where
  "bw_view = \<lparr>pending = bw_queue, answers = bw_replies\<rparr>"

definition ok_wc :: "nat \<Rightarrow> ibv_wc" where
  "ok_wc i = \<lparr>wc_status = IBV_WC_SUCCESS, wc_opcode = IBV_WC_OTHER 0, wc_wr_id = i\<rparr>"

definition bw_poll :: "int \<Rightarrow> bw_world pstate \<Rightarrow> (int \<times> ibv_wc list) \<times> bw_world pstate" where
  "bw_poll k s =
     (let n = min (nat k) (length (bw_queue (world s)))
      in ((int n, take n (bw_queue (world s))), s\<lparr>world := (world s)\<lparr>bw_queue := drop n (bw_queue (world s))\<rparr>\<rparr>))"

definition bw_accept :: "nat \<Rightarrow> ibv_send_wr \<Rightarrow> bw_world pstate \<Rightarrow> int \<times> bw_world pstate" where
  "bw_accept cap wr s =
     (let q = bw_queue (world s); a = bw_replies (world s) in
      if cap \<le> sends_pending q then (12, s)
      else if send_opcode wr = IBV_WR_SEND \<and> 0 < a
      then (0, s\<lparr>world := \<lparr>bw_queue = q @ [ok_wc bw_SEND_WRID, ok_wc bw_RECV_WRID], bw_replies = a - 1\<rparr>\<rparr>)
      else (0, s\<lparr>world := \<lparr>bw_queue = q @ [ok_wc bw_SEND_WRID], bw_replies = a\<rparr>\<rparr>))"

definition bw_demo_verbs :: "nat \<Rightarrow> bw_world verbs" where
  "bw_demo_verbs cap =
     \<lparr>ibv_post_recv = (\<lambda>q wr s. (0, s)),
      ibv_post_send = (\<lambda>q. bw_accept cap),
      ibv_poll_cq = (\<lambda>cq. bw_poll),
      ibv_reg_mr = (\<lambda>pd p n acc s. (None, s)),
      ibv_dereg_mr = (\<lambda>mr s. (0, s))\<rparr>"

definition bw_demo_mr :: ibv_mr where
  "bw_demo_mr = \<lparr>mr_addr = Ptr 1 0, mr_length = 1, lkey = 7, rkey = 9\<rparr>"

definition bw_demo_ctx :: bw_context where
  "bw_demo_ctx =
     \<lparr>bw_dev_context = 1, bw_channel = 0, bw_pd = 1, bw_mr_control_send = Some bw_demo_mr,
      bw_mr_rdma_write = Some bw_demo_mr, bw_cq = 1, bw_qp = 1, bw_buf = Ptr 1 0,
      bw_mr_rdma_write_start_ptr = Ptr 1 1, bw_size = 1, bw_rx_depth = bw_RX_DEPTH, bw_routs = bw_RX_DEPTH,
      bw_portinfo = \<lparr>port_lid = 1, link_layer = IBV_LINK_LAYER_INFINIBAND\<rparr>\<rparr>"

definition bw_demo_dest :: bw_dest where
  "bw_demo_dest = \<lparr>bw_lid = 2, bw_qpn = 3, bw_psn = 4, bw_gid = replicate 16 0, buf_va = 5, buf_rkey = 6\<rparr>"

definition bw_demo_state :: "ibv_wc list \<Rightarrow> nat \<Rightarrow> bw_world pstate" where
  "bw_demo_state q a =
     \<lparr>pmem = \<lparr>blocks = (\<lambda>b. None), next_blk = 1, junk = (\<lambda>b i. 0), vaddr = (\<lambda>b. 0), oom = (\<lambda>b. False)\<rparr>,
      world = \<lparr>bw_queue = q, bw_replies = a\<rparr>, max_inline = 0, page_size = 4096, kv_malloc = 0\<rparr>"

lemma bw_demo_fifo: "cq_fifo (bw_demo_verbs cap) cq bw_view"
  unfolding cq_fifo_def
proof (intro allI impI, elim conjE)
  fix k :: int and s :: "bw_world pstate"
  assume k: "1 \<le> k" and ne: "pending bw_view (world s) \<noteq> []"
  let ?q = "bw_queue (world s)" and ?n = "min (nat k) (length (bw_queue (world s)))"
  let ?s = "s\<lparr>world := (world s)\<lparr>bw_queue := drop ?n ?q\<rparr>\<rparr>"
  from ne have q: "?q \<noteq> []" by (simp add: bw_view_def)
  with k have "take ?n ?q \<noteq> []" by (cases ?q) auto
  then have "polls_some (bw_demo_verbs cap) cq k s (take ?n ?q) ?s"
    by (intro polls_some_now) (simp_all add: bw_demo_verbs_def bw_poll_def Let_def)
  moreover from k q have "1 \<le> ?n" "int ?n \<le> k" by (cases ?q; auto)+
  ultimately show "\<exists>n s'. 1 \<le> n \<and> int n \<le> k \<and> n \<le> length (pending bw_view (world s)) \<and>
      polls_some (bw_demo_verbs cap) cq k s (take n (pending bw_view (world s))) s' \<and>
      pending bw_view (world s') = drop n (pending bw_view (world s)) \<and>
      answers bw_view (world s') = answers bw_view (world s)"
    by (intro exI [of _ ?n] exI [of _ ?s]) (simp add: bw_view_def)
qed

lemma bw_demo_bounded: "poll_bounded (bw_demo_verbs cap)"
  by (auto simp: poll_bounded_def bw_demo_verbs_def bw_poll_def Let_def)

lemma bw_demo_adapter: "bw_adapter (bw_demo_verbs cap) bw_view cap bw_demo_ctx"
proof -
  have "recv_posts (bw_demo_verbs cap) q bw_view" for q
    by (simp add: recv_posts_def bw_demo_verbs_def)
  moreover have "sends_post (bw_demo_verbs cap) q bw_view cap" for q
    unfolding sends_post_def
  proof (intro allI impI)
    fix wr and s :: "bw_world pstate"
    let ?S = "ok_wc bw_SEND_WRID" and ?R = "ok_wc bw_RECV_WRID"
    have "good_wc ?S" "wc_wr_id ?S = bw_SEND_WRID" "good_wc ?R" "wc_wr_id ?R = bw_RECV_WRID"
      by (simp_all add: good_wc_def ok_wc_def)
    then show "if sends_pending (pending bw_view (world s)) < cap
      then \<exists>s' wc. ibv_post_send (bw_demo_verbs cap) q wr s = (0, s') \<and> good_wc wc \<and> wc_wr_id wc = bw_SEND_WRID \<and>
        (if send_opcode wr = IBV_WR_SEND \<and> 0 < answers bw_view (world s)
         then \<exists>got. good_wc got \<and> wc_wr_id got = bw_RECV_WRID \<and>
           mset (pending bw_view (world s')) = add_mset wc (add_mset got (mset (pending bw_view (world s)))) \<and>
           answers bw_view (world s') = answers bw_view (world s) - 1
         else mset (pending bw_view (world s')) = add_mset wc (mset (pending bw_view (world s))) \<and>
           answers bw_view (world s') = answers bw_view (world s))
      else \<exists>r s'. ibv_post_send (bw_demo_verbs cap) q wr s = (r, s') \<and> r \<noteq> 0 \<and>
        pending bw_view (world s') = pending bw_view (world s) \<and>
        answers bw_view (world s') = answers bw_view (world s)"
      by (cases "send_opcode wr = IBV_WR_SEND \<and> 0 < answers bw_view (world s)")
        (auto simp: bw_demo_verbs_def bw_accept_def bw_view_def Let_def add_mset_commute [of ?R]
          intro: exI [of _ ?S] exI [of _ ?R])
  qed
  ultimately show ?thesis
    by (simp add: bw_adapter_def bw_demo_fifo bw_ready_def bw_demo_ctx_def bw_RX_DEPTH_def bw_REFILL_RWR_THRES_def)
qed

lemma bw_demo_at: "\<forall>wc \<in> set q. good_wc wc \<Longrightarrow> bw_at bw_view (bw_demo_state q a) (length q) a"
  by (simp add: bw_at_def bw_view_def bw_demo_state_def)

lemma bw_demo_start:
  "bw_at bw_view (bw_demo_state [] a) 0 a"
  "bw_at bw_view (bw_demo_state [ok_wc bw_RECV_WRID] a) 1 a"
  using bw_demo_at [of "[]" a] bw_demo_at [of "[ok_wc bw_RECV_WRID]" a] by (simp_all add: good_wc_def ok_wc_def)

section \<open>Waiting\<close>

text \<open>
  C30. Exactly \<open>iters\<close> completions: whatever the adapter does, when \<open>pp_wait_completions\<close>
  reports success it has taken exactly \<open>iters\<close> completions out of the queue, all of them
  successful completions of a send or a receive, has posted nothing but receive requests,
  and has kept the number of posted receive requests above the refill threshold and within
  the depth of the queue.
\<close>

theorem wait_takes_exactly:
  assumes "poll_bounded V" and "0 \<le> iters" and "credit_ok ctx"
    and "pp_wait_completions V ctx iters s = Some (0, ctx', s')"
  shows "\<exists>wcs. drained V (bw_cq ctx) (bw_qp ctx) s wcs s' \<and> int (length wcs) = iters \<and>
    (\<forall>wc \<in> set wcs. good_wc wc) \<and> bw_same ctx ctx' \<and> credit_ok ctx'"
  using bw_wait_loop_exact [OF assms(1), of iters ctx 0 0 s 0 ctx' s'] assms(2-4)
  by (simp add: pp_wait_completions_def)

theorem wait_takes_exactly_witness:
  "\<exists>ctx' s' wcs. pp_wait_completions (bw_demo_verbs 4800) bw_demo_ctx 15
      (bw_demo_state (replicate 20 (ok_wc bw_RECV_WRID)) 0) = Some (0, ctx', s') \<and>
    drained (bw_demo_verbs 4800) (bw_cq bw_demo_ctx) (bw_qp bw_demo_ctx)
      (bw_demo_state (replicate 20 (ok_wc bw_RECV_WRID)) 0) wcs s' \<and>
    int (length wcs) = 15 \<and> (\<forall>wc \<in> set wcs. good_wc wc) \<and> bw_same bw_demo_ctx ctx' \<and> credit_ok ctx'"
proof -
  let ?s = "bw_demo_state (replicate 20 (ok_wc bw_RECV_WRID)) 0"
  have "bw_at bw_view ?s 20 0"
    using bw_demo_at [of "replicate 20 (ok_wc bw_RECV_WRID)" 0] by (simp add: good_wc_def ok_wc_def)
  from wait_takes [OF bw_demo_adapter [of 4800] this, of 15] obtain ctx' s' where
    w: "pp_wait_completions (bw_demo_verbs 4800) bw_demo_ctx 15 ?s = Some (0, ctx', s')" by auto
  have "credit_ok bw_demo_ctx"
    by (simp add: credit_ok_def bw_demo_ctx_def bw_RX_DEPTH_def bw_REFILL_RWR_THRES_def)
  from wait_takes_exactly [OF bw_demo_bounded _ this w] w show ?thesis by auto
qed

section \<open>Trials\<close>

text \<open>
  C31. A trial leaves nothing behind: on an adapter that completes accepted requests, with room for
  one request more than the batch when the number of writes is a multiple of the batch, the
  client's trial returns 0 and has taken exactly the completions of its own writes, of its
  closing message and the server's answer, so the next trial starts on an empty queue.
\<close>

theorem client_trial_leaves_nothing:
  assumes "bw_adapter V W cap ctx" and "bw_at W s 0 (a + 1)" and "0 < tx_depth" and "0 \<le> iters"
    and "nat tx_depth + (if 0 < iters \<and> iters mod tx_depth = 0 then 1 else 0) \<le> cap"
  shows "\<exists>ctx' s'. perform_single_experiment V True ctx tx_depth iters dest message_size s = Some (0, ctx', s') \<and>
    bw_same ctx ctx' \<and> bw_adapter V W cap ctx' \<and> bw_at W s' 0 a"
  using client_trial_run [OF assms(1,2) _ assms(3-5)] by (simp add: perform_single_experiment_def)

theorem client_trial_leaves_nothing_witness:
  "\<exists>ctx' s'. perform_single_experiment (bw_demo_verbs 4800) True bw_demo_ctx bw_TX_DEPTH NUMBER_MESSAGES
      bw_demo_dest 1024 (bw_demo_state [] (20 + 1)) = Some (0, ctx', s') \<and>
    bw_same bw_demo_ctx ctx' \<and> bw_adapter (bw_demo_verbs 4800) bw_view 4800 ctx' \<and> bw_at bw_view s' 0 20"
  by (rule client_trial_leaves_nothing [OF bw_demo_adapter bw_demo_start(1)])
    (simp_all add: bw_TX_DEPTH_def NUMBER_MESSAGES_def)

text \<open>
  C34. When the number of writes is a multiple of \<open>tx_depth\<close>, the closing message is posted with
  \<open>tx_depth\<close> writes in flight: a send queue of exactly that depth refuses it, the trial
  returns 1, and \<open>tx_depth\<close> stale completions stay in the queue for the next trial.
\<close>

theorem client_trial_overruns_send_queue:
  assumes "bw_adapter V W (nat tx_depth) ctx" and "bw_at W s 0 a" and "0 < tx_depth" and "0 < iters"
    and "iters mod tx_depth = 0"
  shows "\<exists>ctx' s'. perform_single_experiment V True ctx tx_depth iters dest message_size s = Some (1, ctx', s') \<and>
    bw_at W s' (nat tx_depth) a"
  using client_trial_overrun [OF assms] by (simp add: perform_single_experiment_def)

theorem client_trial_overruns_send_queue_witness:
  "\<exists>ctx' s'. perform_single_experiment (bw_demo_verbs (nat bw_TX_DEPTH)) True bw_demo_ctx bw_TX_DEPTH 9600
      bw_demo_dest 1024 (bw_demo_state [] 1) = Some (1, ctx', s') \<and>
    bw_at bw_view s' (nat bw_TX_DEPTH) 1"
  by (rule client_trial_overruns_send_queue [OF bw_demo_adapter bw_demo_start(1)])
    (simp_all add: bw_TX_DEPTH_def)

section \<open>The whole benchmark\<close>

text \<open>
  C32. The client's benchmark returns: when the server answers every message (one per warm-up and
  latency iteration, one per message size), warm-up, throughput and latency test all end, and
  no completion is left over.
\<close>

theorem client_benchmark_returns:
  assumes "bw_adapter V W cap ctx" and "0 < tx_depth" and "0 \<le> iters"
    and "bw_at W s 0 (nat (NUM_OF_WARMUP + iters) + length list_message_sizes)"
    and "nat tx_depth + (if 0 < iters \<and> iters mod tx_depth = 0 then 1 else 0) \<le> cap"
  shows "\<exists>ctx' s'. bw_tests V True ctx tx_depth iters dest s = Some (ctx', s') \<and>
    bw_same ctx ctx' \<and> bw_ready ctx' \<and> bw_at W s' 0 0"
  using client_tests_run [OF assms(1) _ assms(2,3,5), of s 0 dest] assms(4) by (auto simp: bw_adapter_def)

theorem client_benchmark_returns_witness:
  "\<exists>ctx' s'. bw_tests (bw_demo_verbs 4800) True bw_demo_ctx bw_TX_DEPTH NUMBER_MESSAGES bw_demo_dest
      (bw_demo_state [] (nat (NUM_OF_WARMUP + NUMBER_MESSAGES) + length list_message_sizes)) = Some (ctx', s') \<and>
    bw_same bw_demo_ctx ctx' \<and> bw_ready ctx' \<and> bw_at bw_view s' 0 0"
  by (rule client_benchmark_returns [OF bw_demo_adapter _ _ bw_demo_start(1)])
    (simp_all add: bw_TX_DEPTH_def NUMBER_MESSAGES_def)

text \<open>
  C33. The server's benchmark returns: starting with the client's first message and getting the
  next one for each of its answers but the last, it takes every completion, in lock step with
  the client.
\<close>

theorem server_benchmark_returns:
  assumes "bw_adapter V W cap ctx" and "0 < cap" and "0 < iters"
    and "bw_at W s 1 (nat (NUM_OF_WARMUP + iters) + length list_message_sizes - 1)"
  shows "\<exists>ctx' s'. bw_tests V False ctx tx_depth iters dest s = Some (ctx', s') \<and>
    bw_same ctx ctx' \<and> bw_ready ctx' \<and> bw_at W s' 0 0"
  using server_tests_run [OF assms, of tx_depth dest] by (auto simp: bw_adapter_def)

theorem server_benchmark_returns_witness:
  "\<exists>ctx' s'. bw_tests (bw_demo_verbs 4800) False bw_demo_ctx bw_TX_DEPTH NUMBER_MESSAGES bw_demo_dest
      (bw_demo_state [ok_wc bw_RECV_WRID]
        (nat (NUM_OF_WARMUP + NUMBER_MESSAGES) + length list_message_sizes - 1)) = Some (ctx', s') \<and>
    bw_same bw_demo_ctx ctx' \<and> bw_ready ctx' \<and> bw_at bw_view s' 0 0"
  by (rule server_benchmark_returns [OF bw_demo_adapter _ _ bw_demo_start(2)])
    (simp_all add: NUMBER_MESSAGES_def)

end
