(* ===== verification/KV_Main.thy ===== *)
theory KV_Main
  imports KV_Open
begin

text \<open>
  LowLatencyProtocols/main.c: stopping the server, the throughput test, the command file and
  \<open>main\<close>. Timing and printing are left out. A variable the code may read before assigning it
  is an argument (\<open>uninit\<close>), or undefined behaviour where the value would be dereferenced.
\<close>

definition NUM_THROUGHPUT_ITERATIONS :: nat where "NUM_THROUGHPUT_ITERATIONS = 1024"

definition shut_down_server :: "('w, 'z) verbs_scheme \<Rightarrow> KVHandle \<Rightarrow> 'w pstate \<Rightarrow> (int \<times> 'w pstate) option" where
  "shut_down_server V h s =
     do { (r, s) \<leftarrow> send_control_message V h SHUT_DOWN_SERVER [] s;
          Some (if r \<noteq> 0 then 1 else 0, s) }"

section \<open>The throughput test\<close>

definition throughput_sizes :: "nat list" where
  "throughput_sizes =
     [1, 2, 4, 8, 16, 32, 64, 128, 256, 512, 1024, 2048, 4096, 8192, 16384, 32768, 65536, 131072,
      262144, 524288, 1048576]"

text \<open>\<open>"test_key_%d"\<close>\<close>

definition test_key :: "nat \<Rightarrow> byte list" where
  "test_key i = [116, 101, 115, 116, 95, 107, 101, 121, 95] @ sprintf_d (int i)"

fun set_many ::
  "('w, 'z) host_scheme \<Rightarrow> ptr \<Rightarrow> ptr \<Rightarrow> nat \<Rightarrow> KVHandle \<Rightarrow> 'w pstate \<Rightarrow> (KVHandle \<times> 'w pstate) option" where
  "set_many V key set_value 0 h s = Some (h, s)"
| "set_many V key set_value (Suc n) h s =
     do { (_, h, s) \<leftarrow> kv_set V h key set_value s; set_many V key set_value n h s }"

text \<open>The pointers \<open>get_value\<close>; \<open>None\<close> is an element that was never assigned.\<close>

fun get_many ::
  "('w, 'z) host_scheme \<Rightarrow> ptr \<Rightarrow> nat \<Rightarrow> ptr option list \<Rightarrow> KVHandle \<Rightarrow> 'w pstate \<Rightarrow>
   (ptr option list \<times> KVHandle \<times> 'w pstate) option" where
  "get_many V key 0 vs h s = Some (vs, h, s)"
| "get_many V key (Suc n) vs h s =
     do { (_, var, h, s) \<leftarrow> kv_get V h key s; get_many V key n (vs @ [var]) h s }"

fun free_many :: "ptr option list \<Rightarrow> 'w pstate \<Rightarrow> 'w pstate option" where
  "free_many [] s = Some s"
| "free_many (v # vs) s =
     do { p \<leftarrow> v;
          s \<leftarrow> (if p \<noteq> NULL then free_block p s else Some s);
          free_many vs s }"

text \<open>One message size. \<open>sprintf\<close> writes the key into \<open>char key[30]\<close>.\<close>

definition throughput_round ::
  "('w, 'z) host_scheme \<Rightarrow> int \<Rightarrow> nat \<Rightarrow> nat \<Rightarrow> KVHandle \<Rightarrow> 'w pstate \<Rightarrow> (KVHandle \<times> 'w pstate) option" where
  "throughput_round V test_type i message_size h s =
     do { let (key, s) = local_array 30 s;
          m \<leftarrow> store_bytes key (test_key i @ [0]) (pmem s);
          let s = s\<lparr>pmem := m\<rparr>;
          if test_type = 0 then do {
            let (set_value, m) = c_malloc message_size (pmem s);
            m \<leftarrow> c_memset set_value 97 message_size m;
            m \<leftarrow> store_bytes (padd set_value (message_size - 1)) [0] m;
            (h, s) \<leftarrow> set_many V key set_value NUM_THROUGHPUT_ITERATIONS h (s\<lparr>pmem := m\<rparr>);
            s \<leftarrow> free_block set_value s;
            Some (h, end_scope key s) }
          else do {
            (get_value, h, s) \<leftarrow> get_many V key NUM_THROUGHPUT_ITERATIONS [] h s;
            s \<leftarrow> free_many get_value s;
            Some (h, end_scope key s) } }"

fun throughput_rounds ::
  "('w, 'z) host_scheme \<Rightarrow> int \<Rightarrow> nat \<Rightarrow> nat list \<Rightarrow> KVHandle \<Rightarrow> 'w pstate \<Rightarrow> (KVHandle \<times> 'w pstate) option" where
  "throughput_rounds V test_type i [] h s = Some (h, s)"
| "throughput_rounds V test_type i (message_size # sizes) h s =
     do { (h, s) \<leftarrow> throughput_round V test_type i message_size h s;
          throughput_rounds V test_type (Suc i) sizes h s }"

definition throughput_test ::
  "('w, 'z) host_scheme \<Rightarrow> KVHandle \<Rightarrow> int \<Rightarrow> 'w pstate \<Rightarrow> (int \<times> KVHandle \<times> 'w pstate) option" where
  "throughput_test V h test_type s =
     do { (h, s) \<leftarrow> throughput_rounds V test_type 0 throughput_sizes h s; Some (0, h, s) }"

section \<open>The command file\<close>

definition charset :: "byte list" where
  "charset = map (\<lambda>i. of_nat (65 + i)) [0..<26] @ [0]"

text \<open>\<open>rand() % sizeof(charset) - 1\<close> is -1 when the remainder is 0, an index outside the array.\<close>

definition generate_random_value ::
  "('w, 'z) host_scheme \<Rightarrow> size_t \<Rightarrow> 'w pstate \<Rightarrow> (ptr \<times> 'w pstate) option" where
  "generate_random_value V value_length s =
     do { let (value_address, m) = c_malloc (unat value_length) (pmem s);
          let (r, s) = c_rand V (s\<lparr>pmem := m\<rparr>);
          let char_idx = int (r mod length charset) - 1;
          if char_idx < 0 then None
          else do {
            m \<leftarrow> c_memset value_address (charset ! nat char_idx) (unat value_length) (pmem s);
            Some (value_address, s\<lparr>pmem := m\<rparr>) } }"

text \<open>\<open>fgets\<close>: up to a newline, and at most one byte less than the buffer has.\<close>

definition fgets :: "nat \<Rightarrow> byte list \<Rightarrow> (byte list \<times> byte list) option" where
  "fgets bufsize file =
     (if file = [] then None
      else let n = min (bufsize - 1) (length (takeWhile (\<lambda>c. c \<noteq> 10) file) + 1)
           in Some (take n file, drop n file))"

text \<open>Pieces of the two formats: literal text, a run without a quote, a decimal number.\<close>

fun scan_text :: "byte list \<Rightarrow> byte list \<Rightarrow> byte list option" where
  "scan_text [] bs = Some bs"
| "scan_text (c # cs) bs = do { r \<leftarrow> scan_lit c bs; scan_text cs r }"

definition scan_until_quote :: "byte list \<Rightarrow> (byte list \<times> byte list) option" where
  "scan_until_quote bs =
     (let w = takeWhile (\<lambda>c. c \<noteq> 34) bs in if w = [] then None else Some (w, dropWhile (\<lambda>c. c \<noteq> 34) bs))"

definition is_digit :: "byte \<Rightarrow> bool" where
  "is_digit c \<longleftrightarrow> 48 \<le> unat c \<and> unat c \<le> 57"

definition scan_zu :: "byte list \<Rightarrow> size_t option" where
  "scan_zu bs =
     (let (neg, r) = scan_sign (dropWhile is_space bs); ds = takeWhile is_digit r
      in if ds = [] then None
         else Some (strtoul_value neg (foldl (\<lambda>n d. 10 * n + (unat d - 48)) 0 ds)))"

datatype command = Cmd_Set "byte list" size_t | Cmd_Get "byte list" | Cmd_Print_Unset | Cmd_Other

text \<open>
  \<open>"SET \"%[^\"]\" %zu"\<close> with both conversions, else \<open>"GET \"%[^\"]\""\<close>, else \<open>"PRINT %[^\n]"\<close>. A
  space in a format matches any white space, and \<open>sscanf\<close> sees the line up to its first NUL. When
  the line ends before the conversion of the last format is reached, \<open>sscanf\<close> returns EOF, which
  the code takes for a success: it prints the array \<open>key\<close> that nothing has been written to
  (\<open>Cmd_Print_Unset\<close>, undefined behaviour). Every other line has no effect on the state.
\<close>

fun scan_ends :: "byte list \<Rightarrow> byte list \<Rightarrow> bool" where
  "scan_ends [] bs \<longleftrightarrow> dropWhile is_space bs = []"
| "scan_ends (c # cs) [] \<longleftrightarrow> True"
| "scan_ends (c # cs) (b # bs) \<longleftrightarrow> b = c \<and> scan_ends cs bs"

definition parse_command :: "byte list \<Rightarrow> command" where
  "parse_command text_line =
     (let line = takeWhile (\<lambda>c. c \<noteq> 0) text_line in
      case do { r \<leftarrow> scan_text [83, 69, 84] line;
                r \<leftarrow> scan_text [34] (dropWhile is_space r);
                (key, r) \<leftarrow> scan_until_quote r;
                r \<leftarrow> scan_text [34] r;
                n \<leftarrow> scan_zu r;
                Some (key, n) } of
        Some (key, n) \<Rightarrow> Cmd_Set key n
      | None \<Rightarrow>
          (case do { r \<leftarrow> scan_text [71, 69, 84] line;
                     r \<leftarrow> scan_text [34] (dropWhile is_space r);
                     scan_until_quote r } of
             Some (key, _) \<Rightarrow> Cmd_Get key
           | None \<Rightarrow> if scan_ends [80, 82, 73, 78, 84] line then Cmd_Print_Unset else Cmd_Other))"

definition run_command ::
  "('w, 'z) host_scheme \<Rightarrow> command \<Rightarrow> KVHandle \<Rightarrow> 'w pstate \<Rightarrow> (KVHandle \<times> 'w pstate) option" where
  "run_command V cmd h s =
     (let (key, s) = local_array CONTROL_MESSAGE_BUFFER_SIZE s in
      case cmd of
        Cmd_Set k value_length \<Rightarrow> do {
          m \<leftarrow> store_bytes key (k @ [0]) (pmem s);
          (value, s) \<leftarrow> generate_random_value V value_length (s\<lparr>pmem := m\<rparr>);
          (r, h, s) \<leftarrow> kv_set V h key value s;
          s \<leftarrow> free_block value s;
          Some (h, end_scope key s) }
      | Cmd_Get k \<Rightarrow> do {
          m \<leftarrow> store_bytes key (k @ [0]) (pmem s);
          (r, value, h, s) \<leftarrow> kv_get V h key (s\<lparr>pmem := m\<rparr>);
          if r \<noteq> 0 then Some (h, end_scope key s)
          else do { p \<leftarrow> value; s \<leftarrow> kv_release p s; Some (h, end_scope key s) } }
      | Cmd_Print_Unset \<Rightarrow> None
      | Cmd_Other \<Rightarrow> Some (h, end_scope key s))"

function execute_input_command ::
  "('w, 'z) host_scheme \<Rightarrow> byte list \<Rightarrow> KVHandle \<Rightarrow> 'w pstate \<Rightarrow> (KVHandle \<times> 'w pstate) option" where
  "execute_input_command V input_file h s =
     (case fgets CONTROL_MESSAGE_BUFFER_SIZE input_file of
        None \<Rightarrow> Some (h, s)
      | Some (line, rest) \<Rightarrow> do {
          (h, s) \<leftarrow> run_command V (parse_command line) h s;
          execute_input_command V rest h s })"
  by pat_completeness auto
termination
proof (relation "measure (\<lambda>(V, file, h, s). length file)", goal_cases)
  case (2 V inp h s x line rest)
  then show ?case
    by (auto simp: fgets_def Let_def CONTROL_MESSAGE_BUFFER_SIZE_def split: if_splits)
qed simp

declare execute_input_command.simps [simp del]

section \<open>The main function\<close>

record uninit =
  uninit_servername :: "byte list option"
  uninit_test :: bool
  uninit_file :: "byte list"

text \<open>
  \<open>args\<close> are the arguments after the program name. Without arguments \<open>servername\<close> and
  \<open>perform_throughput_test\<close> are read uninitialised, with three or more the latter is.
\<close>

definition kv_main ::
  "('w, 'z) host_scheme \<Rightarrow> (nat \<Rightarrow> stack) \<Rightarrow> KVHandle \<Rightarrow> uninit \<Rightarrow> byte list list \<Rightarrow> 'w pstate \<Rightarrow>
   (int \<times> 'w pstate) option" where
  "kv_main V st h0 u args s =
     (let servername = (case args of [] \<Rightarrow> uninit_servername u | a # _ \<Rightarrow> Some a);
          perform_throughput_test = (case args of [a] \<Rightarrow> True | [a, b] \<Rightarrow> False | _ \<Rightarrow> uninit_test u);
          (input_file, s) = (case args of [a, b] \<Rightarrow> c_fopen V b s | _ \<Rightarrow> (Some (uninit_file u), s)) in
      case input_file of
        None \<Rightarrow> Some (1, s)
      | Some file \<Rightarrow> do {
          (r, h, s) \<leftarrow> kv_open V st h0 servername s;
          if r = 1 then Some (-1, s)
          else do {
            (h, s) \<leftarrow>
              (if servername = None then do { (_, h, s) \<leftarrow> run_server V (if perform_throughput_test then 0 else 1) h s; Some (h, s) }
               else if perform_throughput_test then do {
                 (_, h, s) \<leftarrow> throughput_test V h 0 s;
                 (_, h, s) \<leftarrow> throughput_test V h 1 s;
                 (_, s) \<leftarrow> shut_down_server V h s;
                 Some (h, s) }
               else do {
                 (h, s) \<leftarrow> execute_input_command V file h s;
                 (_, s) \<leftarrow> shut_down_server V h s;
                 Some (h, s) });
            (_, s) \<leftarrow> kv_close V h s;
            Some (0, s) } })"

end
