(* ===== verification/Baseline.thy ===== *)
theory Baseline
  imports Host
begin

text \<open>
  The TCP baseline: client.c and server.c of Baseline. \<open>send\<close> and \<open>recv\<close> without flags are
  the write and read of a socket; their results are not looked at except where shown. Timing
  and printing are left out, and so is the content of the client's receive buffer, which it
  never reads.
\<close>

definition bl_PORT :: int where "bl_PORT = 8080"
definition END_MESSAGE :: "byte list" where "END_MESSAGE = [122]"
definition RECEIVE_MESSAGE :: "byte list" where "RECEIVE_MESSAGE = [82, 0]"
definition BUFFER_SIZE :: nat where "BUFFER_SIZE = 2 * 1048576"
definition NUM_OF_MESSAGES :: nat where "NUM_OF_MESSAGES = 1024"
definition bl_WARMUP :: nat where "bl_WARMUP = 500"

section \<open>Client\<close>

fun send_many :: "('w, 'z) host_scheme \<Rightarrow> int \<Rightarrow> ptr \<Rightarrow> nat \<Rightarrow> nat \<Rightarrow> 'w pstate \<Rightarrow> 'w pstate option" where
  "send_many V sock message message_size 0 s = Some s"
| "send_many V sock message message_size (Suc n) s =
     do { bs \<leftarrow> load_bytes message message_size (pmem s);
          let (sent, s) = sock_write V sock bs s;
          send_many V sock message message_size n s }"

text \<open>The experiments that are left, and the size of the next message.\<close>

fun measure_throughput ::
  "('w, 'z) host_scheme \<Rightarrow> int \<Rightarrow> nat \<Rightarrow> nat \<Rightarrow> 'w pstate \<Rightarrow> 'w pstate option" where
  "measure_throughput V sock 0 message_size s = Some s"
| "measure_throughput V sock (Suc n) message_size s =
     do { let (message, m) = c_malloc message_size (pmem s);
          m \<leftarrow> c_memset message 65 message_size m;
          s \<leftarrow> send_many V sock message message_size NUM_OF_MESSAGES (s\<lparr>pmem := m\<rparr>);
          let (sent, s) = sock_write V sock END_MESSAGE s;
          let (received, s) = sock_read V sock BUFFER_SIZE s;
          s \<leftarrow> free_block message s;
          measure_throughput V sock n (message_size * 2) s }"

fun measure_latency :: "('w, 'z) host_scheme \<Rightarrow> int \<Rightarrow> nat \<Rightarrow> 'w pstate \<Rightarrow> 'w pstate" where
  "measure_latency V sock 0 s = s"
| "measure_latency V sock (Suc n) s =
     (let (sent, s) = sock_write V sock END_MESSAGE s;
          (received, s) = sock_read V sock BUFFER_SIZE s
      in measure_latency V sock n s)"

definition bl_client_main :: "('w, 'z) host_scheme \<Rightarrow> byte list list \<Rightarrow> 'w pstate \<Rightarrow> (int \<times> 'w pstate) option" where
  "bl_client_main V args s =
     (case args of
        [servername] \<Rightarrow> do {
          (client_socket, s) \<leftarrow> open_socket V (Some servername) bl_PORT s;
          if client_socket < 0 then Some (-1, s)
          else do {
            let s = measure_latency V client_socket bl_WARMUP s;
            s \<leftarrow> measure_throughput V client_socket 21 1 s;
            let s = measure_latency V client_socket NUM_OF_MESSAGES s;
            let (r, s) = sock_close V client_socket s;
            Some (0, s) } }
      | _ \<Rightarrow> Some (-1, s))"

section \<open>Server\<close>

text \<open>
  The inner loop: receive until the last byte received is the end mark (\<open>True\<close>), or until
  the connection ends (\<open>False\<close>).
\<close>

partial_function (option) receive_until_end ::
  "('w, 'z) host_scheme \<Rightarrow> int \<Rightarrow> 'w pstate \<Rightarrow> (bool \<times> 'w pstate) option" where
  "receive_until_end V sock s =
     (let ((bytes_read, buffer), s) = sock_read V sock BUFFER_SIZE s in
      if bytes_read \<le> 0 then Some (False, s)
      else if length buffer < nat bytes_read then None
      else if buffer ! (nat bytes_read - 1) = hd END_MESSAGE then Some (True, s)
      else receive_until_end V sock s)"

partial_function (option) answer_experiments ::
  "('w, 'z) host_scheme \<Rightarrow> int \<Rightarrow> 'w pstate \<Rightarrow> 'w pstate option" where
  "answer_experiments V sock s =
     do { (ended, s) \<leftarrow> receive_until_end V sock s;
          if \<not> ended then Some s
          else let (sent, s) = sock_write V sock RECEIVE_MESSAGE s in answer_experiments V sock s }"

text \<open>
  The address 0.0.0.0:8080 is the argument. A socket that could not be created is -1, not 0,
  so the first check does not catch it; the calls after it fail instead.
\<close>

definition bl_server_main :: "('w, 'z) host_scheme \<Rightarrow> addrinfo \<Rightarrow> 'w pstate \<Rightarrow> (int \<times> 'w pstate) option" where
  "bl_server_main V address s =
     (let (server_fd, s) = sock_socket V address s in
      if server_fd = 0 then Some (1, s) else
      let (r, s) = sock_setsockopt V server_fd s in
      if r \<noteq> 0 then Some (1, snd (sock_close V server_fd s)) else
      let (r, s) = sock_bind V server_fd address s in
      if r < 0 then Some (1, snd (sock_close V server_fd s)) else
      let (r, s) = sock_listen V server_fd 1 s in
      if r < 0 then Some (1, snd (sock_close V server_fd s)) else
      let (new_socket, s) = sock_accept V server_fd s in
      if new_socket < 0 then Some (1, snd (sock_close V server_fd s)) else
      do { s \<leftarrow> answer_experiments V new_socket s;
           let (r, s) = sock_close V new_socket s;
           let (r, s) = sock_close V server_fd s;
           Some (0, s) })"

end
