(* ===== verification/Baseline_Correct.thy ===== *)
theory Baseline_Correct
  imports Baseline Connection_Correct
begin

text \<open>
  What the two ends of the TCP baseline do over a byte stream: what the client sends in all, and
  that the server answers each experiment once, however TCP cuts the stream into segments.
\<close>

section \<open>The stream of the client\<close>

text \<open>An experiment on the wire: that many letters A and the end mark.\<close>

definition trial_bytes :: "nat \<Rightarrow> byte list" where
  "trial_bytes n = replicate n 65 @ END_MESSAGE"

lemma send_many_stream:
  assumes "tcp_delivers V T Q" and "bytes_from p (pmem s) = Some (replicate k c)"
  shows "\<exists>s'. send_many V fd p k n s = Some s' \<and> quiet s s' \<and>
    tcp_out T (world s') fd = tcp_out T (world s) fd @ replicate (n * k) c"
  using assms(2)
proof (induction n arbitrary: s)
  case 0
  then show ?case by simp
next
  case (Suc n)
  from Suc.prems have load: "load_bytes p k (pmem s) = Some (replicate k c)" by (simp add: load_bytes_def)
  from tcp_writeE [OF assms(1), of fd "replicate k c" s] obtain s1 where
    w: "sock_write V fd (replicate k c) s = (int (length (replicate k c)), s1)" "quiet s s1"
      "tcp_out T (world s1) fd = tcp_out T (world s) fd @ replicate k c" by (metis fun_upd_same)
  from Suc.prems w(2) have "bytes_from p (pmem s1) = Some (replicate k c)" by (simp add: quietD)
  from Suc.IH [OF this] obtain s2 where "send_many V fd p k n s1 = Some s2" "quiet s1 s2"
    "tcp_out T (world s2) fd = tcp_out T (world s1) fd @ replicate (n * k) c" by blast
  with load w quiet_trans show ?case by (fastforce simp: replicate_add)
qed

lemma latency_stream:
  assumes "tcp_delivers V T Q"
  shows "quiet s (measure_latency V fd n s) \<and>
    tcp_out T (world (measure_latency V fd n s)) fd = tcp_out T (world s) fd @ concat (replicate n (trial_bytes 0))"
proof (induction n arbitrary: s)
  case 0
  then show ?case by simp
next
  case (Suc n)
  from tcp_writeE [OF assms, of fd END_MESSAGE s] obtain s1 where
    w: "sock_write V fd END_MESSAGE s = (int (length END_MESSAGE), s1)" "quiet s s1"
      "tcp_out T (world s1) fd = tcp_out T (world s) fd @ END_MESSAGE" by (metis fun_upd_same)
  from tcp_readE [OF assms, of fd BUFFER_SIZE s1] obtain x s2 where
    r: "sock_read V fd BUFFER_SIZE s1 = (x, s2)" "quiet s1 s2" "tcp_out T (world s2) = tcp_out T (world s1)" by metis
  from Suc.IH [of s2] w r quiet_trans [OF w(2) r(2)] quiet_trans show ?case
    by (auto simp: trial_bytes_def)
qed

text \<open>One size of the throughput test leaves no memory behind.\<close>

lemma throughput_stream:
  assumes "tcp_delivers V T Q" and "mem_avail (pmem s)"
  shows "\<exists>s'. measure_throughput V fd n k s = Some s' \<and> mem_avail (pmem s') \<and>
    (\<forall>b. b < next_blk (pmem s) \<longrightarrow> blocks (pmem s') b = blocks (pmem s) b) \<and>
    (\<forall>b. next_blk (pmem s) \<le> b \<longrightarrow> b < next_blk (pmem s') \<longrightarrow> blocks (pmem s') b = None) \<and>
    next_blk (pmem s) \<le> next_blk (pmem s') \<and>
    tcp_out T (world s') fd = tcp_out T (world s) fd @
      concat (map (\<lambda>i. trial_bytes (NUM_OF_MESSAGES * (k * 2 ^ i))) [0..<n])"
  using assms(2)
proof (induction n arbitrary: k s)
  case 0
  then show ?case by simp
next
  case (Suc n)
  let ?m = "pmem s" and ?b = "next_blk (pmem s)"
  let ?m1 = "?m\<lparr>blocks := (blocks ?m)(?b := Some (replicate k 65)), next_blk := Suc ?b\<rparr>"
  have alloc: "c_malloc k ?m = (Ptr ?b 0,
      ?m\<lparr>blocks := (blocks ?m)(?b := Some (map (junk ?m ?b) [0..<k])), next_blk := Suc ?b\<rparr>)"
    by (rule c_malloc_avail [OF Suc.prems])
  have set: "c_memset (Ptr ?b 0) 65 k (?m\<lparr>blocks := (blocks ?m)(?b := Some (map (junk ?m ?b) [0..<k])),
      next_blk := Suc ?b\<rparr>) = Some ?m1"
    by (simp add: c_memset_def store_bytes_def splice_at_def)
  have "bytes_from (Ptr ?b 0) (pmem (s\<lparr>pmem := ?m1\<rparr>)) = Some (replicate k 65)" by (simp add: bytes_from_def)
  from send_many_stream [OF assms(1) this] obtain s1 where
    s1: "send_many V fd (Ptr ?b 0) k NUM_OF_MESSAGES (s\<lparr>pmem := ?m1\<rparr>) = Some s1" "quiet (s\<lparr>pmem := ?m1\<rparr>) s1"
      "tcp_out T (world s1) fd = tcp_out T (world s) fd @ replicate (NUM_OF_MESSAGES * k) 65" by auto
  from tcp_writeE [OF assms(1), of fd END_MESSAGE s1] obtain s2 where
    s2: "sock_write V fd END_MESSAGE s1 = (int (length END_MESSAGE), s2)" "quiet s1 s2"
      "tcp_out T (world s2) fd = tcp_out T (world s1) fd @ END_MESSAGE" by (metis fun_upd_same)
  from tcp_readE [OF assms(1), of fd BUFFER_SIZE s2] obtain x s3 where
    s3: "sock_read V fd BUFFER_SIZE s2 = (x, s3)" "quiet s2 s3" "tcp_out T (world s3) = tcp_out T (world s2)" by metis
  have mem3: "pmem s3 = ?m1" using s1(2) s2(2) s3(2) by (simp add: quietD)
  let ?m2 = "?m1\<lparr>blocks := (blocks ?m1)(?b := None)\<rparr>"
  have free: "free_block (Ptr ?b 0) s3 = Some (s3\<lparr>pmem := ?m2\<rparr>)"
    by (simp add: free_block_def c_free_def mem3)
  have "mem_avail (pmem (s3\<lparr>pmem := ?m2\<rparr>))" using Suc.prems by (simp add: mem_avail_def)
  from Suc.IH [OF this, of "k * 2"] obtain s' where
    s': "measure_throughput V fd n (k * 2) (s3\<lparr>pmem := ?m2\<rparr>) = Some s'" "mem_avail (pmem s')"
      "\<forall>b. b < Suc ?b \<longrightarrow> blocks (pmem s') b = blocks ?m2 b"
      "\<forall>b. Suc ?b \<le> b \<longrightarrow> b < next_blk (pmem s') \<longrightarrow> blocks (pmem s') b = None" "Suc ?b \<le> next_blk (pmem s')"
      "tcp_out T (world s') fd = tcp_out T (world s3) fd @
        concat (map (\<lambda>i. trial_bytes (NUM_OF_MESSAGES * (k * 2 * 2 ^ i))) [0..<n])"
    by auto
  have "measure_throughput V fd (Suc n) k s = Some s'"
    using alloc set s1(1) s2(1) s3(1) free s'(1) by simp
  moreover have "\<forall>b. ?b \<le> b \<longrightarrow> b < next_blk (pmem s') \<longrightarrow> blocks (pmem s') b = None"
  proof (intro allI impI)
    fix b assume b: "?b \<le> b" "b < next_blk (pmem s')"
    then show "blocks (pmem s') b = None"
    proof (cases "b = ?b")
      case True
      with s'(3) show ?thesis by simp
    next
      case False
      with b(1) have "Suc ?b \<le> b" by simp
      with s'(4) b(2) show ?thesis by blast
    qed
  qed
  moreover have "tcp_out T (world s') fd = tcp_out T (world s) fd @
      concat (map (\<lambda>i. trial_bytes (NUM_OF_MESSAGES * (k * 2 ^ i))) [0..<Suc n])"
    using s'(6) s3(3) s2(3) s1(3)
    by (simp add: upt_conv_Cons map_Suc_upt [symmetric] trial_bytes_def comp_def mult.assoc
        del: upt_Suc)
  ultimately show ?case using s'(2,3,5) by auto
qed

lemma client_stream:
  assumes "tcp_delivers V T Q" and "open_socket V (Some name) bl_PORT s = Some (fd, s1)" and "0 \<le> fd"
    and "mem_avail (pmem s1)"
  shows "\<exists>s'. bl_client_main V [name] s = Some (0, s') \<and>
    (\<forall>b. b < next_blk (pmem s1) \<longrightarrow> blocks (pmem s') b = blocks (pmem s1) b) \<and>
    (\<forall>b. next_blk (pmem s1) \<le> b \<longrightarrow> b < next_blk (pmem s') \<longrightarrow> blocks (pmem s') b = None) \<and>
    tcp_out T (world s') fd = tcp_out T (world s1) fd @
      concat (map trial_bytes (replicate 500 0 @ map (\<lambda>i. 1024 * 2 ^ i) [0..<21] @ replicate 1024 0))"
proof -
  let ?s2 = "measure_latency V fd bl_WARMUP s1"
  note warm = latency_stream [OF assms(1), of s1 fd bl_WARMUP, THEN conjunct1]
    latency_stream [OF assms(1), of s1 fd bl_WARMUP, THEN conjunct2]
  have mem2: "pmem ?s2 = pmem s1" using quietD [OF warm(1)] by simp
  then have "mem_avail (pmem ?s2)" using assms(4) by simp
  from throughput_stream [OF assms(1) this, of fd 21 1] obtain s3 where
    s3: "measure_throughput V fd 21 1 ?s2 = Some s3"
      "\<forall>b. b < next_blk (pmem ?s2) \<longrightarrow> blocks (pmem s3) b = blocks (pmem ?s2) b"
      "\<forall>b. next_blk (pmem ?s2) \<le> b \<longrightarrow> b < next_blk (pmem s3) \<longrightarrow> blocks (pmem s3) b = None"
      "tcp_out T (world s3) fd = tcp_out T (world ?s2) fd @
        concat (map (\<lambda>i. trial_bytes (NUM_OF_MESSAGES * (1 * 2 ^ i))) [0..<21])" by blast
  let ?s4 = "measure_latency V fd NUM_OF_MESSAGES s3"
  note lat = latency_stream [OF assms(1), of s3 fd NUM_OF_MESSAGES, THEN conjunct1]
    latency_stream [OF assms(1), of s3 fd NUM_OF_MESSAGES, THEN conjunct2]
  from tcp_closeE [OF assms(1), of fd ?s4] obtain r s5 where
    s5: "sock_close V fd ?s4 = (r, s5)" "quiet ?s4 s5" "tcp_out T (world s5) = tcp_out T (world ?s4)" by metis
  have "pmem s5 = pmem s3" using quietD [OF lat(1)] quietD [OF s5(2)] by simp
  moreover have "bl_client_main V [name] s = Some (0, s5)"
    using assms(2,3) s3(1) s5(1) by (simp add: bl_client_main_def Let_def)
  moreover have "tcp_out T (world s5) fd = tcp_out T (world s1) fd @
      concat (map trial_bytes (replicate 500 0 @ map (\<lambda>i. 1024 * 2 ^ i) [0..<21] @ replicate 1024 0))"
    using warm(2) lat(2) s3(4) s5(3)
    by (simp add: bl_WARMUP_def NUM_OF_MESSAGES_def comp_def del: upt_conv_Cons upt_rec_numeral)
  ultimately show ?thesis using s3(2,3) mem2 by auto
qed

section \<open>The server\<close>

text \<open>
  A connection that hands over the segments \<open>P\<close> in turn, each no longer than the buffer, and
  then reports its end; a write appends to the list \<open>O\<close> of what was sent.
\<close>

definition hands_over ::
  "('w, 'z) host_scheme \<Rightarrow> int \<Rightarrow> ('w \<Rightarrow> byte list list) \<Rightarrow> ('w \<Rightarrow> byte list list) \<Rightarrow> bool" where
  "hands_over V fd P sent \<longleftrightarrow>
     (\<forall>s seg rest. P (world s) = seg # rest \<and> seg \<noteq> [] \<and> length seg \<le> BUFFER_SIZE \<longrightarrow>
        (\<exists>s'. sock_read V fd BUFFER_SIZE s = ((int (length seg), seg), s') \<and> P (world s') = rest \<and>
           sent (world s') = sent (world s))) \<and>
     (\<forall>s. P (world s) = [] \<longrightarrow>
        (\<exists>s'. sock_read V fd BUFFER_SIZE s = ((0, []), s') \<and> P (world s') = [] \<and> sent (world s') = sent (world s))) \<and>
     (\<forall>bs s. \<exists>s'. sock_write V fd bs s = (int (length bs), s') \<and> P (world s') = P (world s) \<and>
        sent (world s') = sent (world s) @ [bs])"

text \<open>A stream cut into pieces that are neither empty nor longer than the buffer.\<close>

definition segments_of :: "byte list list \<Rightarrow> byte list \<Rightarrow> bool" where
  "segments_of segs bs \<longleftrightarrow> concat segs = bs \<and> (\<forall>seg \<in> set segs. seg \<noteq> [] \<and> length seg \<le> BUFFER_SIZE)"

lemma receive_segments:
  assumes H: "hands_over V fd P sent"
  shows "segments_of segs (replicate n 65 @ END_MESSAGE) \<Longrightarrow> P (world s) = segs @ rest \<Longrightarrow>
    \<exists>s'. receive_until_end V fd s = Some (True, s') \<and> P (world s') = rest \<and> sent (world s') = sent (world s)"
proof (induction segs arbitrary: n s)
  case Nil
  then show ?case by (simp add: segments_of_def END_MESSAGE_def)
next
  case (Cons seg segs)
  then have seg: "seg \<noteq> []" "length seg \<le> BUFFER_SIZE" by (simp_all add: segments_of_def)
  with H Cons.prems(2) obtain s1 where
    s1: "sock_read V fd BUFFER_SIZE s = ((int (length seg), seg), s1)" "P (world s1) = segs @ rest"
      "sent (world s1) = sent (world s)" unfolding hands_over_def by fastforce
  have last: "seg ! (nat (int (length seg)) - 1) = last seg" using seg(1) by (simp add: last_conv_nth)
  have all: "seg @ concat segs = replicate n 65 @ [122]"
    using Cons.prems(1) by (simp add: segments_of_def END_MESSAGE_def)
  show ?case
  proof (cases "segs = []")
    case True
    with all have "last seg = 122" by simp
    with s1 True seg(1) last show ?thesis
      by (subst receive_until_end.simps) (simp add: END_MESSAGE_def)
  next
    case False
    with Cons.prems(1) have "concat segs \<noteq> []" by (cases segs) (auto simp: segments_of_def)
    then have len: "length seg \<le> n" using arg_cong [OF all, of length] by (cases "concat segs") auto
    have "seg = take (length seg) (replicate n 65 @ [122])" using all by (metis append_eq_conv_conj)
    with len have rep: "seg = replicate (length seg) 65" by simp
    with seg(1) have "last seg = 65" by (metis last_replicate length_0_conv)
    have "concat segs = drop (length seg) (replicate n 65 @ [122])" using all by (metis append_eq_conv_conj)
    with len Cons.prems(1) have "segments_of segs (replicate (n - length seg) 65 @ END_MESSAGE)"
      by (simp add: segments_of_def END_MESSAGE_def)
    from Cons.IH [OF this s1(2)] s1(3) obtain s' where
      "receive_until_end V fd s1 = Some (True, s')" "P (world s') = rest" "sent (world s') = sent (world s)" by auto
    with s1(1) seg(1) last \<open>last seg = 65\<close> show ?thesis
      by (subst receive_until_end.simps) (simp add: END_MESSAGE_def)
  qed
qed

lemma answer_segments:
  assumes H: "hands_over V fd P sent"
  shows "list_all2 (\<lambda>segs n. segments_of segs (trial_bytes n)) segss ns \<Longrightarrow> P (world s) = concat segss \<Longrightarrow>
    \<exists>s'. answer_experiments V fd s = Some s' \<and>
      sent (world s') = sent (world s) @ replicate (length ns) RECEIVE_MESSAGE \<and> P (world s') = []"
proof (induction segss arbitrary: ns s)
  case Nil
  then have "P (world s) = []" "ns = []" by simp_all
  with H obtain s1 where "sock_read V fd BUFFER_SIZE s = ((0, []), s1)" "P (world s1) = []"
    "sent (world s1) = sent (world s)" unfolding hands_over_def by blast
  with \<open>ns = []\<close> show ?case
    by (subst answer_experiments.simps, subst receive_until_end.simps) simp
next
  case (Cons segs segss)
  then obtain n ns' where ns: "ns = n # ns'" "segments_of segs (replicate n 65 @ END_MESSAGE)"
    "list_all2 (\<lambda>segs n. segments_of segs (trial_bytes n)) segss ns'"
    by (auto simp: list_all2_Cons1 trial_bytes_def)
  from receive_segments [OF H ns(2), of s "concat segss"] Cons.prems(2) obtain s1 where
    s1: "receive_until_end V fd s = Some (True, s1)" "P (world s1) = concat segss" "sent (world s1) = sent (world s)"
    by auto
  from H obtain s2 where s2: "sock_write V fd RECEIVE_MESSAGE s1 = (int (length RECEIVE_MESSAGE), s2)"
    "P (world s2) = P (world s1)" "sent (world s2) = sent (world s1) @ [RECEIVE_MESSAGE]"
    unfolding hands_over_def by blast
  from s2(2) s1(2) have "P (world s2) = concat segss" by simp
  from Cons.IH [OF ns(3) this] s1 s2 show ?case
    unfolding ns(1) by (subst answer_experiments.simps) auto
qed

end
