(* ===== verification/Main_Properties.thy ===== *)
theory Main_Properties
  imports Demo_Host KV_Main Baseline_Correct
begin

text \<open>
  The properties of the two small programs: the command file of LowLatencyProtocols/main.c, and
  the TCP baseline (Baseline/client.c and server.c), with applications on concrete machines.
\<close>

section \<open>The command file\<close>

lemma charset_letter: "i < 26 \<Longrightarrow> charset ! i \<noteq> 0"
proof -
  assume i: "i < 26"
  then have "charset ! i = of_nat (65 + i)" by (simp add: charset_def nth_append)
  moreover have "unat (of_nat k :: byte) = k" if "k < 256" for k using that by (simp add: unat_of_nat)
  from this [of "65 + i"] i have "unat (of_nat (65 + i) :: byte) = 65 + i" by (simp only:)
  ultimately show ?thesis by (metis add_is_0 unat_0 zero_neq_numeral)
qed

lemma cstr_replicate: "c \<noteq> 0 \<Longrightarrow> cstr (replicate n c) = None"
  by (induction n) simp_all

text \<open>\<open>rand\<close> has no access to the program's memory.\<close>

definition rand_quiet :: "('w, 'z) host_scheme \<Rightarrow> bool" where
  "rand_quiet V \<longleftrightarrow> (\<forall>s r s'. c_rand V s = (r, s') \<longrightarrow> quiet s s')"

text \<open>A random value is one letter repeated, to the very end of its block: it is no string.\<close>

lemma random_value_unterminated:
  assumes "rand_quiet V" and "generate_random_value V n s = Some (p, s')"
  shows "c_strlen p (pmem s') = None"
proof -
  obtain q m where q: "c_malloc (unat n) (pmem s) = (q, m)" by fastforce
  obtain r s1 where r: "c_rand V (s\<lparr>pmem := m\<rparr>) = (r, s1)" by fastforce
  then have "quiet (s\<lparr>pmem := m\<rparr>) s1" using assms(1) by (simp add: rand_quiet_def)
  from quietD [OF this] have m1: "pmem s1 = m" by simp
  let ?i = "int (r mod length charset) - 1"
  from assms(2) q r obtain m2 where i: "\<not> ?i < 0"
    and m2: "c_memset q (charset ! nat ?i) (unat n) (pmem s1) = Some m2" and p: "p = q" "s' = s1\<lparr>pmem := m2\<rparr>"
    by (auto simp: generate_random_value_def bind_eq_Some_conv Let_def split: if_splits)
  have "length charset = 27" by (simp add: charset_def)
  then have "r mod length charset < 27" by simp
  with i have c: "charset ! nat ?i \<noteq> 0" by (intro charset_letter) linarith
  from m2 have "q \<noteq> NULL" by (auto simp: c_memset_def store_bytes_def)
  with q have q': "q = Ptr (next_blk (pmem s)) 0"
    "blocks m (next_blk (pmem s)) = Some (map (junk (pmem s) (next_blk (pmem s))) [0..<unat n])"
    by (auto simp: c_malloc_def split: if_splits)
  from m2 m1 q' have "bytes_from q m2 = Some (replicate (unat n) (charset ! nat ?i))"
    by (auto simp: c_memset_def store_bytes_def bytes_from_def splice_at_def)
  with p c show ?thesis by (simp add: c_strlen_def c_string_def cstr_replicate)
qed

lemma set_command_undefined:
  assumes "rand_quiet V"
  shows "run_command V (Cmd_Set k n) h s = None"
proof (rule ccontr)
  assume "run_command V (Cmd_Set k n) h s \<noteq> None"
  then obtain key s1 m p s2 where "generate_random_value V n (s1\<lparr>pmem := m\<rparr>) = Some (p, s2)"
    and "kv_set V h key p s2 \<noteq> None"
    by (auto simp: run_command_def Let_def bind_eq_Some_conv split: prod.splits) blast
  moreover from random_value_unterminated [OF assms this(1)] have "kv_set V h key p s2 = None"
    by (cases "c_strlen key (pmem s2)") (simp_all add: kv_set_def)
  ultimately show False by simp
qed

text \<open>
  C39. Every SET line of a command file is undefined behaviour: \<open>generate_random_value\<close> indexes
  its character set at -1 or fills the block with one letter without a NUL, so \<open>kv_set\<close> runs
  past the block when it takes the length of the value. Whatever follows in the file, the
  client does not get to it.
\<close>

theorem set_line_is_undefined:
  assumes "rand_quiet V" and "fgets CONTROL_MESSAGE_BUFFER_SIZE input_file = Some (line, rest)"
    and "parse_command line = Cmd_Set k n"
  shows "execute_input_command V input_file h s = None"
  using assms(2,3) set_command_undefined [OF assms(1), of k n h s]
  by (subst execute_input_command.simps) simp

text \<open>The file consists of the line SET "a" 5.\<close>

definition demo_set_line :: "byte list" where
  "demo_set_line = [83, 69, 84, 32, 34, 97, 34, 32, 53, 10]"

lemma demo_set_line_parsed:
  "fgets CONTROL_MESSAGE_BUFFER_SIZE demo_set_line = Some (demo_set_line, [])"
  "parse_command demo_set_line = Cmd_Set [97] 5"
  by (simp_all add: fgets_def demo_set_line_def CONTROL_MESSAGE_BUFFER_SIZE_def parse_command_def is_space_def
      scan_until_quote_def scan_zu_def is_digit_def strtoul_value_def Let_def)

theorem set_line_is_undefined_witness:
  "execute_input_command net_host demo_set_line net_handle (net_state None [] True) = None"
  by (rule set_line_is_undefined [OF _ demo_set_line_parsed]) (simp add: rand_quiet_def net_host_def)

text \<open>The line PRINT without a text prints a string that was never assigned.\<close>

lemma print_line_is_undefined:
  "execute_input_command V ([80, 82, 73, 78, 84, 10] @ rest) h s = None"
proof -
  have "fgets CONTROL_MESSAGE_BUFFER_SIZE ([80, 82, 73, 78, 84, 10] @ rest) = Some ([80, 82, 73, 78, 84, 10], rest)"
    by (simp add: fgets_def CONTROL_MESSAGE_BUFFER_SIZE_def)
  moreover have "parse_command [80, 82, 73, 78, 84, 10] = Cmd_Print_Unset"
    by (simp add: parse_command_def is_space_def)
  ultimately show ?thesis
    by (subst execute_input_command.simps) (simp add: run_command_def split: prod.splits)
qed

section \<open>The baseline\<close>

text \<open>
  C38. The baseline client sends exactly its experiments: once connected, over a socket that
  accepts whole writes, \<open>main\<close> returns 0 having written 500 warm-up marks, then for each of the
  21 sizes 1, 2, ..., 1 MiB its 1024 messages and one end mark, then 1024 marks, and nothing
  else; and it leaves no memory allocated that was not allocated before.
\<close>

theorem baseline_client_stream:
  assumes "tcp_delivers V T Q" and "open_socket V (Some name) bl_PORT s = Some (fd, s1)" and "0 \<le> fd"
    and "mem_avail (pmem s1)"
  shows "\<exists>s'. bl_client_main V [name] s = Some (0, s') \<and>
    (\<forall>b. b < next_blk (pmem s1) \<longrightarrow> blocks (pmem s') b = blocks (pmem s1) b) \<and>
    (\<forall>b. next_blk (pmem s1) \<le> b \<longrightarrow> b < next_blk (pmem s') \<longrightarrow> blocks (pmem s') b = None) \<and>
    tcp_out T (world s') fd = tcp_out T (world s1) fd @
      concat (map trial_bytes (replicate 500 0 @ map (\<lambda>i. 1024 * 2 ^ i) [0..<21] @ replicate 1024 0))"
  using assms by (rule client_stream)

theorem baseline_client_stream_witness:
  "\<exists>(t :: net_world pstate) s'. bl_client_main net_host [[104]] (net_state None [] True) = Some (0, s') \<and>
    (\<forall>b. b < next_blk (pmem t) \<longrightarrow> blocks (pmem s') b = blocks (pmem t) b) \<and>
    (\<forall>b. next_blk (pmem t) \<le> b \<longrightarrow> b < next_blk (pmem s') \<longrightarrow> blocks (pmem s') b = None) \<and>
    tcp_out net_tcp (world s') 5 = tcp_out net_tcp (world t) 5 @
      concat (map trial_bytes (replicate 500 0 @ map (\<lambda>i. 1024 * 2 ^ i) [0..<21] @ replicate 1024 0))"
proof -
  have "net_resolves (world (net_state None [] True))" by (simp add: net_state_def)
  from net_open [OF net_state_avail this, of "[104]" bl_PORT] obtain t where
    t: "open_socket net_host (Some [104]) bl_PORT (net_state None [] True) = Some (5, t)" "mem_avail (pmem t)" by blast
  have "(0 :: int) \<le> 5" by simp
  show ?thesis
    by (rule exI [of _ t], rule baseline_client_stream [OF net_delivers t(1) \<open>0 \<le> 5\<close> t(2)])
qed

text \<open>
  C37. The baseline server answers every experiment exactly once: however TCP cuts the stream of
  the experiments into segments (none of them spanning two experiments, since the client
  waits for the answer), the server's loop ends when the connection does, having sent one
  answer per experiment and nothing else.
\<close>

theorem baseline_server_answers:
  assumes "hands_over V fd P sent" and "list_all2 (\<lambda>segs n. segments_of segs (trial_bytes n)) segss ns"
    and "P (world s) = concat segss"
  shows "\<exists>s'. answer_experiments V fd s = Some s' \<and>
    sent (world s') = sent (world s) @ replicate (length ns) RECEIVE_MESSAGE \<and> P (world s') = []"
  using assms by (rule answer_segments)

text \<open>The machine of Demo_Host with sockets that hand over segments.\<close>

record seg_world =
  seg_in :: "byte list list"
  seg_out :: "byte list list"

definition seg_read :: "int \<Rightarrow> nat \<Rightarrow> seg_world pstate \<Rightarrow> (int \<times> byte list) \<times> seg_world pstate" where
  "seg_read fd n s =
     (case seg_in (world s) of
        [] \<Rightarrow> ((0, []), s)
      | seg # rest \<Rightarrow> ((int (length seg), seg), s\<lparr>world := (world s)\<lparr>seg_in := rest\<rparr>\<rparr>))"

definition seg_write :: "int \<Rightarrow> byte list \<Rightarrow> seg_world pstate \<Rightarrow> int \<times> seg_world pstate" where
  "seg_write fd bs s = (int (length bs), s\<lparr>world := (world s)\<lparr>seg_out := seg_out (world s) @ [bs]\<rparr>\<rparr>)"

definition seg_host :: "seg_world host" where
  "seg_host =
     \<lparr>ibv_post_recv = (\<lambda>q wr s. (0, s)), ibv_post_send = (\<lambda>q wr s. (0, s)),
      ibv_poll_cq = (\<lambda>cq k s. ((0, []), s)), ibv_reg_mr = (\<lambda>d p n a s. (None, s)), ibv_dereg_mr = (\<lambda>mr s. (0, s)),
      ibv_get_device_list = (\<lambda>s. (None, s)), ibv_get_device_name = (\<lambda>d. []),
      ibv_open_device = (\<lambda>d s. (0, s)), ibv_create_comp_channel = (\<lambda>c s. (0, s)),
      ibv_alloc_pd = (\<lambda>c s. (0, s)), ibv_create_cq = (\<lambda>c n ch s. (0, s)),
      ibv_create_qp = (\<lambda>d a s. (0, s)), ibv_modify_qp = (\<lambda>q a ms s. (22, s)),
      ibv_query_max_inline = (\<lambda>q s. ((22, 0), s)), qp_num = (\<lambda>q s. 0),
      ibv_query_port = (\<lambda>c p s. ((22, \<lparr>port_lid = 0, link_layer = IBV_LINK_LAYER_OTHER\<rparr>), s)),
      ibv_query_gid = (\<lambda>c p i s. ((22, []), s)), ibv_req_notify_cq = (\<lambda>cq n s. (22, s)),
      ibv_destroy_qp = (\<lambda>q s. (0, s)), ibv_destroy_cq = (\<lambda>q s. (0, s)), ibv_dealloc_pd = (\<lambda>d s. (0, s)),
      ibv_destroy_comp_channel = (\<lambda>c s. (0, s)), ibv_close_device = (\<lambda>c s. (0, s)), ibv_free_device_list = id,
      getaddrinfo = (\<lambda>name port s. ((0, [0]), s)),
      sock_socket = (\<lambda>t s. (5, s)), sock_connect = (\<lambda>fd t s. (0, s)), sock_setsockopt = (\<lambda>fd s. (0, s)),
      sock_bind = (\<lambda>fd t s. (0, s)), sock_listen = (\<lambda>fd n s. (0, s)), sock_accept = (\<lambda>fd s. (6, s)),
      sock_close = (\<lambda>fd s. (0, s)), sock_write = seg_write, sock_read = seg_read, lrand48 = (\<lambda>s. (5, s)),
      sysconf_pagesize = 4096, c_rand = (\<lambda>s. (0, s)), c_fopen = (\<lambda>name s. (None, s))\<rparr>"

definition seg_state :: "byte list list \<Rightarrow> seg_world pstate" where
  "seg_state segs =
     \<lparr>pmem = \<lparr>blocks = (\<lambda>b. None), next_blk = 1, junk = (\<lambda>b i. 85), vaddr = (\<lambda>b. 0), oom = (\<lambda>b. False)\<rparr>,
      world = \<lparr>seg_in = segs, seg_out = []\<rparr>, max_inline = 0, page_size = 4096, kv_malloc = 0\<rparr>"

theorem baseline_server_answers_witness:
  "\<exists>s'. answer_experiments seg_host 6 (seg_state (concat [[[65, 65], [65, 122]], [[122]]])) = Some s' \<and>
    seg_out (world s') = seg_out (world (seg_state (concat [[[65, 65], [65, 122]], [[122]]]))) @
      replicate (length [3, 0 :: nat]) RECEIVE_MESSAGE \<and> seg_in (world s') = []"
proof (rule baseline_server_answers [where segss = "[[[65, 65], [65, 122]], [[122]]]"])
  show "hands_over seg_host 6 seg_in seg_out"
    by (simp add: hands_over_def seg_host_def seg_read_def seg_write_def)
qed (simp_all add: segments_of_def trial_bytes_def END_MESSAGE_def BUFFER_SIZE_def seg_state_def numeral_3_eq_3)

end
