(* ===== verification/KV_Session.thy ===== *)
theory KV_Session
  imports KV_Receive
begin

text \<open>
  A whole run of \<open>run_server\<close> (LowLatencyProtocols/kv_api.c) with its one client: from the
  empty database to the client's SHUT_DOWN. Polling is not blocking, so between two requests
  the loop may turn any number of times without receiving anything.
\<close>

section \<open>The table during a session\<close>

lemma table_grows_refl [simp]: "table_grows A A"
  by (simp add: table_grows_def)

lemma table_grows_head [simp]: "table_grows A (A\<lparr>head := t\<rparr>)"
  by (simp add: table_grows_def)

lemma handlers_grow:
  assumes "unat (total_length A) < 2 ^ 58"
  shows "handle_EAGER_KV_SET V A p h s = Some (r, A', s') \<Longrightarrow> table_grows A A'"
    and "handle_RENDEZVOUS_KV_SET_KEY V A p h s = Some (r, A', s') \<Longrightarrow> table_grows A A'"
    and "handle_CLIENT_KV_GET V A p h s = Some (r, A', s') \<Longrightarrow> table_grows A A'"
    and "handle_CLIENT_KV_SET_RENDEZVOUS_FIN V A p h s = Some (r, A', s') \<Longrightarrow> table_grows A A'"
    and "handle_CLIENT_KV_GET_RENDEZVOUS_FIN V A p h s = Some (r, A', s') \<Longrightarrow> table_grows A A'"
  using assms insert_to_array_grows deregister_rdma_mr_grows
  by (fastforce simp: handle_EAGER_KV_SET_def handle_RENDEZVOUS_KV_SET_KEY_def handle_CLIENT_KV_GET_def
      handle_CLIENT_KV_SET_RENDEZVOUS_FIN_def handle_CLIENT_KV_GET_RENDEZVOUS_FIN_def
      bind_eq_Some_conv Let_def case_prod_beta split: if_split_asm option.split_asm)+

lemma serve_message_grows:
  assumes "unat (total_length A) < 2 ^ 58" and "serve_message V p h A c s = Some (b, d, A', c', s')"
  shows "table_grows A A'"
  using assms(2)
  by (auto simp: serve_message_def bind_eq_Some_conv split: if_split_asm dest: handlers_grow [OF assms(1)])

lemma serve_client_grows:
  assumes "unat (total_length A) < 2 ^ 58" and "serve_client V print i h A c s = Some (b, h', A', c', s')"
  shows "table_grows A A'"
  using assms(2)
  by (auto simp: serve_client_def bind_eq_Some_conv split: if_split_asm dest: serve_message_grows [OF assms(1)])

section \<open>The client\<close>

text \<open>
  The client's next request is a function \<open>request\<close> of all the server has sent. It arrives after
  finitely many polls; meanwhile the adapter may write what it has access to, as when the client
  is writing a value by RDMA.
\<close>

definition requests_arrive ::
  "('w, 'z) verbs_scheme \<Rightarrow> 'w nic_view \<Rightarrow> pingpong_context \<Rightarrow> (sent \<Rightarrow> message) \<Rightarrow> bool" where
  "requests_arrive V W ctx request \<longleftrightarrow>
     (\<forall>s bs. nic_up W (world s) \<and> bytes_from (mr_control_receive_start_ptr ctx) (pmem s) = Some bs \<and>
        sizeof_ControlMessage \<le> length bs \<longrightarrow>
        (\<exists>wc s'. polls_one V (receive_cq ctx) s wc s' \<and>
           wc_status wc = IBV_WC_SUCCESS \<and> wc_opcode wc = IBV_WC_RECV \<and>
           nic_call W s s' \<and>
           nic_mrs W (world s') = nic_mrs W (world s) \<and> nic_log W (world s') = nic_log W (world s) \<and>
           message_at (mr_control_receive_start_ptr ctx) (request (nic_log W (world s))) (pmem s'))) \<and>
     posts_receives V W (qp ctx)"

text \<open>
  \<open>n\<close> requests that the server may trust, and then SHUT_DOWN, whatever the server answers
  within its specification. A server that prints its database must be able to.
\<close>

primrec trusted_client :: "int \<Rightarrow> (sent \<Rightarrow> message) \<Rightarrow> nat \<Rightarrow> store \<Rightarrow> sent \<Rightarrow> bool" where
  "trusted_client print request 0 st l \<longleftrightarrow> request l = Shut_Down"
| "trusted_client print request (Suc n) st l \<longleftrightarrow>
     request_ok st (request l) \<and>
     (\<forall>reply st' e. store_step st (request l) reply st' \<and> carries e reply \<longrightarrow>
        (print = 1 \<longrightarrow> printable_store st') \<and> trusted_client print request n st' (l @ [e]))"

text \<open>A session: each request gets one reply, and request, reply and store are a step.\<close>

inductive session :: "(sent \<Rightarrow> message) \<Rightarrow> store \<Rightarrow> sent \<Rightarrow> nat \<Rightarrow> store \<Rightarrow> sent \<Rightarrow> bool" for request where
  session_end: "session request st l 0 st l"
| session_step: "store_step st (request l) reply st1 \<Longrightarrow> carries e reply \<Longrightarrow>
    session request st1 (l @ [e]) n st' l' \<Longrightarrow> session request st l (Suc n) st' l'"

definition server_conn ::
  "('w, 'z) verbs_scheme \<Rightarrow> 'w nic_view \<Rightarrow> (sent \<Rightarrow> message) \<Rightarrow> KVHandle \<Rightarrow> pingpong_context \<Rightarrow>
   'w pstate \<Rightarrow> bool" where
  "server_conn V W request h ctx s \<longleftrightarrow>
     session_ok V W h ctx s \<and> ctx_index h = 0 \<and> num_remote_host h = 1 \<and>
     requests_arrive V W ctx request \<and> mr_control_receive ctx \<noteq> None \<and>
     (\<exists>bs. bytes_from (mr_control_receive_start_ptr ctx) (pmem s) = Some bs \<and>
        sizeof_ControlMessage \<le> length bs)"

lemma server_conn_routs:
  assumes "server_conn V W request h ctx s"
  shows "server_conn V W request (set_handle_ctx (ctx\<lparr>routs := r\<rparr>) h) (ctx\<lparr>routs := r\<rparr>) s"
  using assms
  by (auto simp: server_conn_def session_ok_def handle_ctx_def set_handle_ctx_def ctx_ok_def nic_ok_def
      requests_arrive_def split: if_splits)

lemma server_conn_keeps:
  assumes conn: "server_conn V W request h ctx s" and keep: "keeps_blocks s s'"
    and ok: "mem_ok (pmem s)" and S: "session_ok V W h ctx s'"
  shows "server_conn V W request h ctx s'"
proof -
  from conn obtain bs where bs: "bytes_from (mr_control_receive_start_ptr ctx) (pmem s) = Some bs"
    "sizeof_ControlMessage \<le> length bs" by (auto simp: server_conn_def)
  from keeps_blocks_bytes [OF keep ok bs(1)] obtain cs where
    "bytes_from (mr_control_receive_start_ptr ctx) (pmem s') = Some cs" "length cs = length bs" .
  with conn S bs(2) show ?thesis by (auto simp: server_conn_def)
qed

section \<open>The loop\<close>

text \<open>One turn of the loop serves the one client.\<close>

lemma server_loop_one:
  assumes "num_remote_host h = 1"
  shows "server_loop V print h A c s =
    do { (finished, h, A, c, s) \<leftarrow> serve_client V print 0 h A c s;
         if finished then Some (h, A, s) else server_loop V print h A c s }"
proof -
  have stop: "serve_clients V print (Suc 0) (Suc 0) h A c s = Some (False, h, A, c, s)" for h A c s
    by (subst serve_clients.simps) simp
  have "serve_clients V print (Suc 0) 0 h A c s = serve_client V print 0 h A c s"
    by (subst serve_clients.simps) (cases "serve_client V print 0 h A c s"; auto simp: stop)
  with assms show ?thesis
    by (subst server_loop.simps) (cases "serve_client V print 0 h A c s"; auto)
qed

text \<open>Polls that find nothing leave the loop as it was.\<close>

lemma serve_client_nothing:
  assumes "handle_ctx h = Some ctx" and "ctx_index h = 0"
    and "ibv_poll_cq V (receive_cq ctx) 1 s = ((0, wcs), s1)"
  shows "serve_client V print 0 h A c s = Some (False, h, A, c, s1)"
proof -
  have h: "h\<lparr>ctx_index := 0\<rparr> = h" using assms(2) by (cases h) simp
  have "set_handle_ctx ctx h = h"
    using assms(1) by (cases h) (auto simp: set_handle_ctx_def handle_ctx_def split: if_splits)
  with assms(1,3) show ?thesis
    by (simp add: serve_client_def get_remote_control_message_def poll_next_receive_wc_def h)
qed

lemma server_loop_waits:
  assumes "polls_one V (receive_cq ctx) s wc s'" and "handle_ctx h = Some ctx" and "ctx_index h = 0"
    and "num_remote_host h = 1"
  shows "\<exists>s0. ibv_poll_cq V (receive_cq ctx) 1 s0 = ((1, [wc]), s') \<and>
    server_loop V print h A c s = server_loop V print h A c s0"
  using assms(1)
proof (induction rule: polls_one.induct)
  case (polls_now s wc s')
  then show ?case by blast
next
  case (polls_later s wcs s1 wc s')
  with serve_client_nothing [OF assms(2,3) polls_later.hyps(1)] show ?case
    by (subst server_loop_one [OF assms(4)]) simp
qed

text \<open>The next request arrives: it is in the receive buffer, and the store is as it was.\<close>

lemma request_received:
  assumes conn: "server_conn V W request h ctx s" and ok: "server_ok W A s"
  obtains s0 p h' ctx' s1 where "server_loop V print h A c s = server_loop V print h A c s0"
    "get_remote_control_message V (h\<lparr>ctx_index := 0\<rparr>) 0 s0 = Some (0, Some p, h', s1)"
    "server_conn V W request h' ctx' s1" "server_ok W A s1" "store_of W A s1 = store_of W A s"
    "nic_log W (world s1) = nic_log W (world s)" "message_at p (request (nic_log W (world s))) (pmem s1)"
proof -
  let ?p = "mr_control_receive_start_ptr ctx"
  from conn have h: "handle_ctx h = Some ctx" "ctx_index h = 0" "num_remote_host h = 1"
    and arr: "requests_arrive V W ctx request" and S: "session_ok V W h ctx s"
    by (auto simp: server_conn_def session_ok_def)
  from conn obtain bs mr where "bytes_from ?p (pmem s) = Some bs" "sizeof_ControlMessage \<le> length bs"
    and mr: "mr_control_receive ctx = Some mr" by (auto simp: server_conn_def)
  with arr server_okD(5) [OF ok] obtain wc s1 where poll: "polls_one V (receive_cq ctx) s wc s1"
    and wc: "wc_status wc = IBV_WC_SUCCESS" "wc_opcode wc = IBV_WC_RECV"
    and s1: "nic_call W s s1" "nic_mrs W (world s1) = nic_mrs W (world s)"
      "nic_log W (world s1) = nic_log W (world s)"
    and at: "message_at ?p (request (nic_log W (world s))) (pmem s1)"
    unfolding requests_arrive_def by blast
  from server_loop_waits [OF poll h, where A = A and c = c and print = print] obtain s0 where
    s0: "ibv_poll_cq V (receive_cq ctx) 1 s0 = ((1, [wc]), s1)"
      "server_loop V print h A c s = server_loop V print h A c s0" by blast
  have post: "posts_receives V W (qp ctx)" using arr by (simp add: requests_arrive_def)
  from poll_next_receive_wc_ok [OF post mr _ wc nic_callD(8) [OF s1(1)], where s = s0 and blocking = 0] s0(1)
  obtain r s2 where run: "poll_next_receive_wc V ctx 0 s0 = Some (0, ctx\<lparr>routs := r\<rparr>, s2)"
    and s2: "pmem s2 = pmem s1" "server_frame W {} {} s1 s2" "nic_log W (world s2) = nic_log W (world s1)"
    by auto
  from server_frame_trans [OF server_frame_call [OF s1(1,2)] s2(2)] have fr: "server_frame W {} {} s s2" by simp
  have idx: "h\<lparr>ctx_index := 0\<rparr> = h" using h(2) by (cases h) simp
  have "session_ok V W h ctx s2" by (rule session_ok_frame [OF fr server_okD(2) [OF ok] S]) simp
  from server_conn_routs [OF server_conn_keeps [OF conn keeps_blocks_frame [OF fr] server_okD(2) [OF ok] this], of r]
  have conn2: "server_conn V W request (set_handle_ctx (ctx\<lparr>routs := r\<rparr>) h) (ctx\<lparr>routs := r\<rparr>) s2" .
  have "get_remote_control_message V (h\<lparr>ctx_index := 0\<rparr>) 0 s0 =
      Some (0, Some ?p, set_handle_ctx (ctx\<lparr>routs := r\<rparr>) h, s2)"
    using h(1) run by (simp add: idx get_remote_control_message_def)
  from that [OF s0(2) this conn2] server_quiet_call [OF ok fr] s1(3) s2(1,3) at show ?thesis by simp
qed

text \<open>The session: one reply per request, and the last message ends the loop.\<close>

lemma shut_down_served:
  assumes "get_remote_control_message V (h\<lparr>ctx_index := i\<rparr>) 0 s = Some (0, Some p, h', s1)"
    and "message_at p Shut_Down (pmem s1)" and "kv_malloc s1 \<noteq> 1"
    and "c + 1 = num_remote_host h' \<or> print \<noteq> 1"
  shows "serve_client V print i h A c s = Some (c + 1 = num_remote_host h', h', A, c + 1, s1)"
  using assms message_at_operation [OF assms(2)]
  by (auto simp: serve_client_def serve_message_def free_array_def show_database_def)

lemma server_loop_session:
  assumes "server_conn V W request h ctx s" and "server_ok W A s"
    and "trusted_client print request n (store_of W A s) (nic_log W (world s))"
    and "unat (used_length A) + n < 2 ^ 57" and "unat (total_length A) < 2 ^ 58"
  shows "\<exists>h' A' s' st'. server_loop V print h A 0 s = Some (h', A', s') \<and>
    session request (store_of W A s) (nic_log W (world s)) n st' (nic_log W (world s'))"
  using assms
proof (induction n arbitrary: h ctx A s)
  case 0
  from request_received [OF 0(1,2), where c = 0 and print = print] obtain s0 p h' ctx' s1 where
    r: "server_loop V print h A 0 s = server_loop V print h A 0 s0"
      "get_remote_control_message V (h\<lparr>ctx_index := 0\<rparr>) 0 s0 = Some (0, Some p, h', s1)"
      "server_conn V W request h' ctx' s1" "server_ok W A s1" "store_of W A s1 = store_of W A s"
      "nic_log W (world s1) = nic_log W (world s)" "message_at p (request (nic_log W (world s))) (pmem s1)" .
  have "message_at p Shut_Down (pmem s1)" using r(7) 0(3) by simp
  from shut_down_served [OF r(2) this server_okD(4) [OF r(4)], where c = 0 and print = print] r(3)
  have "serve_client V print 0 h A 0 s0 = Some (True, h', A, 1, s1)" by (simp add: server_conn_def)
  moreover have "num_remote_host h = 1" using 0(1) by (simp add: server_conn_def)
  ultimately have "server_loop V print h A 0 s = Some (h', A, s1)" using r(1) by (simp add: server_loop_one)
  with r(6) session_end show ?case by metis
next
  case (Suc n)
  from request_received [OF Suc.prems(1,2), where c = 0 and print = print] obtain s0 p h' ctx' s1 where
    r: "server_loop V print h A 0 s = server_loop V print h A 0 s0"
      "get_remote_control_message V (h\<lparr>ctx_index := 0\<rparr>) 0 s0 = Some (0, Some p, h', s1)"
      "server_conn V W request h' ctx' s1" "server_ok W A s1" "store_of W A s1 = store_of W A s"
      "nic_log W (world s1) = nic_log W (world s)" "message_at p (request (nic_log W (world s))) (pmem s1)" .
  have S1: "session_ok V W h' ctx' s1" using r(3) by (simp add: server_conn_def)
  have trust: "request_ok (store_of W A s1) (request (nic_log W (world s)))"
    using Suc.prems(3) r(5) by simp
  from serve_client_serves [OF r(2) S1 r(4,7) trust Suc.prems(5), of print 0] obtain A' s' where
    run': "(print = 1 \<longrightarrow> printable_store (store_of W A' s')) \<longrightarrow>
      serve_client V print 0 h A 0 s0 = Some (False, h', A', 0, s')"
    and srv: "serves V W h' ctx' A s1 (request (nic_log W (world s))) A' s'" by blast
  then obtain reply e where ok': "server_ok W A' s'" and S': "session_ok V W h' ctx' s'"
    and keep: "keeps_blocks s1 s'" and e: "carries e reply"
    and step: "store_step (store_of W A s) (request (nic_log W (world s))) reply (store_of W A' s')"
    and log: "nic_log W (world s') = nic_log W (world s) @ [e]"
    using r(5,6) by (fastforce simp: serves_def replied_def carries_def)
  have conn': "server_conn V W request h' ctx' s'"
    by (rule server_conn_keeps [OF r(3) keep server_okD(2) [OF r(4)] S'])
  have tr': "trusted_client print request n (store_of W A' s') (nic_log W (world s'))"
    using Suc.prems(3) step e unfolding log trusted_client.simps by blast
  have run: "serve_client V print 0 h A 0 s0 = Some (False, h', A', 0, s')"
    using Suc.prems(3) step e run' unfolding trusted_client.simps by blast
  have "table_grows A A'" by (rule serve_client_grows [OF Suc.prems(5) run])
  then have b': "unat (used_length A') + n < 2 ^ 57" "unat (total_length A') < 2 ^ 58"
    using Suc.prems(4,5) by (auto simp: table_grows_def)
  from Suc.IH [OF conn' ok' tr' b'] obtain h2 A2 s2 st' where
    fin: "server_loop V print h' A' 0 s' = Some (h2, A2, s2)"
      "session request (store_of W A' s') (nic_log W (world s) @ [e]) n st' (nic_log W (world s2))"
    unfolding log by blast
  have "num_remote_host h = 1" using Suc.prems(1) by (simp add: server_conn_def)
  then have "server_loop V print h A 0 s = Some (h2, A2, s2)" using r(1) run fin(1) by (simp add: server_loop_one)
  with session_step [OF step e fin(2)] show ?case by blast
qed

text \<open>The server begins with an empty table, and nothing but its own buffers registered.\<close>

definition server_begins :: "'w nic_view \<Rightarrow> 'w pstate \<Rightarrow> bool" where
  "server_begins W s \<longleftrightarrow>
     mem_ok (pmem s) \<and> mem_avail (pmem s) \<and> kv_malloc s \<noteq> 1 \<and> nic_up W (world s) \<and>
     (\<forall>mr acc. (mr, acc) \<in> nic_mrs W (world s) \<longrightarrow> pblk (mr_addr mr) < next_blk (pmem s)) \<and>
     (\<forall>b \<in> nic_work W. b < next_blk (pmem s))"

lemma run_server_session:
  assumes conn: "server_conn V W request h ctx s" and begins: "server_begins W s"
    and trust: "trusted_client print request n Map.empty (nic_log W (world s))" and "n < 2 ^ 57"
  shows "\<exists>h' s' st'. run_server V print h s = Some (0, h', s') \<and>
    session request Map.empty (nic_log W (world s)) n st' (nic_log W (world s'))"
proof -
  let ?A = "initialize_KeyValueAddressArray 20"
  have A: "array_ok ?A (pmem s)" "array_map ?A (pmem s) = Map.empty" "unat (total_length ?A) = nat 20"
    "used_length ?A = 0" by (rule initialize_ok; simp)+
  have ok: "server_ok W ?A s" using begins A(1,2) by (simp add: server_ok_def server_begins_def)
  have st: "store_of W ?A s = Map.empty" using A(2) by (simp add: store_of_def fun_eq_iff)
  from server_loop_session [OF conn ok, where n = n and print = print] trust A(3,4) assms(4) obtain h' A' s' st' where
    "server_loop V print h ?A 0 s = Some (h', A', s')"
    "session request Map.empty (nic_log W (world s)) n st' (nic_log W (world s'))"
    unfolding st by auto
  then show ?thesis by (auto simp: run_server_def set_kv_malloc_def)
qed

end
