(* ===== verification/Session_Properties.thy ===== *)
theory Session_Properties
  imports Server_Properties Client_Properties KV_Session
begin

text \<open>
  Properties of whole sessions of the key-value store (LowLatencyProtocols/kv_api.c): a run of
  \<open>run_server\<close> with its client, and a client that sets a key and gets it back.
\<close>

section \<open>The server\<close>

text \<open>
  C2. \<open>run_server\<close> serves its client to the end: whatever \<open>n\<close> requests the client sends, each
  one the code trusts, with any number of fruitless polls in between, the server returns 0 once
  the client has asked it to stop; it has sent exactly \<open>n\<close> messages, and requests and replies
  are, one by one, the steps of the abstract store, from the empty store on. A server that
  prints its database (as the one of a command file does) must be able to print every value.
\<close>

theorem run_server_serves_session:
  assumes "server_conn V W request h ctx s" and "server_begins W s"
    and "trusted_client print_database request n Map.empty (nic_log W (world s))" and "n < 2 ^ 57"
  shows "\<exists>h' s' st'. run_server V print_database h s = Some (0, h', s') \<and>
    session request Map.empty (nic_log W (world s)) n st' (nic_log W (world s'))"
  using assms by (rule run_server_session)

definition demo_requests :: "sent \<Rightarrow> message" where
  "demo_requests l =
     (if length l = 0 then Set_Eager demo_key 2 [120] else if length l = 1 then Get demo_key else Shut_Down)"

lemma peer_requests_arrive: "peer_answers V W ctx request \<Longrightarrow> requests_arrive V W ctx request"
  unfolding peer_answers_def requests_arrive_def by blast

lemma demo_server_conn:
  assumes "\<And>l. message_wf (request l)" and "\<And>l. length (message_bytes (request l)) \<le> 4100"
  shows "server_conn (demo_peer request) loop_view request (demo_client c) (demo_client_ctx c) (demo_client_state v)"
proof -
  note C = demo_client_ok [of request c v, OF assms]
  from C have "session_ok (demo_peer request) loop_view (demo_client c) (demo_client_ctx c) (demo_client_state v)"
    "requests_arrive (demo_peer request) loop_view (demo_client_ctx c) request"
    by (auto simp: client_ok_def intro: peer_requests_arrive)
  moreover have "num_remote_host (demo_client c) = 1" "ctx_index (demo_client c) = 0"
    by (simp_all add: demo_client_def demo_handle_def)
  ultimately show ?thesis using C by (auto simp: server_conn_def client_ok_def)
qed

lemma demo_server_begins: "server_begins loop_view (demo_client_state v)"
  using demo_client_live
  by (auto simp: server_begins_def mem_ok_def mem_avail_def demo_client_state_def demo_state_def demo_mem_def
      loop_view_def)

lemma demo_trusted: "trusted_client 1 demo_requests 2 Map.empty []"
proof -
  let ?st = "[demo_key \<mapsto> Ready [120, 0]]"
  have set: "st' = ?st" if "store_step Map.empty (Set_Eager demo_key 2 [120]) reply st'" for reply st'
    using that by (rule store_step_eagerE) (auto simp: key_busy_def)
  have get: "st' = ?st" if "store_step ?st (Get demo_key) reply st'" for reply st'
    using that by (rule store_step_getE) (auto simp: key_busy_def)
  have ok: "request_ok ?st (Get demo_key)" "printable_store ?st"
    by (simp_all add: printable_store_def printable_def)
  have "trusted_client 1 demo_requests 0 ?st [e, e']" for e e' by (simp add: demo_requests_def)
  with get ok have "trusted_client 1 demo_requests (Suc 0) ?st [e]" for e
    unfolding trusted_client.simps by (auto simp: demo_requests_def dest: get)
  moreover have "demo_requests [] = Set_Eager demo_key 2 [120]" by (simp add: demo_requests_def)
  ultimately have "trusted_client 1 demo_requests (Suc (Suc 0)) Map.empty []"
    unfolding trusted_client.simps(2) [of 1 demo_requests "Suc 0"] using set ok(2) by (auto dest: set)
  then show ?thesis by (simp only: numeral_2_eq_2)
qed

theorem run_server_serves_session_witness:
  "\<exists>h' s' st'. run_server (demo_peer demo_requests) 1 (demo_client 50) (demo_client_state [118]) = Some (0, h', s') \<and>
    session demo_requests Map.empty (nic_log loop_view (world (demo_client_state [118]))) 2 st'
      (nic_log loop_view (world s'))"
proof (rule run_server_serves_session [OF demo_server_conn demo_server_begins])
  show "trusted_client 1 demo_requests 2 Map.empty (nic_log loop_view (world (demo_client_state [118])))"
    using demo_trusted by (simp add: loop_view_def demo_client_state_def demo_state_def)
qed (simp_all add: demo_requests_def message_wf_def message_bytes_def demo_key_def)

section \<open>The client\<close>

text \<open>
  C35. Read your writes, end to end: against a server that answers as the abstract store does, and
  a key that is not in progress, \<open>kv_set\<close> of a value that fits a control message returns 0,
  and \<open>kv_get\<close> then returns 0 and a fresh object that holds exactly this value.
\<close>

theorem get_returns_what_was_set:
  assumes ok: "client_ok V W answer h ctx s"
    and key: "c_string key (pmem s) = Some k" "pblk key \<notin> nic_dma W (world s)"
    and val: "c_string value (pmem s) = Some v" "pblk value \<notin> nic_work W"
    and small: "length k + length v + 10 \<le> CONTROL_MESSAGE_BUFFER_SIZE"
    and idle: "\<not> key_busy st k"
    and peer: "follows_store answer [Set_Eager k (of_nat (length v + 1)) v, Get k] st (nic_log W (world s))"
  shows "\<exists>h1 s1 var h2 s2. kv_set V h key value s = Some (0, h1, s1) \<and>
    kv_get V h1 key s1 = Some (0, Some var, h2, s2) \<and> bytes_from var (pmem s2) = Some (v @ [0]) \<and>
    next_blk (pmem s1) \<le> pblk var"
proof -
  have "pblk key \<notin> nic_work W" using key(2) nic_work_dma [of W "world s"] by blast
  from kv_set_eager_run [OF ok key(1) val(1) this val(2) small] obtain e h1 ctx1 s1 where
    set: "kv_set V h key value s = Some (set_result (answer (nic_log W (world s) @ [e])), h1, s1)"
      "carries e (Set_Eager k (of_nat (length v + 1)) v)"
    and log: "nic_log W (world s1) = nic_log W (world s) @ [e]"
    and fr: "server_frame W {} {} s s1" and ok1: "client_ok V W answer h1 ctx1 s1" by blast
  have lengths: "length v + 1 < 4096" "length k + 1 \<le> CONTROL_MESSAGE_BUFFER_SIZE"
    using small by (simp_all add: CONTROL_MESSAGE_BUFFER_SIZE_def)
  from follows_eager_set [OF peer idle _ set(2)] lengths(1)
  have ans: "answer (nic_log W (world s) @ [e]) = Set_Successful"
    and rest: "follows_store answer [Get k] (st(k \<mapsto> Ready (v @ [0]))) (nic_log W (world s1))"
    unfolding log by simp_all
  have key1: "c_string key (pmem s1) = Some k" "pblk key \<notin> nic_dma W (world s1)"
    using c_string_server_frame [OF fr client_okD(2) [OF ok] key] server_frameD(10) [OF fr] key(2) by auto
  from follows_get_ready [OF rest _ lengths(1) c_string_no_nul [OF val(1)]]
  have "answer (nic_log W (world s1) @ [e']) = Get_Eager v" if "carries e' (Get k)" for e' using that by simp
  from kv_get_eager_run [OF ok1 key1 lengths(2) this] set(1) ans show ?thesis by auto
qed

definition demo_answers :: "sent \<Rightarrow> message" where
  "demo_answers l = (if length l = 1 then Set_Successful else Get_Eager [118])"

lemma demo_follows: "follows_store demo_answers [Set_Eager demo_key 2 [118], Get demo_key] Map.empty []"
proof -
  have "store_step Map.empty (Set_Eager demo_key 2 [118]) Set_Successful [demo_key \<mapsto> Ready ([118] @ 0 # [])]"
    by (rule eager_set) (simp_all add: key_busy_def)
  moreover have "store_step [demo_key \<mapsto> Ready ([118] @ 0 # [])] (Get demo_key) (Get_Eager [118])
      [demo_key \<mapsto> Ready ([118] @ 0 # [])]" by (rule get_eager [where bs = "[118] @ 0 # []"]) simp_all
  ultimately show ?thesis unfolding follows_store.simps demo_answers_def by fastforce
qed

theorem get_returns_what_was_set_witness:
  "\<exists>h1 s1 var h2 s2.
    kv_set (demo_peer demo_answers) (demo_client 50) (Ptr 2 0) (Ptr 3 0) (demo_client_state [118]) = Some (0, h1, s1) \<and>
    kv_get (demo_peer demo_answers) h1 (Ptr 2 0) s1 = Some (0, Some var, h2, s2) \<and>
    bytes_from var (pmem s2) = Some ([118] @ [0]) \<and> next_blk (pmem s1) \<le> pblk var"
proof (rule get_returns_what_was_set [where st = Map.empty and k = demo_key, OF demo_client_ok demo_client_key])
  show "c_string (Ptr 3 0) (pmem (demo_client_state [118])) = Some [118]"
    using demo_client_strings [of "[118]"] by (simp add: client_strings_def)
  show "follows_store demo_answers [Set_Eager demo_key (of_nat (length [118 :: byte] + 1)) [118], Get demo_key]
      Map.empty (nic_log loop_view (world (demo_client_state [118])))"
    using demo_follows by (simp add: loop_view_def demo_client_state_def demo_state_def)
qed (simp_all add: demo_answers_def message_wf_def message_bytes_def demo_key_def key_busy_def loop_view_def
    CONTROL_MESSAGE_BUFFER_SIZE_def)

end
