(* ===== verification/KV_System.thy ===== *)
theory KV_System
  imports KV_Session KV_Client_Correct KV_Main
begin

text \<open>
  Client and server together (LowLatencyProtocols/kv_api.c). A client program is a list of
  calls of \<open>kv_set\<close> and \<open>kv_get\<close>; its specification is a dictionary. The first part runs it
  against any peer that answers as the abstract store does, the second links it with a run of
  \<open>run_server\<close>: each side receives what the other has sent, in order.
\<close>

section \<open>Client programs\<close>

datatype kv_call = Set_Call ptr ptr | Get_Call ptr

text \<open>The result of a call: what it returns and, for a get, the string it leaves in \<open>*var\<close>.\<close>

type_synonym call_result = "int \<times> byte list option"

fun run_calls ::
  "('w, 'z) verbs_scheme \<Rightarrow> kv_call list \<Rightarrow> KVHandle \<Rightarrow> 'w pstate \<Rightarrow>
   (call_result list \<times> KVHandle \<times> 'w pstate) option" where
  "run_calls V [] h s = Some ([], h, s)"
| "run_calls V (Set_Call key val # cs) h s =
     do { (r, h, s) \<leftarrow> kv_set V h key val s;
          (rs, h, s) \<leftarrow> run_calls V cs h s;
          Some ((r, None) # rs, h, s) }"
| "run_calls V (Get_Call key # cs) h s =
     do { (r, var, h, s) \<leftarrow> kv_get V h key s;
          let got = Option.bind var (\<lambda>p. c_string p (pmem s));
          (rs, h, s) \<leftarrow> run_calls V cs h s;
          Some ((r, got) # rs, h, s) }"

fun call_request :: "mem \<Rightarrow> kv_call \<Rightarrow> message" where
  "call_request m (Set_Call key val) =
     (let v = the (c_string val m) in Set_Eager (the (c_string key m)) (of_nat (length v + 1)) v)"
| "call_request m (Get_Call key) = Get (the (c_string key m))"

text \<open>The arguments are strings out of the adapter's reach, and the request fits a message.\<close>

fun call_ok :: "'w nic_view \<Rightarrow> 'w pstate \<Rightarrow> kv_call \<Rightarrow> bool" where
  "call_ok W s (Set_Call key val) \<longleftrightarrow>
     (\<exists>k v. c_string key (pmem s) = Some k \<and> c_string val (pmem s) = Some v \<and>
        length k + length v + 10 \<le> CONTROL_MESSAGE_BUFFER_SIZE) \<and>
     pblk key \<notin> nic_dma W (world s) \<and> pblk val \<notin> nic_dma W (world s)"
| "call_ok W s (Get_Call key) \<longleftrightarrow>
     (\<exists>k. c_string key (pmem s) = Some k \<and> length k + 1 \<le> CONTROL_MESSAGE_BUFFER_SIZE) \<and>
     pblk key \<notin> nic_dma W (world s)"

text \<open>The specification: a dictionary from keys to values.\<close>

fun dictionary_results :: "mem \<Rightarrow> (byte list \<rightharpoonup> byte list) \<Rightarrow> kv_call list \<Rightarrow> call_result list" where
  "dictionary_results m M [] = []"
| "dictionary_results m M (Set_Call key val # cs) =
     (0, None) # dictionary_results m (M(the (c_string key m) \<mapsto> the (c_string val m))) cs"
| "dictionary_results m M (Get_Call key # cs) =
     (case M (the (c_string key m)) of None \<Rightarrow> (1, None) | Some v \<Rightarrow> (0, Some v)) # dictionary_results m M cs"

text \<open>The store that holds a dictionary of short strings, no key of it in progress.\<close>

definition dictionary_store :: "(byte list \<rightharpoonup> byte list) \<Rightarrow> store" where
  "dictionary_store M k = map_option (\<lambda>v. Ready (v @ [0])) (M k)"

definition short_values :: "(byte list \<rightharpoonup> byte list) \<Rightarrow> bool" where
  "short_values M \<longleftrightarrow> (\<forall>k v. M k = Some v \<longrightarrow> 0 \<notin> set v \<and> length v + 1 < 4096)"

lemma dictionary_store_upd: "dictionary_store (M(k \<mapsto> v)) = (dictionary_store M)(k \<mapsto> Ready (v @ [0]))"
  by (simp add: dictionary_store_def fun_eq_iff)

lemma dictionary_store_empty [simp]: "dictionary_store Map.empty = Map.empty"
  by (simp add: dictionary_store_def fun_eq_iff)

lemma dictionary_store_idle: "\<not> key_busy (dictionary_store M) k"
  by (auto simp: key_busy_def dictionary_store_def split: option.splits)

lemma short_values_upd: "short_values M \<Longrightarrow> 0 \<notin> set v \<Longrightarrow> length v + 1 < 4096 \<Longrightarrow> short_values (M(k \<mapsto> v))"
  by (simp add: short_values_def)

lemma dictionary_store_printable: "printable_store (dictionary_store M)"
  by (auto simp: printable_store_def dictionary_store_def printable_def)

section \<open>Against the abstract store\<close>

lemma call_frame:
  assumes fr: "server_frame W {} {} s s'" and ok: "mem_ok (pmem s)" and c: "call_ok W s c"
  shows "call_ok W s' c" and "call_request (pmem s') c = call_request (pmem s) c"
proof -
  have dma: "b \<notin> nic_dma W (world s')" if "b \<notin> nic_dma W (world s)" for b
    using server_frameD(10) [OF fr] that by blast
  note str = c_string_server_frame [OF fr ok]
  show "call_ok W s' c" using c dma str by (cases c) auto
  show "call_request (pmem s') c = call_request (pmem s) c" using c str by (cases c) auto
qed

lemma call_ok_Set:
  assumes "call_ok W s (Set_Call key val)"
  obtains k v where "c_string key (pmem s) = Some k" "c_string val (pmem s) = Some v" "pblk key \<notin> nic_work W"
    "pblk val \<notin> nic_work W" "length k + length v + 10 \<le> CONTROL_MESSAGE_BUFFER_SIZE" "length v + 1 < 4096"
    "0 \<notin> set v"
  using assms nic_work_dma [of W "world s"] c_string_no_nul [of val "pmem s"]
  by (fastforce simp: CONTROL_MESSAGE_BUFFER_SIZE_def)

text \<open>The results only depend on the strings of the calls that are still to come.\<close>

lemma dictionary_results_cong:
  assumes "server_frame W {} {} s s'" and "mem_ok (pmem s)" and "\<forall>c \<in> set cs. call_ok W s c"
  shows "dictionary_results (pmem s') M cs = dictionary_results (pmem s) M cs"
  using assms(3)
proof (induction cs arbitrary: M)
  case (Cons c cs)
  then show ?case using c_string_server_frame [OF assms(1,2)] by (cases c) (fastforce split: option.splits)+
qed simp

lemma follows_get:
  assumes "follows_store answer (Get k # reqs) (dictionary_store M) l" and "short_values M" and "carries e (Get k)"
  shows "answer (l @ [e]) = (case M k of None \<Rightarrow> Get_Key_Not_Found | Some v \<Rightarrow> Get_Eager v)"
    and "follows_store answer reqs (dictionary_store M) (l @ [e])"
proof -
  from assms(1,3) obtain st' where st': "store_step (dictionary_store M) (Get k) (answer (l @ [e])) st'"
    "follows_store answer reqs st' (l @ [e])" unfolding follows_store.simps by blast
  from st'(1) have "answer (l @ [e]) = (case M k of None \<Rightarrow> Get_Key_Not_Found | Some v \<Rightarrow> Get_Eager v) \<and>
      st' = dictionary_store M"
  proof (cases "M k")
    case None
    with st'(1) dictionary_store_idle [of M k] show ?thesis
      by (auto simp: dictionary_store_def elim!: store_step_getE)
  next
    case (Some v)
    then have "dictionary_store M k = Some (Ready (v @ [0]))" "0 \<notin> set v" "length v + 1 < 4096"
      using assms(2) by (auto simp: dictionary_store_def short_values_def)
    with st'(1) dictionary_store_idle [of M k] Some show ?thesis by (auto elim!: store_step_getE)
  qed
  with st'(2) show "answer (l @ [e]) = (case M k of None \<Rightarrow> Get_Key_Not_Found | Some v \<Rightarrow> Get_Eager v)"
    "follows_store answer reqs (dictionary_store M) (l @ [e])" by simp_all
qed

text \<open>One get against a store that holds the dictionary.\<close>

lemma get_call_run:
  assumes ok: "client_ok V W answer h ctx s" and c: "call_ok W s (Get_Call key)" and M: "short_values M"
    and peer: "follows_store answer (call_request (pmem s) (Get_Call key) # reqs) (dictionary_store M) (nic_log W (world s))"
  obtains r var h' ctx' s' e where "kv_get V h key s = Some (r, var, h', s')"
    "(r, Option.bind var (\<lambda>p. c_string p (pmem s'))) =
       (case M (the (c_string key (pmem s))) of None \<Rightarrow> (1, None) | Some v \<Rightarrow> (0, Some v))"
    "carries e (call_request (pmem s) (Get_Call key))" "nic_log W (world s') = nic_log W (world s) @ [e]"
    "server_frame W {} {} s s'" "client_ok V W answer h' ctx' s'"
    "follows_store answer reqs (dictionary_store M) (nic_log W (world s'))"
proof -
  from c obtain k where k: "c_string key (pmem s) = Some k" "length k + 1 \<le> CONTROL_MESSAGE_BUFFER_SIZE"
    "pblk key \<notin> nic_dma W (world s)" by auto
  then have req: "call_request (pmem s) (Get_Call key) = Get k" by simp
  note peer = peer [unfolded req]
  show ?thesis
  proof (cases "M k")
    case None
    with follows_get(1) [OF peer M]
    have "\<And>e. carries e (Get k) \<Longrightarrow> answer (nic_log W (world s) @ [e]) \<in> {Get_Key_Not_Found, In_Progress}" by simp
    from kv_get_refused [OF ok k(1,3,2) this] obtain e h' ctx' s' where
      run: "kv_get V h key s = Some (1, Some NULL, h', s')" "carries e (Get k)"
        "nic_log W (world s') = nic_log W (world s) @ [e]" "server_frame W {} {} s s'"
        "client_ok V W answer h' ctx' s'" by blast
    have "c_string NULL (pmem s') = None" by (simp add: c_string_def bytes_from_def)
    with that [OF run(1) _ _ run(3-5)] run(2,3) follows_get(2) [OF peer M run(2)] None k(1) req
    show ?thesis by simp
  next
    case (Some v)
    with follows_get(1) [OF peer M]
    have "\<And>e. carries e (Get k) \<Longrightarrow> answer (nic_log W (world s) @ [e]) = Get_Eager v" by simp
    from kv_get_eager_run [OF ok k(1,3,2) this] obtain e var h' ctx' s' where
      run: "kv_get V h key s = Some (0, Some var, h', s')" "carries e (Get k)" "bytes_from var (pmem s') = Some (v @ [0])"
        "nic_log W (world s') = nic_log W (world s) @ [e]" "server_frame W {} {} s s'"
        "client_ok V W answer h' ctx' s'" by blast
    have "0 \<notin> set v" using M Some by (auto simp: short_values_def)
    with run(3) have "c_string var (pmem s') = Some v" by (simp add: c_string_at)
    with that [OF run(1) _ _ run(4-6)] run(2,4) follows_get(2) [OF peer M run(2)] Some k(1) req
    show ?thesis by simp
  qed
qed

lemma run_calls_follow:
  assumes "client_ok V W answer h ctx s" and "\<forall>c \<in> set cs. call_ok W s c" and "short_values M"
    and "follows_store answer (map (call_request (pmem s)) cs) (dictionary_store M) (nic_log W (world s))"
  shows "\<exists>h' ctx' s' es. run_calls V cs h s = Some (dictionary_results (pmem s) M cs, h', s') \<and>
    client_ok V W answer h' ctx' s' \<and> nic_log W (world s') = nic_log W (world s) @ es \<and>
    list_all2 carries es (map (call_request (pmem s)) cs)"
  using assms
proof (induction cs arbitrary: h ctx s M)
  case Nil
  then show ?case by auto
next
  case (Cons c cs)
  note ok = Cons.prems(1) and mok = client_okD(2) [OF Cons.prems(1)]
  have rest: "\<exists>h' ctx' s' es. run_calls V cs h1 s1 = Some (dictionary_results (pmem s) N cs, h', s') \<and>
      client_ok V W answer h' ctx' s' \<and> nic_log W (world s') = nic_log W (world s) @ e # es \<and>
      list_all2 carries (e # es) (map (call_request (pmem s)) (c # cs))"
    if fr: "server_frame W {} {} s s1" and ok1: "client_ok V W answer h1 ctx1 s1" and N: "short_values N"
      and log: "nic_log W (world s1) = nic_log W (world s) @ [e]" and e: "carries e (call_request (pmem s) c)"
      and peer: "follows_store answer (map (call_request (pmem s)) cs) (dictionary_store N) (nic_log W (world s1))"
    for h1 ctx1 s1 N e
  proof -
    have cs: "\<forall>c \<in> set cs. call_ok W s c" using Cons.prems(2) by simp
    then have "\<forall>c \<in> set cs. call_ok W s1 c" and req: "map (call_request (pmem s1)) cs = map (call_request (pmem s)) cs"
      using call_frame [OF fr mok] by auto
    from Cons.IH [OF ok1 this(1) N] peer obtain h' ctx' s' es where
      "run_calls V cs h1 s1 = Some (dictionary_results (pmem s1) N cs, h', s')" "client_ok V W answer h' ctx' s'"
      "nic_log W (world s') = nic_log W (world s1) @ es" "list_all2 carries es (map (call_request (pmem s)) cs)"
      unfolding req by blast
    with log e dictionary_results_cong [OF fr mok cs] show ?thesis by auto
  qed
  show ?case
  proof (cases c)
    case (Set_Call key val)
    with Cons.prems(2) have "call_ok W s (Set_Call key val)" by simp
    then obtain k v where k: "c_string key (pmem s) = Some k" "c_string val (pmem s) = Some v"
      "pblk key \<notin> nic_work W" "pblk val \<notin> nic_work W"
      "length k + length v + 10 \<le> CONTROL_MESSAGE_BUFFER_SIZE" "length v + 1 < 4096" "0 \<notin> set v"
      by (rule call_ok_Set)
    let ?req = "Set_Eager k (of_nat (length v + 1)) v"
    have req: "call_request (pmem s) c = ?req" using Set_Call k by (simp add: Let_def del: of_nat_add)
    from kv_set_eager_run [OF ok k(1-5)] obtain e h1 ctx1 s1 where
      run: "kv_set V h key val s = Some (set_result (answer (nic_log W (world s) @ [e])), h1, s1)"
      and e: "carries e ?req" and log: "nic_log W (world s1) = nic_log W (world s) @ [e]"
      and fr: "server_frame W {} {} s s1" and ok1: "client_ok V W answer h1 ctx1 s1" by blast
    have "follows_store answer (?req # map (call_request (pmem s)) cs) (dictionary_store M) (nic_log W (world s))"
      using Cons.prems(4) req by simp
    from follows_eager_set [OF this dictionary_store_idle _ e] k(6)
    have ans: "answer (nic_log W (world s) @ [e]) = Set_Successful"
      and peer: "follows_store answer (map (call_request (pmem s)) cs) (dictionary_store (M(k \<mapsto> v)))
        (nic_log W (world s1))" unfolding log dictionary_store_upd by simp_all
    from rest [OF fr ok1 short_values_upd [OF Cons.prems(3) k(7,6)] log _ peer] e req run ans k(1,2) Set_Call
    show ?thesis by fastforce
  next
    case (Get_Call key)
    with Cons.prems(2,4) have c: "call_ok W s (Get_Call key)"
      "follows_store answer (call_request (pmem s) (Get_Call key) # map (call_request (pmem s)) cs)
        (dictionary_store M) (nic_log W (world s))" by simp_all
    from get_call_run [OF ok c(1) Cons.prems(3) c(2)] obtain r var h1 ctx1 s1 e where
      run: "kv_get V h key s = Some (r, var, h1, s1)"
        "(r, Option.bind var (\<lambda>p. c_string p (pmem s1))) =
          (case M (the (c_string key (pmem s))) of None \<Rightarrow> (1, None) | Some v \<Rightarrow> (0, Some v))"
        "carries e (call_request (pmem s) (Get_Call key))" "nic_log W (world s1) = nic_log W (world s) @ [e]"
        "server_frame W {} {} s s1" "client_ok V W answer h1 ctx1 s1"
        "follows_store answer (map (call_request (pmem s)) cs) (dictionary_store M) (nic_log W (world s1))" .
    from rest [OF run(5,6) Cons.prems(3) run(4) _ run(7)] run(1-3) Get_Call show ?thesis by fastforce
  qed
qed

section \<open>Linked with the server\<close>

text \<open>
  The server receives the messages \<open>reqs\<close>, one for each reply it has sent; after its \<open>i\<close>-th
  message the client receives the \<open>i\<close>-th reply.
\<close>

definition issues :: "(sent \<Rightarrow> message) \<Rightarrow> sent \<Rightarrow> message list \<Rightarrow> bool" where
  "issues request l reqs \<longleftrightarrow> (\<forall>es. length es < length reqs \<longrightarrow> request (l @ es) = reqs ! length es)"

definition delivers :: "sent \<Rightarrow> sent \<Rightarrow> (sent \<Rightarrow> message) \<Rightarrow> sent \<Rightarrow> bool" where
  "delivers l l' answer c \<longleftrightarrow>
     (\<forall>cs. cs \<noteq> [] \<and> length l + length cs \<le> length l' \<longrightarrow>
        message_wf (answer (c @ cs)) \<and> carries (l' ! (length l + length cs - 1)) (answer (c @ cs)))"

lemma issues_Cons: "issues request l (q # qs) \<Longrightarrow> request l = q \<and> issues request (l @ [e]) qs"
  unfolding issues_def by (metis append.assoc append_Cons append_Nil append_Nil2 length_Cons list.size(3) not_less_eq
      nth_Cons_0 nth_Cons_Suc zero_less_Suc)

lemma delivers_Cons: "delivers l l' answer c \<Longrightarrow> delivers (l @ [e]) l' answer (c @ [e'])"
  unfolding delivers_def
proof (intro allI impI)
  fix cs :: sent
  assume all: "\<forall>cs. cs \<noteq> [] \<and> length l + length cs \<le> length l' \<longrightarrow>
        message_wf (answer (c @ cs)) \<and> carries (l' ! (length l + length cs - 1)) (answer (c @ cs))"
    and "cs \<noteq> [] \<and> length (l @ [e]) + length cs \<le> length l'"
  with spec [OF all, of "e' # cs"]
  show "message_wf (answer ((c @ [e']) @ cs)) \<and>
      carries (l' ! (length (l @ [e]) + length cs - 1)) (answer ((c @ [e']) @ cs))" by simp
qed

lemma session_extends: "session request st l n st' l' \<Longrightarrow> \<exists>es. l' = l @ es \<and> length es = n"
  by (induction rule: session.induct) force+

lemma store_step_reply_wf: "store_step st req reply st' \<Longrightarrow> message_wf reply"
  by (induction rule: store_step.induct) (auto simp: message_wf_def dest: cstr_noNul)

lemma carries_unique: "carries e x \<Longrightarrow> carries e y \<Longrightarrow> message_wf x \<Longrightarrow> message_wf y \<Longrightarrow> x = y"
  unfolding carries_def by (metis message_bytes_unique)

text \<open>What the client receives from a session of the server are answers of the abstract store.\<close>

lemma session_follows:
  assumes "session request st l n st' l'" and "issues request l qs" and "length qs = n"
    and "delivers l l' answer c"
  shows "follows_store answer qs st c"
  using assms
proof (induction arbitrary: qs c rule: session.induct)
  case (session_end st l)
  then show ?case by simp
next
  case (session_step st l reply st1 e n st' l')
  then obtain q qs' where qs: "qs = q # qs'" "length qs' = n" by (cases qs) auto
  have q: "request l = q" "issues request (l @ [e]) qs'"
    using issues_Cons session_step.prems(1) unfolding qs(1) by blast+
  from session_extends [OF session_step.hyps(3)] obtain es where l': "l' = (l @ [e]) @ es" by blast
  have "answer (c @ [e']) = reply \<and> follows_store answer qs' st1 (c @ [e'])" for e'
  proof
    have "message_wf (answer (c @ [e'])) \<and> carries (l' ! length l) (answer (c @ [e']))"
      using session_step.prems(3) l' unfolding delivers_def by (metis One_nat_def add_diff_cancel_right'
          le_add1 length_Cons length_append list.distinct(1) list.size(3))
    moreover have "l' ! length l = e" using l' by simp
    ultimately show "answer (c @ [e']) = reply"
      using carries_unique [OF _ session_step.hyps(2)] store_step_reply_wf [OF session_step.hyps(1)] by simp
    show "follows_store answer qs' st1 (c @ [e'])"
      by (rule session_step.IH [OF q(2) qs(2) delivers_Cons [OF session_step.prems(3)]])
  qed
  then show ?case using session_step.hyps(1) q(1) unfolding qs(1) follows_store.simps by metis
qed

text \<open>The server may trust such a client.\<close>

lemma call_step:
  assumes "call_ok W s c" and "short_values M"
  shows "request_ok (dictionary_store M) (call_request (pmem s) c)"
    and "store_step (dictionary_store M) (call_request (pmem s) c) reply st' \<Longrightarrow>
      \<exists>N. st' = dictionary_store N \<and> short_values N"
proof -
  have "request_ok (dictionary_store M) (call_request (pmem s) c) \<and>
    (store_step (dictionary_store M) (call_request (pmem s) c) reply st' \<longrightarrow>
      (\<exists>N. st' = dictionary_store N \<and> short_values N))"
  proof (cases c)
    case (Set_Call key val)
    with assms(1) have "call_ok W s (Set_Call key val)" by simp
    then obtain k v where k: "c_string key (pmem s) = Some k" "c_string val (pmem s) = Some v"
      "pblk key \<notin> nic_work W" "pblk val \<notin> nic_work W"
      "length k + length v + 10 \<le> CONTROL_MESSAGE_BUFFER_SIZE" "length v + 1 < 4096" "0 \<notin> set v"
      by (rule call_ok_Set)
    then have n: "unat (of_nat (length v + 1) :: size_t) = length v + 1"
      by (simp add: unat_of_nat del: of_nat_add of_nat_Suc)
    have req: "call_request (pmem s) c = Set_Eager k (of_nat (length v + 1)) v"
      using Set_Call k by (simp add: Let_def del: of_nat_add of_nat_Suc)
    have "st' = dictionary_store (M(k \<mapsto> v))" if "store_step (dictionary_store M) (call_request (pmem s) c) reply st'"
      using that unfolding req
      by (rule store_step_eagerE) (use n dictionary_store_idle in \<open>auto simp: dictionary_store_upd\<close>)
    moreover have "short_values (M(k \<mapsto> v))" by (rule short_values_upd [OF assms(2) k(7,6)])
    moreover have "request_ok (dictionary_store M) (call_request (pmem s) c)" unfolding req request_ok.simps n by simp
    ultimately show ?thesis by blast
  next
    case (Get_Call key)
    with assms(1) obtain k where "c_string key (pmem s) = Some k" by auto
    then have req: "call_request (pmem s) c = Get k" using Get_Call by simp
    have short: "length (v @ [0]) < 4096 \<and> cstr (v @ [0]) \<noteq> None" if "M k = Some v" for v
      using assms(2) that by (auto simp: short_values_def)
    then have "request_ok (dictionary_store M) (Get k)"
      by (auto simp: dictionary_store_def split: option.splits)
    moreover have "st' = dictionary_store M" if "store_step (dictionary_store M) (Get k) reply st'"
      using that
    proof (rule store_step_getE)
      fix bs n va rk assume "dictionary_store M k = Some (Ready bs)" "4096 \<le> length bs"
      then show ?thesis using short by (auto simp: dictionary_store_def)
    qed (simp_all add: dictionary_store_idle)
    ultimately show ?thesis using assms(2) unfolding req by blast
  qed
  then show "request_ok (dictionary_store M) (call_request (pmem s) c)"
    and "store_step (dictionary_store M) (call_request (pmem s) c) reply st' \<Longrightarrow>
      \<exists>N. st' = dictionary_store N \<and> short_values N" by blast+
qed

lemma calls_trusted:
  assumes "\<forall>c \<in> set cs. call_ok W s c" and "short_values M"
    and "issues request l (map (call_request (pmem s)) cs @ [Shut_Down])"
  shows "trusted_client print request (length cs) (dictionary_store M) l"
  using assms
proof (induction cs arbitrary: M l)
  case Nil
  then show ?case using issues_Cons by fastforce
next
  case (Cons c cs)
  have q: "request l = call_request (pmem s) c"
    "\<And>e. issues request (l @ [e]) (map (call_request (pmem s)) cs @ [Shut_Down])"
    using issues_Cons Cons.prems(3) by (metis append_Cons list.map(2))+
  have c: "call_ok W s c" using Cons.prems(1) by simp
  have "printable_store st' \<and> trusted_client print request (length cs) st' (l @ [e])"
    if "store_step (dictionary_store M) (call_request (pmem s) c) reply st'" for reply st' e
  proof -
    from call_step(2) [OF c Cons.prems(2) that] obtain N where "st' = dictionary_store N" "short_values N" by blast
    with Cons.IH [OF _ this(2) q(2)] Cons.prems(1) dictionary_store_printable [of N] show ?thesis by simp
  qed
  with call_step(1) [OF c Cons.prems(2)] show ?case
    unfolding q(1) list.size(4) One_nat_def add_Suc_right add_0_right trusted_client.simps by blast
qed

lemma shut_down_sends:
  assumes ok: "client_ok V W answer h ctx s"
  obtains s' e where "shut_down_server V h s = Some (0, s')" "nic_log W (world s') = nic_log W (world s) @ [e]"
    "carries e Shut_Down"
proof -
  have "message_srcs Shut_Down [] (pmem s)" "srcs_blocks [] \<inter> nic_work W = {}"
    "length (message_bytes Shut_Down) \<le> sizeof_ControlMessage" by (simp_all add: short_reply)
  from client_send [OF ok this] obtain s' e where
    "send_control_message V h (message_op Shut_Down) [] s = Some (0, s')" "carries e Shut_Down"
    "nic_log W (world s') = nic_log W (world s) @ [e]" by blast
  with that show ?thesis by (simp add: shut_down_server_def)
qed

lemma system_run:
  assumes conn: "server_conn V W request h ctx s" and begins: "server_begins W s"
    and client: "client_ok U X answer g ctx' t" and calls: "\<forall>c \<in> set cs. call_ok X t c" and n: "length cs < 2 ^ 57"
    and up: "issues request (nic_log W (world s)) (map (call_request (pmem t)) cs @ [Shut_Down])"
    and down: "\<And>h' s'. run_server V print h s = Some (0, h', s') \<Longrightarrow>
      delivers (nic_log W (world s)) (nic_log W (world s')) answer (nic_log X (world t))"
  shows "\<exists>h' s' g' t' t'' es. run_server V print h s = Some (0, h', s') \<and>
    run_calls U cs g t = Some (dictionary_results (pmem t) Map.empty cs, g', t') \<and>
    shut_down_server U g' t' = Some (0, t'') \<and>
    nic_log X (world t'') = nic_log X (world t) @ es \<and>
    list_all2 carries es (map (call_request (pmem t)) cs @ [Shut_Down])"
proof -
  let ?reqs = "map (call_request (pmem t)) cs"
  have short: "short_values Map.empty" by (simp add: short_values_def)
  have "trusted_client print request (length cs) Map.empty (nic_log W (world s))"
    using calls_trusted [OF calls short up] by simp
  from run_server_session [OF conn begins this n] obtain h' s' st' where
    run: "run_server V print h s = Some (0, h', s')"
    and sess: "session request Map.empty (nic_log W (world s)) (length cs) st' (nic_log W (world s'))" by blast
  have "issues request (nic_log W (world s)) ?reqs"
    using up by (simp add: issues_def nth_append)
  from session_follows [OF sess this _ down [OF run]]
  have "follows_store answer ?reqs (dictionary_store Map.empty) (nic_log X (world t))" by simp
  from run_calls_follow [OF client calls short this] obtain g' ctx2 t' es where
    c: "run_calls U cs g t = Some (dictionary_results (pmem t) Map.empty cs, g', t')"
      "client_ok U X answer g' ctx2 t'" "nic_log X (world t') = nic_log X (world t) @ es"
      "list_all2 carries es ?reqs" by blast
  from shut_down_sends [OF c(2)] obtain t'' e where
    "shut_down_server U g' t' = Some (0, t'')" "nic_log X (world t'') = nic_log X (world t') @ [e]"
    "carries e Shut_Down" .
  with run c show ?thesis by (intro exI [of _ "es @ [e]"] exI conjI) (auto intro!: list_all2_appendI)
qed

end
