(* ===== verification/System_Properties.thy ===== *)
theory System_Properties
  imports Session_Properties KV_System
begin

text \<open>
  The key-value store as a whole (LowLatencyProtocols/kv_api.c): a client program of any number
  of \<open>kv_set\<close> and \<open>kv_get\<close> calls, linked with \<open>run_server\<close>, behaves as a dictionary.
\<close>

text \<open>
  C1. The store is a dictionary, end to end. Let a client run any sequence of \<open>kv_set\<close> and
  \<open>kv_get\<close> calls whose strings fit a control message, and then \<open>shut_down_server\<close>, on its own
  machine, and let the server run \<open>run_server\<close> on another, each side receiving, in order, what
  the other sends. Then the server, printing its database or
  not, returns 0; every set returns 0; every get of a key that was
  set returns 0 and the value set last, every other get returns 1; and the client has sent
  exactly the messages the server has received.
\<close>

theorem store_is_a_dictionary:
  assumes "server_conn V W request h ctx s" and "server_begins W s"
    and "client_ok U X answer g ctx' t" and "\<forall>c \<in> set calls. call_ok X t c" and "length calls < 2 ^ 57"
    and "issues request (nic_log W (world s)) (map (call_request (pmem t)) calls @ [Shut_Down])"
    and "\<And>h' s'. run_server V print_database h s = Some (0, h', s') \<Longrightarrow>
      delivers (nic_log W (world s)) (nic_log W (world s')) answer (nic_log X (world t))"
  shows "\<exists>h' s' g' t' t'' es. run_server V print_database h s = Some (0, h', s') \<and>
    run_calls U calls g t = Some (dictionary_results (pmem t) Map.empty calls, g', t') \<and>
    shut_down_server U g' t' = Some (0, t'') \<and>
    nic_log X (world t'') = nic_log X (world t) @ es \<and>
    list_all2 carries es (map (call_request (pmem t)) calls @ [Shut_Down])"
  using assms by (rule system_run)

section \<open>A concrete pair\<close>

definition demo_program :: "kv_call list" where
  "demo_program = [Set_Call (Ptr 2 0) (Ptr 3 0), Get_Call (Ptr 2 0)]"

definition demo_messages :: "sent \<Rightarrow> message" where
  "demo_messages l =
     (if length l = 0 then Set_Eager demo_key 2 [118] else if length l = 1 then Get demo_key else Shut_Down)"

lemma demo_log: "nic_log loop_view (world (demo_client_state v)) = []"
  by (simp add: loop_view_def demo_client_state_def demo_state_def)

lemma demo_program_requests:
  "map (call_request (pmem (demo_client_state [118]))) demo_program = [Set_Eager demo_key 2 [118], Get demo_key]"
  using demo_client_key(1) [of "[118]"] demo_client_strings [of "[118]"]
  by (simp add: demo_program_def client_strings_def)

lemma demo_program_ok: "\<forall>c \<in> set demo_program. call_ok loop_view (demo_client_state [118]) c"
  using demo_client_key [of "[118]"] demo_client_strings [of "[118]"]
  by (auto simp: demo_program_def client_strings_def CONTROL_MESSAGE_BUFFER_SIZE_def demo_key_def
      nic_dma_def loop_view_def demo_client_state_def demo_state_def demo_mrs_def)

lemma demo_messages_issued:
  "issues demo_messages [] (map (call_request (pmem (demo_client_state [118]))) demo_program @ [Shut_Down])"
  unfolding demo_program_requests by (auto simp: issues_def demo_messages_def less_Suc_eq)

lemma demo_session:
  assumes "session demo_messages Map.empty [] (length demo_program) st' l'"
  shows "\<exists>e1 e2. l' = [e1, e2] \<and> carries e1 Set_Successful \<and> carries e2 (Get_Eager [118])"
proof -
  from assms have "session demo_messages Map.empty [] (Suc (Suc 0)) st' l'" by (simp add: demo_program_def)
  then obtain st1 r1 e1 st2 r2 e2 where
    1: "store_step Map.empty (demo_messages []) r1 st1" "carries e1 r1"
    and 2: "store_step st1 (demo_messages [e1]) r2 st2" "carries e2 r2" and l: "l' = [e1, e2]"
    by (auto elim!: session.cases)
  from 1(1) have "r1 = Set_Successful \<and> st1 = [demo_key \<mapsto> Ready ([118] @ [0])]"
    by (simp add: demo_messages_def) (erule store_step_eagerE, auto simp: key_busy_def)
  moreover from this 2(1) have "r2 = Get_Eager [118]"
    by (simp add: demo_messages_def) (erule store_step_getE, auto simp: key_busy_def)
  ultimately show ?thesis using 1(2) 2(2) l by blast
qed

lemma demo_messages_wf: "message_wf (demo_messages l)" "length (message_bytes (demo_messages l)) \<le> 4100"
  by (simp_all add: demo_messages_def message_wf_def message_bytes_def demo_key_def)

lemma demo_answers_wf: "message_wf (demo_answers l)" "length (message_bytes (demo_answers l)) \<le> 4100"
  by (simp_all add: demo_answers_def message_wf_def message_bytes_def)

lemma demo_delivers:
  assumes "run_server (demo_peer demo_messages) 1 (demo_client 50) (demo_client_state [118]) = Some (0, h', s')"
  shows "delivers [] (nic_log loop_view (world s')) demo_answers []"
proof -
  have "short_values Map.empty" by (simp add: short_values_def)
  from calls_trusted [OF demo_program_ok this demo_messages_issued]
  have "trusted_client 1 demo_messages (length demo_program) Map.empty (nic_log loop_view (world (demo_client_state [118])))"
    by (simp add: demo_log)
  from run_server_session [OF demo_server_conn [OF demo_messages_wf] demo_server_begins this, of 50] assms
  obtain st' where "session demo_messages Map.empty [] (length demo_program) st' (nic_log loop_view (world s'))"
    by (auto simp: demo_program_def demo_log)
  from demo_session [OF this] obtain e1 e2 where
    "nic_log loop_view (world s') = [e1, e2]" "carries e1 Set_Successful" "carries e2 (Get_Eager [118])" by blast
  then show ?thesis
    using demo_answers_wf
    by (auto simp: delivers_def demo_answers_def le_Suc_eq length_Suc_conv)
qed

theorem store_is_a_dictionary_witness:
  "\<exists>h' s' g' t' t'' es.
    run_server (demo_peer demo_messages) 1 (demo_client 50) (demo_client_state [118]) = Some (0, h', s') \<and>
    run_calls (demo_peer demo_answers) demo_program (demo_client 50) (demo_client_state [118]) =
      Some (dictionary_results (pmem (demo_client_state [118])) Map.empty demo_program, g', t') \<and>
    shut_down_server (demo_peer demo_answers) g' t' = Some (0, t'') \<and>
    nic_log loop_view (world t'') = nic_log loop_view (world (demo_client_state [118])) @ es \<and>
    list_all2 carries es (map (call_request (pmem (demo_client_state [118]))) demo_program @ [Shut_Down])"
  by (rule store_is_a_dictionary [OF demo_server_conn [OF demo_messages_wf] demo_server_begins
        demo_client_ok [OF demo_answers_wf] demo_program_ok])
    (simp_all only: demo_log demo_messages_issued demo_delivers, simp_all add: demo_program_def)

end
