(* ===== verification/Spec2Isabelle.thy ===== *)
theory Spec2Isabelle
  imports Server_Properties Client_Properties Table_Properties Protocol_Properties Connection_Properties
    BW_Properties Main_Properties System_Properties
begin

text \<open>
  A verification development for three C programs: a key-value store over RDMA
  (src/LowLatencyProtocols), an RDMA-write benchmark (src/Optimization/bw_template.c) and its TCP
  baseline (src/Baseline). This theory collects the others and holds no definitions.

  \<^bold>\<open>The programs.\<close> A client and a server of the key-value store agree on queue pair
  addresses over a TCP socket and connect their queue pairs (ib_functions.c). From then on they exchange
  control messages, each one SEND into a receive buffer the other side has posted (kv_api.c). A short
  value travels inside the control message (eager). For a long one the server registers the memory of
  the value and answers its address and key; the client writes or reads the memory by RDMA and closes
  the transfer with a FIN (rendezvous). In between the key is in progress, and the server answers every
  other request for it with "in progress". The server keeps its pairs in a growing table
  (dynamic_array.h). main.c runs the server, a throughput test or a command file. The benchmark measures
  trials of RDMA writes and of SEND ping-pongs; the baseline measures a TCP stream.

  \<^bold>\<open>The theories.\<close> Ground that the programs share:

  \<^item> Prelude: machine integers, byte order, C strings, facts on lists and options.
  \<^item> C_Memory: blocks, pointers, loads and stores, \<open>malloc\<close> and \<open>free\<close>,
    \<open>strcmp\<close> and relatives.
  \<^item> Text_Format: the conversions of \<open>sprintf\<close> and \<open>sscanf\<close> the programs
    use.
  \<^item> Verbs and Host: the outside world as records of functions (\<open>verbs\<close>: the data
    path of libibverbs; \<open>host\<close>: its set-up calls, sockets, files, \<open>rand\<close>) and
    their documented behaviour.

  The code, in the order of its calls:

  \<^item> IB_Functions (ib_functions.c, .h): contexts (struct pingpong_context is
    \<open>pingpong_context\<close>), posting receive, send and RDMA requests, the polling loops.
  \<^item> Wire_Address, Connection (ib_functions.c): the address message, the exchange over TCP, the
    transitions of the queue pair, creating and closing a context.
  \<^item> Dynamic_Array (dynamic_array.h): \<open>KeyValueAddressArray\<close>, its operations and its
    invariant \<open>array_ok\<close>.
  \<^item> KV_Protocol, KV_Server, KV_Client, KV_Open (kv_api.h, kv_api.c): control messages; the five
    request handlers and the loop of \<open>run_server\<close>; \<open>kv_set\<close>,
    \<open>kv_get\<close>, \<open>kv_release\<close>; \<open>kv_open\<close> and
    \<open>kv_close\<close>.
  \<^item> KV_Main (main.c): throughput test, command file, \<open>main\<close>.
  \<^item> BW_Template, BW_Setup, BW_Main (bw_template.c): waiting, trials and tests; addresses,
    connection and context; command line and \<open>main\<close>. Names it shares with ib_functions.c
    carry \<open>bw\<close>.
  \<^item> Baseline (client.c, server.c): the two programs of the baseline.

  \<^bold>\<open>State.\<close> A C function becomes a function of its arguments and of \<open>'w
  pstate\<close>: the memory, the globals and the state \<open>'w\<close> of the adapter and all beyond
  it. It returns the C result, what it changed, and the new state. \<open>None\<close> means that the
  call does not return normally: undefined behaviour (a bad pointer, a read past the end of an object)
  or an endless loop. A C structure the program allocates for itself (context, handle, address, table)
  is a record passed and returned; strings, buffers and values are in the memory. The handle's
  \<open>ctx\<close> is an index into \<open>array_ctx_ptr\<close>, as the pointer always points there.
  Error returns are the C codes.

  \<^bold>\<open>Interfaces.\<close> \<open>receive_credit\<close> (Receive_Credit) is the accounting of
  posted receive requests, provided by \<open>poll_next_receive_wc\<close> (interpretation
  \<open>ib_credit\<close>) and by the benchmark's waiting (\<open>bw_credit\<close>);
  \<open>posted_credit\<close> extends it by the agreement of the count with the requests that are really
  outstanding (\<open>ib_posted\<close>).
  \<open>kv_table\<close> (KV_Table) is the table as the server uses it, provided by Dynamic_Array
  (\<open>table\<close>).

  \<^bold>\<open>What is shown.\<close>

  \<^item> Server: \<open>store_step\<close> in KV_Store is the specification, an abstract store from
    keys to slots (ready, being read, being written) and the reply each request gets. KV_Refinement
    proves that a handler sends exactly one message, that message and store are a step, and that an
    address and key in it designate the value of the key. Server_Properties states it for each handler
    and one pass of the loop. KV_Session and Session_Properties follow a whole run of
    \<open>run_server\<close> with its one client, from the empty table to SHUT_DOWN, and a client that
    gets back what it has set. KV_System and System_Properties link a client program of any number of
    sets and gets with a run of the server: together they are a dictionary. For long values, an address
    and key in a reply are those of the whole value of the key, and what was written there is what is
    served.
  \<^item> Table: \<open>array_map\<close> is the finite map a table represents; every sequence of
    insertions builds a dictionary, and a table that has grown has at most twice the slots it uses
    (Table_Properties).
  \<^item> Messages and completions (KV_Protocol, KV_Receive, Protocol_Properties): encoding and
    decoding are inverse, the bytes of a buffer begin with at most one message, polling takes exactly
    the completions asked for, and the receive requests a context counts are outstanding at the
    adapter, always more than the threshold.
  \<^item> Client (KV_Client_Correct, Client_Properties): the requests \<open>kv_set\<close> and
    \<open>kv_get\<close> send, in order, and what they return for every answer of an arbitrary peer.
  \<^item> Connections (Connection_Correct, Connection_Properties): addresses survive the wire, both
    ends reach a ready pair of queue pairs with agreeing sequence numbers, a new context has its
    buffers registered and filled.
  \<^item> Benchmark (BW_Correct, BW_Properties): waiting takes exactly what it is asked for, a trial
    leaves nothing behind, client and server return.
  \<^item> Small programs (Baseline_Correct, Main_Properties): the stream of the TCP client, the answers
    of the TCP server however the stream is cut, the command file.
  \<^item> Errors: a FIN for an unknown key, an announced size that is too small, a value that fits the
    buffer but not with its size field, the send queue overrun, the missing null check of
    \<open>kv_open\<close>, the unterminated value of a SET line, a PRINT line without a text, deleting
    from a table.

  Loopback, Demo_Server and Demo_Host are concrete machines. Every theorem with hypotheses is applied to
  one of them or to one defined beside it (\<open>_witness\<close>).

  \<^bold>\<open>Hypotheses on the outside world.\<close> They state documented behaviour of a connection
  that works, so a theorem that has them says nothing about failing hardware: a posted SEND is executed
  and its completion can be polled, and so is an RDMA write where the peer allows it
  (\<open>sends_complete\<close>; \<open>peer_grants\<close>: the peer allows it at the address and key of
  its own answer), an RDMA read delivers the bytes exposed by the peer (\<open>reads_complete\<close>,
  \<open>peer_exposes\<close>), registering and deregistering keep the set of regions
  (\<open>registers\<close>, \<open>deregisters\<close>), posting a receive request succeeds
  (\<open>posts_receives\<close>), outstanding receive requests are counted by posts and completions
  (\<open>counts_receives\<close>), a message of the peer reaches the buffer after finitely many polls
  (\<open>peer_answers\<close>, \<open>requests_arrive\<close>). \<open>peer_answers\<close> and
  \<open>requests_arrive\<close> idealise: they deliver a message whether or not a receive request is posted
  for it. That the queue holds more than the threshold of requests is shown separately
  (Protocol_Properties); the two results are not composed. Further, a queue pair accepts the legal
  transitions (\<open>modifies_qp\<close>), objects are created (\<open>host_creates\<close>), TCP delivers what was sent (\<open>tcp_delivers\<close>,
  \<open>hands_over\<close>), a completion queue is a queue (\<open>cq_fifo\<close>),
  \<open>rand\<close> has no access to memory (\<open>rand_quiet\<close>), a client that has sent its
  FIN writes no more (\<open>at_rest\<close>), and each side of a session receives in order what the
  other has sent (\<open>issues\<close>, \<open>delivers\<close>). Fresh memory has arbitrary contents,
  and an allocation may fail unless a theorem says otherwise.

  \<^bold>\<open>Loops.\<close> Loops over lists and counters are recursive functions that terminate.
  Polling loops, \<open>server_loop\<close> and the loops on sockets may run for ever and are
  \<open>partial_function (option)\<close>; there is no fuel. That they return is proved (waiting,
  trials, both sides of the benchmark, the server of the baseline, \<open>run_server\<close>).

  \<^bold>\<open>Not modelled.\<close> Timing and printing: \<open>usage\<close>, the results of the
  measurements, messages on stderr. The printing of the table is modelled, as it reads the values and
  may read past their ends, but the output is not kept. The parsing of \<open>getopt_long\<close>, whose
  results are a list. The unused types \<open>Task\<close> and \<open>TaskType\<close>, prototypes and
  include lines. Failing allocation of the program's own table and arrays (the code does not check it
  either). Two programs running in parallel: a theorem is about one side, the other is any peer with the
  stated behaviour. Only KV_System takes both sides together, for values that fit a control message: it
  links the runs of the two machines by the messages each receives. The memory that RDMA shares between
  the machines is not linked in this way.
\<close>

end
